(* ===== verification/Prelude.thy ===== *)
theory Prelude
  imports Complex_Main "HOL-Library.AList" "HOL-Library.Sublist"
begin

text \<open>
  The shared vocabulary of the development.

  \<^item> \<open>py_exn\<close>: the exceptions the agent raises or lets through, each with its message; a
    Python function that may raise is a HOL function into \<open>py_exn + 'a\<close>.
  \<^item> \<open>('s, 'a) proc\<close>: a Python routine that reads and writes a state \<open>'s\<close> and either
    returns or raises; the state survives an exception, as it does in Python.
  \<^item> \<open>with_cell\<close>: the \<open>@contextmanager\<close> shape the agent uses four times (set a thread-local,
    run the block, restore the previous value in \<open>finally\<close>), with the locale \<open>scoped_cell\<close> that
    says what such a block guarantees.
  \<^item> \<open>json\<close>: the values that travel in dispatches, results and envelopes.
\<close>

section \<open>Exceptions and routines\<close>

datatype py_exn =
    ValueError string
  | TypeError string
  | KeyError string
  | AttributeError string
  | IndexError string
  | OverflowError string
  | RuntimeError string
  | OSError string
  | TimeoutError string
  | EgressBlocked string
  | CertVerificationError string
  | ConnectError string
  | EnvelopeError string
  | AgentAtCapacity int

text \<open>\<open>OSError\<close> and its subclasses: what an \<open>except OSError\<close> clause catches.\<close>

fun is_os_error :: "py_exn \<Rightarrow> bool" where
  "is_os_error (OSError _) = True"
| "is_os_error (TimeoutError _) = True"
| "is_os_error (EgressBlocked _) = True"
| "is_os_error (CertVerificationError _) = True"
| "is_os_error _ = False"

type_synonym ('s, 'a) proc = "'s \<Rightarrow> (py_exn + 'a) \<times> 's"

definition ret :: "'a \<Rightarrow> ('s, 'a) proc" where
  "ret a s = (Inr a, s)"

definition raise :: "py_exn \<Rightarrow> ('s, 'a) proc" where
  "raise e s = (Inl e, s)"

definition andthen :: "('s, 'a) proc \<Rightarrow> ('a \<Rightarrow> ('s, 'b) proc) \<Rightarrow> ('s, 'b) proc" where
  "andthen m f s =
     (case m s of (Inl e, s') \<Rightarrow> (Inl e, s') | (Inr a, s') \<Rightarrow> f a s')"

text \<open>\<open>try: m finally: g\<close> for a clean-up that cannot raise.\<close>

definition finally_do :: "('s, 'a) proc \<Rightarrow> ('s \<Rightarrow> 's) \<Rightarrow> ('s, 'a) proc" where
  "finally_do m g s = (case m s of (r, s') \<Rightarrow> (r, g s'))"

text \<open>
  A context manager that sets one cell for a block: remember the previous value, set the
  new one, run the block, restore in \<open>finally\<close>.
\<close>

definition with_cell ::
  "('s \<Rightarrow> 'v) \<Rightarrow> ('v \<Rightarrow> 's \<Rightarrow> 's) \<Rightarrow> 'v \<Rightarrow> ('s, 'a) proc \<Rightarrow> ('s, 'a) proc" where
  "with_cell get put v body s =
     (let prev = get s in finally_do body (put prev) (put v s))"

text \<open>\<open>type(e).__name__\<close>.\<close>

fun exn_name :: "py_exn \<Rightarrow> string" where
  "exn_name (ValueError _) = ''ValueError''"
| "exn_name (TypeError _) = ''TypeError''"
| "exn_name (KeyError _) = ''KeyError''"
| "exn_name (AttributeError _) = ''AttributeError''"
| "exn_name (IndexError _) = ''IndexError''"
| "exn_name (OverflowError _) = ''OverflowError''"
| "exn_name (RuntimeError _) = ''RuntimeError''"
| "exn_name (OSError _) = ''OSError''"
| "exn_name (TimeoutError _) = ''TimeoutError''"
| "exn_name (EgressBlocked _) = ''EgressBlocked''"
| "exn_name (CertVerificationError _) = ''SSLCertVerificationError''"
| "exn_name (ConnectError _) = ''ConnectError''"
| "exn_name (EnvelopeError _) = ''EnvelopeError''"
| "exn_name (AgentAtCapacity _) = ''AgentAtCapacity''"

text \<open>
  Clock readings are whole microseconds. \<open>int((until - since) * 1000)\<close> on a difference in
  seconds is the difference in milliseconds, rounded towards zero.
\<close>

definition ms_between :: "int \<Rightarrow> int \<Rightarrow> int" where
  "ms_between since until =
     (let d = until - since in if 0 \<le> d then d div 1000 else - ((- d) div 1000))"

section \<open>JSON and dictionaries\<close>

datatype py_float = Fin rat | PInf | NInf | NaN

datatype json =
    JNull
  | JBool bool
  | JInt int
  | JFloat py_float
  | JStr string
  | JList "json list"
  | JObj "(string \<times> json) list"

type_synonym dict = "(string \<times> json) list"

text \<open>\<open>d.get(k)\<close>, \<open>d[k] = v\<close> (in place, or appended) and \<open>d.pop(k, None)\<close>.\<close>

definition dict_get :: "dict \<Rightarrow> string \<Rightarrow> json option" where
  "dict_get d k = map_of d k"

definition dict_set :: "string \<Rightarrow> json \<Rightarrow> dict \<Rightarrow> dict" where
  "dict_set k v d = AList.update k v d"

definition dict_pop :: "string \<Rightarrow> dict \<Rightarrow> json option \<times> dict" where
  "dict_pop k d = (map_of d k, AList.delete k d)"

text \<open>Python truth of a JSON value (\<open>if not v\<close>).\<close>

fun truthy :: "json \<Rightarrow> bool" where
  "truthy JNull = False"
| "truthy (JBool b) = b"
| "truthy (JInt i) = (i \<noteq> 0)"
| "truthy (JFloat f) = (f \<noteq> Fin 0)"
| "truthy (JStr s) = (s \<noteq> [])"
| "truthy (JList l) = (l \<noteq> [])"
| "truthy (JObj d) = (d \<noteq> [])"

section \<open>Shared lemmas\<close>

named_theorems proc_simps \<open>unfolding the routine combinators\<close>

declare ret_def [proc_simps] raise_def [proc_simps] andthen_def [proc_simps]
  finally_do_def [proc_simps] with_cell_def [proc_simps]

lemma finally_do_fst [simp]: "fst (finally_do m g s) = fst (m s)"
  by (simp add: finally_do_def split: prod.splits)

lemma finally_do_snd [simp]: "snd (finally_do m g s) = g (snd (m s))"
  by (simp add: finally_do_def split: prod.splits)

lemma dict_get_set_same [simp]: "dict_get (dict_set k v d) k = Some v"
  by (simp add: dict_get_def dict_set_def update_conv)

lemma dict_get_set_other: "k \<noteq> k' \<Longrightarrow> dict_get (dict_set k v d) k' = dict_get d k'"
  by (simp add: dict_get_def dict_set_def update_conv)

lemma dict_get_set: "dict_get (dict_set k v d) k' = (if k = k' then Some v else dict_get d k')"
  by (simp add: dict_get_set_other)

lemma option_eqI:
  assumes "\<And>c. a = Some c \<Longrightarrow> b = Some c" and "\<And>c. b = Some c \<Longrightarrow> a = Some c"
  shows "a = b"
proof (cases a)
  case None
  then show ?thesis using assms(2) by (cases b) fastforce+
qed (simp add: assms(1))

section \<open>The contract of a scoped thread-local\<close>

locale scoped_cell =
  fixes get :: "'s \<Rightarrow> 'v" and put :: "'v \<Rightarrow> 's \<Rightarrow> 's"
  assumes get_put: "get (put v s) = v"
    and put_get: "put (get s) s = s"
    and put_put: "put v (put w s) = put v s"
begin

text \<open>Whatever the block does, raising included, the enclosing value is back afterwards.\<close>

lemma restores: "get (snd (with_cell get put v body s)) = get s"
  by (simp add: with_cell_def Let_def get_put)

text \<open>The block starts with the new value.\<close>

lemma outcome: "fst (with_cell get put v body s) = fst (body (put v s))"
  by (simp add: with_cell_def Let_def)

text \<open>A block that leaves the state alone leaves no trace of the scope.\<close>

lemma transparent:
  assumes "snd (body (put v s)) = put v s"
  shows "snd (with_cell get put v body s) = s"
  using assms by (simp add: with_cell_def Let_def put_put put_get)

text \<open>An inner scope hides the outer value and gives it back.\<close>

lemma nested:
  "fst (with_cell get put v (with_cell get put w body) s) = fst (with_cell get put w body s)"
  by (simp add: outcome put_put)

end

end
