(* ===== verification/Storage.thy ===== *)
theory Storage
  imports PyStr
begin

text \<open>
  \<open>storage/base.py\<close>, \<open>storage/filesystem.py\<close>, \<open>storage/s3.py\<close>: where response bodies go. A
  \<open>pathlib.Path\<close> is kept as the text it was built from and parsed when it is used, as
  \<open>PurePosixPath\<close> does. The file system maps the normal text of a path to a file or a
  directory; it refuses an operation only for what stands in that map (no permissions, no
  full disk, no symbolic links). The object store of \<open>boto3\<close> is outside the repository: its
  \<open>upload_file\<close> and \<open>generate_presigned_url\<close> are arguments. The locale \<open>body_store\<close> is the contract
  of the abstract base class: what \<open>upload\<close> promises \<open>download_url\<close>'s caller.
\<close>

section \<open>Paths\<close>

datatype posix_path = PosixPath (path_root: string) (path_tail: "string list")

definition splitroot :: "string \<Rightarrow> string \<times> string" where
  "splitroot p =
     (if \<not> startswith p ''/'' then ([], p)
      else if take 1 (drop 1 p) \<noteq> ''/'' \<or> take 1 (drop 2 p) = ''/'' then (''/'', drop 1 p)
      else (''//'', drop 2 p))"

definition path_parse :: "string \<Rightarrow> posix_path" where
  "path_parse p =
     (let (r, rel) = splitroot p
      in PosixPath r (filter (\<lambda>x. x \<noteq> [] \<and> x \<noteq> ''.'') (split_on CHR ''/'' rel)))"

definition path_str :: "posix_path \<Rightarrow> string" where
  "path_str q =
     (if path_root q = [] \<and> path_tail q = [] then ''.'' else path_root q @ join ''/'' (path_tail q))"

text \<open>\<open>str(Path(p))\<close>, \<open>Path(p).name\<close> and the text of \<open>Path(a) / b\<close>.\<close>

definition path_text :: "string \<Rightarrow> string" where
  "path_text p = path_str (path_parse p)"

definition path_name :: "string \<Rightarrow> string" where
  "path_name p = (let t = path_tail (path_parse p) in if t = [] then [] else last t)"

definition path_join :: "string \<Rightarrow> string \<Rightarrow> string" where
  "path_join a b =
     (if startswith b ''/'' \<or> a = [] then b
      else if endswith a ''/'' then a @ b else a @ ''/'' @ b)"

section \<open>The file system\<close>

datatype node = File string | Directory

type_synonym fs = "string \<Rightarrow> node option"

definition path_exists :: "fs \<Rightarrow> string \<Rightarrow> bool" where
  "path_exists fs p = (path_tail (path_parse p) = [] \<or> fs (path_text p) \<noteq> None)"

definition is_dir :: "fs \<Rightarrow> posix_path \<Rightarrow> bool" where
  "is_dir fs q = (path_tail q = [] \<or> fs (path_str q) = Some Directory)"

definition ancestors :: "posix_path \<Rightarrow> posix_path list" where
  "ancestors q = map (\<lambda>i. PosixPath (path_root q) (take i (path_tail q))) [1..<Suc (length (path_tail q))]"

definition path_parent :: "posix_path \<Rightarrow> posix_path" where
  "path_parent q = PosixPath (path_root q) (butlast (path_tail q))"

text \<open>\<open>Path.mkdir(parents=True, exist_ok=True)\<close>: the missing directories, outermost first.\<close>

fun make_dirs :: "posix_path list \<Rightarrow> (fs, unit) proc" where
  "make_dirs [] fs = (Inr (), fs)"
| "make_dirs (q # qs) fs =
     (case fs (path_str q) of
        None \<Rightarrow> make_dirs qs (fs(path_str q \<mapsto> Directory))
      | Some Directory \<Rightarrow> make_dirs qs fs
      | Some (File _) \<Rightarrow> (Inl (OSError ''File exists''), fs))"

definition mkdir_all :: "posix_path \<Rightarrow> (fs, unit) proc" where
  "mkdir_all q = make_dirs (ancestors q)"

text \<open>\<open>Path.read_bytes\<close>, \<open>Path.write_bytes\<close> and \<open>shutil.copy2\<close>.\<close>

definition read_bytes :: "string \<Rightarrow> (fs, string) proc" where
  "read_bytes p fs =
     (case fs (path_text p) of
        Some (File c) \<Rightarrow> (Inr c, fs)
      | Some Directory \<Rightarrow> (Inl (OSError ''Is a directory''), fs)
      | None \<Rightarrow> (Inl (OSError ''No such file or directory''), fs))"

definition write_bytes :: "string \<Rightarrow> string \<Rightarrow> (fs, unit) proc" where
  "write_bytes p c fs =
     (if is_dir fs (path_parse p) then (Inl (OSError ''Is a directory''), fs)
      else if \<not> is_dir fs (path_parent (path_parse p)) then (Inl (OSError ''No such file or directory''), fs)
      else (Inr (), fs(path_text p \<mapsto> File c)))"

definition copy2 :: "string \<Rightarrow> string \<Rightarrow> (fs, unit) proc" where
  "copy2 src dst fs =
     (let dst' = (if is_dir fs (path_parse dst) then path_join dst (path_name src) else dst)
      in if path_exists fs src \<and> path_text src = path_text dst'
         then (Inl (OSError ''are the same file''), fs)
         else andthen (read_bytes src) (write_bytes dst') fs)"

section \<open>Filesystem storage\<close>

definition file_scheme :: string where
  "file_scheme = ''file://''"

text \<open>\<open>FilesystemStorage.__init__\<close>, \<open>upload\<close>, \<open>_strip_scheme\<close>, \<open>download_url\<close>.\<close>

definition fs_init :: "string \<Rightarrow> (fs, unit) proc" where
  "fs_init root_dir = mkdir_all (path_parse root_dir)"

definition fs_upload :: "string \<Rightarrow> string \<Rightarrow> string \<Rightarrow> (fs, string) proc" where
  "fs_upload root_dir local_path key =
     (let dest = path_join root_dir key
      in andthen (mkdir_all (path_parent (path_parse dest))) (\<lambda>_.
         andthen (copy2 local_path dest) (\<lambda>_. ret (file_scheme @ path_text dest))))"

definition strip_scheme :: "string \<Rightarrow> string" where
  "strip_scheme uri = (if startswith uri file_scheme then drop (length file_scheme) uri else uri)"

definition fs_download_url :: "string \<Rightarrow> fs \<Rightarrow> string option" where
  "fs_download_url uri fs =
     (let path = strip_scheme uri in if path_exists fs path then Some (path_text path) else None)"

section \<open>S3 storage\<close>

definition s3_scheme :: string where
  "s3_scheme = ''s3://''"

record s3_storage =
  s3_bucket :: string
  s3_prefix :: string

definition s3_init :: "string \<Rightarrow> string \<Rightarrow> s3_storage" where
  "s3_init bucket pre = \<lparr>s3_bucket = bucket, s3_prefix = rstrip_by (\<lambda>c. c = CHR ''/'') pre\<rparr>"

definition full_key :: "s3_storage \<Rightarrow> string \<Rightarrow> string" where
  "full_key st key = (if s3_prefix st \<noteq> [] then s3_prefix st @ ''/'' @ key else key)"

definition s3_upload ::
  "(string \<Rightarrow> string \<Rightarrow> string \<Rightarrow> ('s, unit) proc) \<Rightarrow> s3_storage \<Rightarrow> string \<Rightarrow> string \<Rightarrow> ('s, string) proc" where
  "s3_upload upload_file st local_path key =
     (let fk = full_key st key
      in andthen (upload_file (path_text local_path) (s3_bucket st) fk)
           (\<lambda>_. ret (s3_scheme @ s3_bucket st @ ''/'' @ fk)))"

text \<open>\<open>uri.split("/", 1)\<close> has two parts exactly when there is a slash.\<close>

definition parse_uri :: "string \<Rightarrow> py_exn + (string \<times> string)" where
  "parse_uri uri =
     (let rest = removeprefix uri s3_scheme; (bucket, found, key) = partition_at CHR ''/'' rest
      in if found then Inr (bucket, key) else Inl (ValueError (''Invalid S3 URI: '' @ rest)))"

definition s3_download_url :: "(string \<Rightarrow> string \<Rightarrow> 's \<Rightarrow> py_exn + string) \<Rightarrow> string \<Rightarrow> 's \<Rightarrow> py_exn + string" where
  "s3_download_url presign uri s =
     (case parse_uri uri of Inl e \<Rightarrow> Inl e | Inr (bucket, key) \<Rightarrow> presign bucket key s)"

text \<open>The keys the agent uploads under: a run prefix and a file name, one slash between.\<close>

definition body_key :: "string \<Rightarrow> bool" where
  "body_key key =
     (case split_on CHR ''/'' key of
        [a, b] \<Rightarrow> a \<noteq> [] \<and> a \<noteq> ''.'' \<and> b \<noteq> [] \<and> b \<noteq> ''.''
      | _ \<Rightarrow> False)"

text \<open>What a store holds, the URI of a key, and that no directory stands where the body goes.\<close>

definition file_at :: "string \<Rightarrow> fs \<Rightarrow> string option" where
  "file_at p fs = (case fs (path_text p) of Some (File c) \<Rightarrow> Some c | _ \<Rightarrow> None)"

definition fs_place :: "string \<Rightarrow> string \<Rightarrow> string" where
  "fs_place root_dir key = file_scheme @ path_text (path_join root_dir key)"

definition fs_free :: "string \<Rightarrow> string \<Rightarrow> fs \<Rightarrow> bool" where
  "fs_free root_dir key fs = (\<not> is_dir fs (path_parse (path_join root_dir key)))"

definition sample_fs :: fs where
  "sample_fs = Map.empty(''/tmp'' \<mapsto> Directory, ''/tmp/call_0'' \<mapsto> File ''new'', ''/data'' \<mapsto> Directory,
     ''/data/ab'' \<mapsto> Directory, ''/data/ab/call_0'' \<mapsto> File ''old'')"

section \<open>The contract of a body store\<close>

text \<open>
  Naming: \<open>place\<close> is the URI \<open>upload\<close> returns for a key, \<open>locate\<close> what a consumer finds the object by.
\<close>

locale uri_naming =
  fixes place :: "string \<Rightarrow> string" and locate :: "string \<Rightarrow> 'l option" and loc :: "string \<Rightarrow> 'l"
    and valid :: "string \<Rightarrow> bool"
  assumes located: "valid k \<Longrightarrow> locate (place k) = Some (loc k)"
    and apart: "valid k \<Longrightarrow> valid k' \<Longrightarrow> loc k = loc k' \<Longrightarrow> k = k'"
begin

lemma place_inj: "valid k \<Longrightarrow> valid k' \<Longrightarrow> place k = place k' \<Longrightarrow> k = k'"
  using located [of k] located [of k'] apart [of k k'] by simp

lemma distinct_places:
  "list_all valid ks \<Longrightarrow> distinct ks \<Longrightarrow> distinct (map place ks)"
  by (induction ks) (auto simp: list_all_iff dest: place_inj)

end

text \<open>
  Storing: once \<open>upload\<close> returns, the object reads as the local file did, and no object stored under another
  key has changed.
\<close>

locale body_store = uri_naming place locate loc valid
  for place :: "string \<Rightarrow> string" and locate :: "string \<Rightarrow> string option" and loc :: "string \<Rightarrow> string"
    and valid :: "string \<Rightarrow> bool" +
  fixes upload :: "string \<Rightarrow> string \<Rightarrow> ('s, string) proc"
    and content :: "string \<Rightarrow> 's \<Rightarrow> string option"
    and source :: "string \<Rightarrow> 's \<Rightarrow> string option"
    and free :: "string \<Rightarrow> 's \<Rightarrow> bool"
  assumes returns_place: "upload src k s = (Inr uri, s') \<Longrightarrow> uri = place k"
    and stores: "valid k \<Longrightarrow> free k s \<Longrightarrow> upload src k s = (Inr uri, s') \<Longrightarrow>
      source src s \<noteq> None \<and> content uri s' = source src s"
    and keeps: "valid k \<Longrightarrow> free k s \<Longrightarrow> upload src k s = (Inr uri, s') \<Longrightarrow> uri' \<noteq> uri \<Longrightarrow>
      valid k' \<Longrightarrow> uri' = place k' \<Longrightarrow> content uri' s = Some c \<Longrightarrow> content uri' s' = Some c"
begin

text \<open>A stored body survives any later upload under another key.\<close>

lemma survives:
  assumes "valid k" "free k s" "upload src k s = (Inr uri, s')"
    and "valid k'" "free k' s'" "upload src' k' s' = (Inr uri', s'')" and "k \<noteq> k'"
  shows "content uri s'' = source src s"
proof -
  have u: "uri = place k" "uri' = place k'" using assms returns_place by auto
  with assms(1,4,7) have "uri \<noteq> uri'" by (auto dest: place_inj)
  moreover obtain c where "content uri s' = Some c" "source src s = Some c"
    using stores [OF assms(1-3)] by auto
  ultimately show ?thesis using keeps [OF assms(4-6), of uri k c] assms(1) u by simp
qed

end

section \<open>Lemmas\<close>

lemma path_tail_parse: "x \<in> set (path_tail (path_parse p)) \<Longrightarrow> x \<noteq> [] \<and> x \<noteq> ''.'' \<and> CHR ''/'' \<notin> set x"
  by (auto simp: path_parse_def split: prod.splits dest: split_on_piece)

lemma path_root_parse: "path_root (path_parse p) \<in> {[], ''/'', ''//''}"
  by (auto simp: path_parse_def splitroot_def)

lemma splitroot_str:
  assumes "r \<in> {[], ''/'', ''//''}" and "\<not> startswith t ''/''"
  shows "splitroot (r @ t) = (r, t)"
  using assms by (cases t) (auto simp: splitroot_def startswith_def)

lemma path_parse_str [simp]: "path_parse (path_str (path_parse p)) = path_parse p"
proof -
  obtain r t where q: "path_parse p = PosixPath r t" by (cases "path_parse p")
  have r: "r \<in> {[], ''/'', ''//''}" using path_root_parse [of p] q by simp
  have t: "\<forall>x \<in> set t. x \<noteq> [] \<and> x \<noteq> ''.'' \<and> CHR ''/'' \<notin> set x" using path_tail_parse [of _ p] q by simp
  show ?thesis
  proof (cases "t = []")
    case True
    with r q show ?thesis
      by (auto simp: path_str_def path_parse_def splitroot_def startswith_def split_on_def)
  next
    case False
    have "\<not> startswith (join ''/'' t) ''/''"
    proof -
      obtain c w ws where "t = (c # w) # ws" using False t by (metis list.exhaust list.set_intros(1))
      with t show ?thesis by (cases ws) (auto simp: startswith_def)
    qed
    then have "splitroot (r @ join ''/'' t) = (r, join ''/'' t)" by (rule splitroot_str [OF r])
    moreover have "split_on CHR ''/'' (join ''/'' t) = t" using False t by (intro split_on_join) auto
    moreover have "filter (\<lambda>x. x \<noteq> [] \<and> x \<noteq> ''.'') t = t" using t by (simp add: filter_id_conv)
    ultimately show ?thesis using q False by (simp add: path_str_def path_parse_def)
  qed
qed

lemma path_text_idem [simp]: "path_text (path_text p) = path_text p"
  by (simp add: path_text_def)

lemma startswith_append_nonempty: "s \<noteq> [] \<Longrightarrow> startswith (s @ t) [c] \<longleftrightarrow> startswith s [c]"
  by (cases s) simp_all

lemma startswith1_take: "startswith s [c] \<longleftrightarrow> take 1 s = [c]"
  by (cases s) auto

lemma splitroot_slash:
  assumes "\<not> startswith x ''/''"
  shows "splitroot (R0 @ ''/'' @ x) = (fst (splitroot (R0 @ ''/'')), snd (splitroot (R0 @ ''/'')) @ x)"
proof -
  consider "R0 = []" | a where "R0 = [a]" | a b R where "R0 = a # b # R"
    by (cases R0 rule: remdups_adj.cases) auto
  then show ?thesis
    using assms by cases (auto simp: splitroot_def startswith1_take take_Cons' split: if_splits)
qed

lemma splitroot_no_slash:
  assumes "\<not> endswith R ''/''" and "R \<noteq> []"
  shows "splitroot (R @ ''/'' @ x) = (fst (splitroot R), snd (splitroot R) @ ''/'' @ x)"
proof -
  consider a where "R = [a]" | a b where "R = [a, b]" | a b c R' where "R = a # b # c # R'"
    using assms(2) by (metis list.exhaust)
  then show ?thesis
    using assms(1) by cases (auto simp: splitroot_def endswith_def take_Cons' split: if_splits)
qed

lemma path_parse_join:
  assumes "split_on CHR ''/'' k = [a, b]" and "a \<noteq> []" "a \<noteq> ''.''" "b \<noteq> []" "b \<noteq> ''.''"
  shows "path_parse (path_join R k)
           = PosixPath (path_root (path_parse R)) (path_tail (path_parse R) @ [a, b])"
proof -
  have k: "k = a @ ''/'' @ b" using assms(1) join_split_on [of "CHR ''/''" k] by simp
  have "CHR ''/'' \<notin> set a" using assms(1) split_on_piece [of a "CHR ''/''" k] by simp
  with k assms(2) have ns: "\<not> startswith k ''/''" by (cases a) auto
  let ?f = "filter (\<lambda>x. x \<noteq> [] \<and> x \<noteq> ''.'')"
  have f: "?f [a, b] = [a, b]" using assms by simp
  show ?thesis
  proof (cases "R = []")
    case True
    with ns assms(1) f show ?thesis by (simp add: path_join_def path_parse_def splitroot_def split_on_none)
  next
    case False
    show ?thesis
    proof (cases "endswith R ''/''")
      case True
      then obtain R0 where R: "R = R0 @ ''/''" by (auto simp: endswith_iff)
      obtain r rel where rr: "splitroot R = (r, rel)" by fastforce
      have j: "path_join R k = R0 @ ''/'' @ k" using True False ns R by (simp add: path_join_def)
      have "splitroot (R0 @ ''/'' @ k) = (r, rel @ k)"
        using splitroot_slash [OF ns, of R0] rr R by simp
      moreover have "rel = [] \<or> (\<exists>u. rel = u @ ''/'')"
        using rr R by (cases R0 rule: remdups_adj.cases) (auto simp: splitroot_def split: if_splits)
      moreover have "?f (split_on CHR ''/'' (u @ ''/'' @ k)) = ?f (split_on CHR ''/'' (u @ ''/'')) @ [a, b]" for u
        using split_on_append [of "CHR ''/''" u k] split_on_append [of "CHR ''/''" u "[]"] assms(1) f by simp
      ultimately show ?thesis using j rr assms(1) f by (auto simp: path_parse_def)
    next
      case nos: False
      obtain r rel where rr: "splitroot R = (r, rel)" by fastforce
      have j: "path_join R k = R @ ''/'' @ k" using nos False ns by (simp add: path_join_def)
      have "splitroot (R @ ''/'' @ k) = (r, rel @ ''/'' @ k)"
        using splitroot_no_slash [OF nos False, of k] rr by simp
      moreover have "?f (split_on CHR ''/'' (rel @ ''/'' @ k)) = ?f (split_on CHR ''/'' rel) @ [a, b]"
        using split_on_append [of "CHR ''/''" rel k] assms(1) f by simp
      ultimately show ?thesis using j rr by (simp add: path_parse_def)
    qed
  qed
qed

lemma strip_scheme_place [simp]: "strip_scheme (file_scheme @ p) = p"
  by (simp add: strip_scheme_def startswith_iff)

lemma body_keyD:
  "body_key k \<Longrightarrow> \<exists>a b. split_on CHR ''/'' k = [a, b] \<and> a \<noteq> [] \<and> a \<noteq> ''.'' \<and> b \<noteq> [] \<and> b \<noteq> ''.''"
  by (auto simp: body_key_def split: list.splits)

lemma path_str_inj: "path_text p = path_text q \<Longrightarrow> path_parse p = path_parse q"
  unfolding path_text_def by (metis path_parse_str)

lemma path_join_inj:
  assumes "body_key k" "body_key k'" "path_text (path_join R k) = path_text (path_join R k')"
  shows "k = k'"
proof -
  obtain a b where k: "split_on CHR ''/'' k = [a, b]" "a \<noteq> []" "a \<noteq> ''.''" "b \<noteq> []" "b \<noteq> ''.''"
    using body_keyD [OF assms(1)] by blast
  obtain c d where k': "split_on CHR ''/'' k' = [c, d]" "c \<noteq> []" "c \<noteq> ''.''" "d \<noteq> []" "d \<noteq> ''.''"
    using body_keyD [OF assms(2)] by blast
  have "path_parse (path_join R k) = path_parse (path_join R k')" by (rule path_str_inj [OF assms(3)])
  then have "[a, b] = [c, d]" using path_parse_join [OF k, of R] path_parse_join [OF k', of R] by simp
  then have "split_on CHR ''/'' k = split_on CHR ''/'' k'" using k(1) k'(1) by simp
  then show ?thesis by (metis join_split_on)
qed

interpretation fs_naming: uri_naming "fs_place R" "\<lambda>uri. Some (strip_scheme uri)" "\<lambda>k. path_text (path_join R k)" body_key
  for R
  by unfold_locales (simp_all add: fs_place_def path_join_inj)

interpretation s3_naming: uri_naming "\<lambda>k. s3_scheme @ s3_bucket st @ ''/'' @ full_key st k"
  "\<lambda>uri. case parse_uri uri of Inl e \<Rightarrow> None | Inr x \<Rightarrow> Some x" "\<lambda>k. (s3_bucket st, full_key st k)"
  "\<lambda>k. CHR ''/'' \<notin> set (s3_bucket st)"
  for st
  by unfold_locales (auto simp: parse_uri_def full_key_def split: if_splits)

lemma make_dirs_files:
  assumes "make_dirs qs fs = (r, fs')" and "fs p = Some n"
  shows "fs' p = Some n"
  using assms
proof (induction qs arbitrary: fs)
  case (Cons q qs)
  show ?case
  proof (cases "fs (path_str q)")
    case None
    then have "p \<noteq> path_str q" using Cons.prems by auto
    with None Cons.prems show ?thesis by (auto intro: Cons.IH)
  next
    case (Some m)
    with Cons show ?thesis by (cases m) auto
  qed
qed simp

lemma make_dirs_new:
  assumes "make_dirs qs fs = (r, fs')" and "fs' p \<noteq> fs p"
  shows "fs p = None \<and> fs' p = Some Directory \<and> p \<in> path_str ` set qs"
  using assms
proof (induction qs arbitrary: fs)
  case (Cons q qs)
  show ?case
  proof (cases "fs (path_str q)")
    case None
    with Cons.prems have m: "make_dirs qs (fs(path_str q \<mapsto> Directory)) = (r, fs')" by simp
    show ?thesis
    proof (cases "p = path_str q")
      case True
      with None make_dirs_files [OF m, of p Directory] show ?thesis by simp
    next
      case False
      with Cons.IH [OF m] Cons.prems show ?thesis by auto
    qed
  next
    case (Some n)
    with Cons show ?thesis by (cases n) auto
  qed
qed simp


lemma copy2_effect:
  assumes "\<not> is_dir fs (path_parse dst)" and "copy2 src dst fs = (r, fs')"
  shows "r = Inr () \<Longrightarrow> file_at src fs \<noteq> None \<and> fs' = fs(path_text dst \<mapsto> File (the (file_at src fs)))"
    and "r \<noteq> Inr () \<Longrightarrow> fs' = fs"
  using assms
  by (auto simp: copy2_def andthen_def read_bytes_def write_bytes_def file_at_def
      split: option.splits node.splits if_splits)

lemma path_parse_text [simp]: "path_parse (path_text p) = path_parse p"
  by (simp add: path_text_def)

lemma path_text_parse [simp]: "path_str (path_parse p) = path_text p"
  by (simp add: path_text_def)

lemma ancestors_parent:
  assumes "path_parse p = PosixPath r t" and "t \<noteq> []" and "q \<in> set (ancestors (path_parent (path_parse p)))"
  shows "\<exists>i. q = PosixPath r (take i t) \<and> i < length t"
proof -
  obtain i where i: "i < length t" "q = PosixPath r (take i (butlast t))"
    using assms by (auto simp: ancestors_def path_parent_def)
  moreover have "take i (butlast t) = take i t" using i(1) by (simp add: butlast_conv_take)
  ultimately show ?thesis by auto
qed

lemma path_str_take:
  assumes "path_parse p = PosixPath r t" and "i < length t"
  shows "path_str (PosixPath r (take i t)) \<noteq> path_text p"
proof
  assume e: "path_str (PosixPath r (take i t)) = path_text p"
  show False
  proof (cases "take i t = []")
    case True
    have t: "\<forall>x \<in> set t. x \<noteq> [] \<and> x \<noteq> ''.'' \<and> CHR ''/'' \<notin> set x" using path_tail_parse [of _ p] assms(1) by simp
    have "path_parse (path_text p) = PosixPath r t" using assms(1) by simp
    moreover have "path_tail (path_parse (path_str (PosixPath r []))) = []"
      using path_root_parse [of p] assms(1)
      by (auto simp: path_str_def path_parse_def splitroot_def split_on_def startswith_def)
    ultimately show False using e True assms(2) by auto
  next
    case False
    have "t \<noteq> []" using assms(2) by auto
    have "join ''/'' (take i t @ drop i t) = join ''/'' (take i t) @ ''/'' @ join ''/'' (drop i t)"
      using False assms(2) by (intro join_append) auto
    with e assms False \<open>t \<noteq> []\<close> show False by (simp add: path_text_def path_str_def)
  qed
qed

lemma fs_upload_effect:
  assumes "fs_free R k fs" and "fs_upload R src k fs = (Inr uri, fs')"
  shows "uri = fs_place R k \<and> file_at src fs \<noteq> None \<and> file_at (path_join R k) fs' = file_at src fs
    \<and> (\<forall>p c. path_text p \<noteq> path_text (path_join R k) \<longrightarrow> file_at p fs = Some c \<longrightarrow> file_at p fs' = Some c)"
proof -
  let ?d = "path_join R k"
  obtain r t where q: "path_parse ?d = PosixPath r t" by (cases "path_parse ?d")
  have t: "t \<noteq> []" using assms(1) q by (simp add: fs_free_def is_dir_def)
  obtain fs1 where m: "make_dirs (ancestors (path_parent (path_parse ?d))) fs = (Inr (), fs1)"
    and c: "copy2 src ?d fs1 = (Inr (), fs')" and u: "uri = file_scheme @ path_text ?d"
    using assms(2) by (auto simp: fs_upload_def Let_def andthen_def mkdir_all_def ret_def split: prod.splits sum.splits)
  have "fs1 (path_text ?d) = fs (path_text ?d)"
  proof (rule ccontr)
    assume "fs1 (path_text ?d) \<noteq> fs (path_text ?d)"
    then obtain a where a: "a \<in> set (ancestors (path_parent (path_parse ?d)))" "path_text ?d = path_str a"
      using make_dirs_new [OF m] by blast
    from ancestors_parent [OF q t a(1)] obtain i where "a = PosixPath r (take i t)" "i < length t" by blast
    with path_str_take [OF q, of i] a(2) show False by simp
  qed
  then have "\<not> is_dir fs1 (path_parse ?d)"
    using assms(1) q t by (simp add: fs_free_def is_dir_def path_text_def del: path_text_parse)
  note eff = copy2_effect(1) [OF this c refl]
  have old: "file_at p fs1 = Some c" if "file_at p fs = Some c" for p c
    using that make_dirs_files [OF m, of "path_text p"]
    by (auto simp: file_at_def split: option.splits node.splits)
  have prior: "file_at p fs = Some c" if "file_at p fs1 = Some c" for p c
    using that make_dirs_new [OF m, of "path_text p"]
    by (cases "fs1 (path_text p) = fs (path_text p)") (auto simp: file_at_def)
  have "file_at src fs1 = file_at src fs"
    by (rule option_eqI) (fact prior, fact old)
  with eff u old show ?thesis
    by (auto simp: fs_place_def file_at_def)
qed

interpretation filesystem: body_store "fs_place R" "\<lambda>uri. Some (strip_scheme uri)"
    "\<lambda>k. path_text (path_join R k)" body_key "fs_upload R" "\<lambda>uri fs. file_at (strip_scheme uri) fs" file_at "fs_free R"
  for R
proof unfold_locales
  fix src k s uri s'
  assume "fs_upload R src k s = (Inr uri, s')"
  then show "uri = fs_place R k"
    by (auto simp: fs_upload_def fs_place_def Let_def andthen_def ret_def split: prod.splits sum.splits)
next
  fix src k s uri s'
  assume "fs_free R k s" "fs_upload R src k s = (Inr uri, s')"
  from fs_upload_effect [OF this]
  show "file_at src s \<noteq> None \<and> file_at (strip_scheme uri) s' = file_at src s"
    by (auto simp: fs_place_def file_at_def)
next
  fix src k s uri s' uri' k' c
  assume "fs_free R k s" "fs_upload R src k s = (Inr uri, s')" "uri' \<noteq> uri" "uri' = fs_place R k'"
    "file_at (strip_scheme uri') s = Some c"
  with fs_upload_effect [OF this(1,2)]
  show "file_at (strip_scheme uri') s' = Some c" by (auto simp: fs_place_def)
qed

section \<open>Properties\<close>

text \<open>C40: A body uploaded to filesystem storage is found again through the URI the upload returned, with the bytes
  of the local file, and a body stored before under another key is still there, unchanged.\<close>

theorem filesystem_upload_roundtrip:
  assumes "body_key k" and "fs_free R k s" and "fs_upload R src k s = (Inr uri, s')"
    and "body_key k'" and "k' \<noteq> k" and "file_at (strip_scheme (fs_place R k')) s = Some old"
  shows "fs_download_url uri s' = Some (path_text (path_join R k))
       \<and> file_at (path_text (path_join R k)) s' = file_at src s \<and> file_at src s \<noteq> None
       \<and> file_at (strip_scheme (fs_place R k')) s' = Some old"
proof -
  have u: "uri = fs_place R k" using filesystem.returns_place [OF assms(3)] .
  have c: "file_at src s \<noteq> None \<and> file_at (strip_scheme uri) s' = file_at src s"
    by (rule filesystem.stores [OF assms(1-3)])
  moreover have "fs_place R k' \<noteq> uri"
    using u assms(5) fs_naming.place_inj [OF assms(4,1)] by auto
  then have "file_at (strip_scheme (fs_place R k')) s' = Some old"
    using filesystem.keeps [OF assms(1-3) _ assms(4)] assms(6) by simp
  ultimately show ?thesis
    using u by (auto simp: fs_download_url_def fs_place_def path_exists_def file_at_def split: option.splits)
qed

theorem filesystem_upload_roundtrip_witness:
  "\<exists>s'. fs_upload ''/data/'' ''/tmp/call_0'' ''cd/call_0'' sample_fs = (Inr ''file:///data/cd/call_0'', s')
      \<and> file_at ''/data/cd/call_0'' s' = Some ''new'' \<and> file_at ''/data/ab/call_0'' s' = Some ''old''"
proof -
  have f: "fst (fs_upload ''/data/'' ''/tmp/call_0'' ''cd/call_0'' sample_fs) = Inr ''file:///data/cd/call_0''"
    "file_at ''/tmp/call_0'' sample_fs = Some ''new''"
    "file_at (strip_scheme (fs_place ''/data/'' ''ab/call_0'')) sample_fs = Some ''old''"
    "strip_scheme (fs_place ''/data/'' ''ab/call_0'') = ''/data/ab/call_0''"
    "path_text (path_join ''/data/'' ''cd/call_0'') = ''/data/cd/call_0''"
    "body_key ''cd/call_0''" "body_key ''ab/call_0''" "fs_free ''/data/'' ''cd/call_0'' sample_fs"
    by code_simp+
  obtain s' where u: "fs_upload ''/data/'' ''/tmp/call_0'' ''cd/call_0'' sample_fs = (Inr ''file:///data/cd/call_0'', s')"
    using f(1) by (metis prod.collapse)
  from filesystem_upload_roundtrip [OF f(6,8) u f(7) _ f(3)] f show ?thesis using u by auto
qed

text \<open>The URI an S3 upload returns names exactly the bucket and the full key (prefix included) the body was put
  under, whatever slashes the key or the prefix contain: the presigned download is for that object.\<close>

theorem s3_uri_roundtrip:
  assumes "CHR ''/'' \<notin> set bucket" and "fst (s3_upload put (s3_init bucket pre) src key s) = Inr uri"
  shows "parse_uri uri = Inr (bucket, full_key (s3_init bucket pre) key)
       \<and> s3_download_url presign uri s' = presign bucket (full_key (s3_init bucket pre) key) s'"
proof -
  have "uri = s3_scheme @ bucket @ ''/'' @ full_key (s3_init bucket pre) key"
    using assms(2) by (auto simp: s3_upload_def Let_def andthen_def ret_def s3_init_def split: prod.splits sum.splits)
  with assms(1) have "parse_uri uri = Inr (bucket, full_key (s3_init bucket pre) key)"
    by (simp add: parse_uri_def)
  then show ?thesis by (simp add: s3_download_url_def)
qed

theorem s3_uri_roundtrip_witness:
  "s3_download_url (\<lambda>b k u. Inr (b @ ''?'' @ k)) ''s3://bodies/prod/a/call_0'' () = Inr ''bodies?prod/a/call_0''"
proof -
  have u: "fst (s3_upload (\<lambda>p b k u. (Inr (), u)) (s3_init ''bodies'' ''prod//'') ''/tmp/call_0'' ''a/call_0'' ())
      = Inr ''s3://bodies/prod/a/call_0''"
    "full_key (s3_init ''bodies'' ''prod//'') ''a/call_0'' = ''prod/a/call_0''"
    by code_simp+
  from s3_uri_roundtrip [OF _ u(1), of "\<lambda>b k u. Inr (b @ ''?'' @ k)" "()"] u(2) show ?thesis by simp
qed

end
