(* ===== verification/Config.thy ===== *)
theory Config
  imports Storage
begin

text \<open>
  \<open>config.py\<close>: the agent's settings. The class declares the fields, their types, defaults and bounds
  (\<open>settings\<close>, \<open>default_settings\<close>), one validator (\<open>blank_advertised_port_is_unset\<close>) and the names of the environment
  variables; \<open>load_settings\<close> is \<open>AgentSettings()\<close>, which pydantic-settings carries out as declared. The environment is
  the lookup \<open>env\<close>, and how Pydantic reads a number or a truth value from its text is the argument \<open>r\<close>. The TOML
  reader is an argument of \<open>agent_version\<close>; the values it yields are written as \<open>json\<close>.
\<close>

section \<open>The version\<close>

text \<open>\<open>tomllib.load(f)["project"]["version"]\<close>.\<close>

definition project_version :: "dict \<Rightarrow> py_exn + json" where
  "project_version doc =
     (case dict_get doc ''project'' of
        None \<Rightarrow> Inl (KeyError ''project'')
      | Some (JObj project) \<Rightarrow>
          (case dict_get project ''version'' of None \<Rightarrow> Inl (KeyError ''version'') | Some v \<Rightarrow> Inr v)
      | Some _ \<Rightarrow> Inl (TypeError ''not subscriptable by a string''))"

definition agent_version :: "(string \<Rightarrow> py_exn + dict) \<Rightarrow> string \<Rightarrow> fs \<Rightarrow> py_exn + string" where
  "agent_version toml_load pyproject fs =
     (case (case fst (read_bytes pyproject fs) of
              Inl e \<Rightarrow> Inl e
            | Inr text \<Rightarrow> (case toml_load text of Inl e \<Rightarrow> Inl e | Inr doc \<Rightarrow> project_version doc)) of
        Inr (JStr v) \<Rightarrow> Inr (if v \<noteq> [] then v else ''0.0.0'')
      | Inr _ \<Rightarrow> Inr ''0.0.0''
      | Inl e \<Rightarrow>
          (case e of
             KeyError _ \<Rightarrow> Inr ''0.0.0'' | TypeError _ \<Rightarrow> Inr ''0.0.0'' | ValueError _ \<Rightarrow> Inr ''0.0.0''
           | _ \<Rightarrow> if is_os_error e then Inr ''0.0.0'' else Inl e))"

definition default_user_agent :: "string \<Rightarrow> string" where
  "default_user_agent version = ''tracedown-agent/'' @ version"

section \<open>The settings\<close>

record settings =
  bootstrap_token :: string
  scheduler_url :: string
  bootstrap_ca_bundle :: string
  bootstrap_pin_sha256 :: string
  insecure_skip_bootstrap_tls_verify :: bool
  deployment_env :: string
  ca_cert_path :: string
  cert_path :: string
  key_path :: string
  ca_pins_path :: string
  slug_path :: string
  slug :: string
  renew_before_days :: int
  renew_check_hours :: int
  host :: string
  port :: int
  advertised_host :: string
  advertised_port :: "int option"
  log_level :: string
  max_concurrency :: int
  user_agent :: string
  egress_guard :: "bool option"
  storage_backend :: string
  storage_dir :: string
  s3_endpoint_url :: string
  s3_access_key_id :: string
  s3_secret_access_key :: string
  s3_bucket_name :: string
  s3_key_prefix :: string
  s3_region :: string

definition default_settings :: "string \<Rightarrow> settings" where
  "default_settings version =
     \<lparr>bootstrap_token = [], scheduler_url = [], bootstrap_ca_bundle = [], bootstrap_pin_sha256 = [],
      insecure_skip_bootstrap_tls_verify = False, deployment_env = ''dev'',
      ca_cert_path = ''/certs/ca.pem'', cert_path = ''/certs/agent.pem'', key_path = ''/certs/agent-key.pem'',
      ca_pins_path = ''/certs/ca-pins.txt'', slug_path = ''/certs/agent-slug.txt'', slug = [],
      renew_before_days = 30, renew_check_hours = 24, host = ''0.0.0.0'', port = 8443,
      advertised_host = [], advertised_port = None, log_level = ''info'', max_concurrency = 256,
      user_agent = default_user_agent version, egress_guard = None, storage_backend = ''filesystem'',
      storage_dir = ''/data/bodies'', s3_endpoint_url = [], s3_access_key_id = [], s3_secret_access_key = [],
      s3_bucket_name = [], s3_key_prefix = [], s3_region = ''auto''\<rparr>"

text \<open>\<open>Field(default=None, ge=1, le=65535)\<close>.\<close>

definition advertised_port_in_range :: "settings \<Rightarrow> bool" where
  "advertised_port_in_range s =
     (case advertised_port s of None \<Rightarrow> True | Some p \<Rightarrow> 1 \<le> p \<and> p \<le> 65535)"

definition blank_advertised_port_is_unset :: "json \<Rightarrow> json" where
  "blank_advertised_port_is_unset v = (case v of JStr s \<Rightarrow> if strip s = [] then JNull else v | _ \<Rightarrow> v)"

section \<open>From the environment\<close>

record env_reader =
  read_int :: "string \<Rightarrow> int option"
  read_bool :: "string \<Rightarrow> bool option"

definition env_prefix :: string where
  "env_prefix = ''PROBE_AGENT_''"

definition str_setting :: "(string \<Rightarrow> string option) \<Rightarrow> string \<Rightarrow> string \<Rightarrow> string" where
  "str_setting env name absent = (case env (env_prefix @ name) of None \<Rightarrow> absent | Some t \<Rightarrow> t)"

definition typed_setting :: "(string \<Rightarrow> 'a option) \<Rightarrow> (string \<Rightarrow> string option) \<Rightarrow> string \<Rightarrow> 'a \<Rightarrow> 'a option" where
  "typed_setting convert env name absent =
     (case env (env_prefix @ name) of None \<Rightarrow> Some absent | Some t \<Rightarrow> convert t)"

definition port_setting :: "env_reader \<Rightarrow> string \<Rightarrow> int option option" where
  "port_setting r t =
     (case blank_advertised_port_is_unset (JStr t) of
        JNull \<Rightarrow> Some None
      | _ \<Rightarrow> (case read_int r t of
                None \<Rightarrow> None
              | Some p \<Rightarrow> if 1 \<le> p \<and> p \<le> 65535 then Some (Some p) else None))"

text \<open>\<open>AliasChoices("PROBE_AGENT_DEPLOYMENT_ENV", "DEPLOYMENT_ENV")\<close>.\<close>

definition deployment_setting :: "(string \<Rightarrow> string option) \<Rightarrow> string" where
  "deployment_setting env =
     (case env ''PROBE_AGENT_DEPLOYMENT_ENV'' of
        Some d \<Rightarrow> d
      | None \<Rightarrow> (case env ''DEPLOYMENT_ENV'' of Some d \<Rightarrow> d | None \<Rightarrow> ''dev''))"

definition load_settings :: "string \<Rightarrow> env_reader \<Rightarrow> (string \<Rightarrow> string option) \<Rightarrow> py_exn + settings" where
  "load_settings version r env =
     (case (typed_setting (read_bool r) env ''INSECURE_SKIP_BOOTSTRAP_TLS_VERIFY'' False,
            typed_setting (read_int r) env ''RENEW_BEFORE_DAYS'' 30,
            typed_setting (read_int r) env ''RENEW_CHECK_HOURS'' 24,
            typed_setting (read_int r) env ''PORT'' 8443,
            typed_setting (port_setting r) env ''ADVERTISED_PORT'' None,
            typed_setting (read_int r) env ''MAX_CONCURRENCY'' 256,
            typed_setting (\<lambda>t. map_option Some (read_bool r t)) env ''EGRESS_GUARD'' None) of
        (Some insecure, Some days, Some hours, Some listen_port, Some advertised, Some concurrency, Some guard) \<Rightarrow>
          Inr \<lparr>bootstrap_token = str_setting env ''BOOTSTRAP_TOKEN'' [], scheduler_url = str_setting env ''SCHEDULER_URL'' [],
            bootstrap_ca_bundle = str_setting env ''BOOTSTRAP_CA_BUNDLE'' [],
            bootstrap_pin_sha256 = str_setting env ''BOOTSTRAP_PIN_SHA256'' [],
            insecure_skip_bootstrap_tls_verify = insecure, deployment_env = deployment_setting env,
            ca_cert_path = str_setting env ''CA_CERT_PATH'' ''/certs/ca.pem'',
            cert_path = str_setting env ''CERT_PATH'' ''/certs/agent.pem'',
            key_path = str_setting env ''KEY_PATH'' ''/certs/agent-key.pem'',
            ca_pins_path = str_setting env ''CA_PINS_PATH'' ''/certs/ca-pins.txt'',
            slug_path = str_setting env ''SLUG_PATH'' ''/certs/agent-slug.txt'', slug = str_setting env ''SLUG'' [],
            renew_before_days = days, renew_check_hours = hours, host = str_setting env ''HOST'' ''0.0.0.0'', port = listen_port,
            advertised_host = str_setting env ''ADVERTISED_HOST'' [], advertised_port = advertised,
            log_level = str_setting env ''LOG_LEVEL'' ''info'', max_concurrency = concurrency,
            user_agent = str_setting env ''USER_AGENT'' (default_user_agent version), egress_guard = guard,
            storage_backend = str_setting env ''STORAGE_BACKEND'' ''filesystem'',
            storage_dir = str_setting env ''STORAGE_DIR'' ''/data/bodies'',
            s3_endpoint_url = str_setting env ''S3_ENDPOINT_URL'' [], s3_access_key_id = str_setting env ''S3_ACCESS_KEY_ID'' [],
            s3_secret_access_key = str_setting env ''S3_SECRET_ACCESS_KEY'' [], s3_bucket_name = str_setting env ''S3_BUCKET'' [],
            s3_key_prefix = str_setting env ''S3_PREFIX'' [], s3_region = str_setting env ''S3_REGION'' ''auto''\<rparr>
      | _ \<Rightarrow> Inl (ValueError ''validation error for AgentSettings''))"

section \<open>What the settings say\<close>

definition armed_in_production :: "settings \<Rightarrow> bool" where
  "armed_in_production s = (deployment_env s = ''production'')"

definition egress_guard_enabled :: "settings \<Rightarrow> bool" where
  "egress_guard_enabled s =
     (case egress_guard s of Some b \<Rightarrow> b | None \<Rightarrow> armed_in_production s)"

definition sample_env :: "string \<Rightarrow> string option" where
  "sample_env = [''DEPLOYMENT_ENV'' \<mapsto> ''production'', ''PROBE_AGENT_ADVERTISED_PORT'' \<mapsto> '' '', ''PROBE_AGENT_STORAGE_BACKEND'' \<mapsto> ''s3'']"

definition sample_reader :: env_reader where
  "sample_reader = \<lparr>read_int = \<lambda>_. None, read_bool = \<lambda>_. None\<rparr>"

section \<open>Lemmas\<close>

text \<open>The version is always a non-empty string, unless the reader raises something it does not document.\<close>

lemma agent_version_total:
  assumes "\<And>t e. toml_load t = Inl e \<Longrightarrow> (\<exists>m. e = ValueError m)"
  shows "\<exists>v. agent_version toml_load p fs = Inr v \<and> v \<noteq> []"
proof -
  have r: "is_os_error e" if "fst (read_bytes p fs) = Inl e" for e
    using that by (auto simp: read_bytes_def split: option.splits node.splits)
  have pv: "(\<exists>m. e = KeyError m) \<or> (\<exists>m. e = TypeError m)" if "project_version d = Inl e" for d e
    using that by (auto simp: project_version_def split: option.splits json.splits)
  show ?thesis
  proof (cases "fst (read_bytes p fs)")
    case (Inl e)
    with r show ?thesis by (cases e) (auto simp: agent_version_def)
  next
    case (Inr t)
    show ?thesis
    proof (cases "toml_load t")
      case (Inl e)
      with assms obtain m where "e = ValueError m" by blast
      with Inl Inr show ?thesis by (simp add: agent_version_def)
    next
      case d: (Inr d)
      show ?thesis
      proof (cases "project_version d")
        case (Inl e)
        with pv [OF this] Inr d show ?thesis by (auto simp: agent_version_def)
      next
        case (Inr v)
        with \<open>fst (read_bytes p fs) = Inr t\<close> d show ?thesis
          by (cases v) (auto simp: agent_version_def)
      qed
    qed
  qed
qed

lemma load_settings_fields:
  assumes "load_settings version r env = Inr s"
  shows "deployment_env s = deployment_setting env"
    and "typed_setting (\<lambda>t. map_option Some (read_bool r t)) env ''EGRESS_GUARD'' None = Some (egress_guard s)"
    and "typed_setting (port_setting r) env ''ADVERTISED_PORT'' None = Some (advertised_port s)"
  using assms by (auto simp: load_settings_def split: option.splits)

lemma port_setting_range: "port_setting r t = Some (Some p) \<Longrightarrow> 1 \<le> p \<and> p \<le> 65535"
  by (auto simp: port_setting_def split: json.splits option.splits if_splits)

text \<open>A variable that is set but says what an unset one means changes nothing.\<close>

lemma other_variable:
  assumes "name \<noteq> ''ADVERTISED_PORT''"
  shows "str_setting (env(''PROBE_AGENT_ADVERTISED_PORT'' := v)) name absent = str_setting env name absent"
    and "typed_setting convert (env(''PROBE_AGENT_ADVERTISED_PORT'' := v)) name a = typed_setting convert env name a"
proof -
  have "env_prefix @ name \<noteq> ''PROBE_AGENT_ADVERTISED_PORT''" using assms by (simp add: env_prefix_def)
  then show "str_setting (env(''PROBE_AGENT_ADVERTISED_PORT'' := v)) name absent = str_setting env name absent"
    and "typed_setting convert (env(''PROBE_AGENT_ADVERTISED_PORT'' := v)) name a = typed_setting convert env name a"
    by (simp_all add: str_setting_def typed_setting_def)
qed

lemma load_settings_blank:
  assumes "strip t = []"
  shows "load_settings version r (env(''PROBE_AGENT_ADVERTISED_PORT'' \<mapsto> t))
    = load_settings version r (env(''PROBE_AGENT_ADVERTISED_PORT'' := None))"
proof -
  have "typed_setting (port_setting r) (env(''PROBE_AGENT_ADVERTISED_PORT'' \<mapsto> t)) ''ADVERTISED_PORT'' None
      = typed_setting (port_setting r) (env(''PROBE_AGENT_ADVERTISED_PORT'' := None)) ''ADVERTISED_PORT'' None"
    using assms by (simp add: typed_setting_def env_prefix_def port_setting_def blank_advertised_port_is_unset_def)
  moreover have "deployment_setting (env(''PROBE_AGENT_ADVERTISED_PORT'' := v)) = deployment_setting env" for v
    by (simp add: deployment_setting_def split: option.split)
  ultimately show ?thesis by (simp add: load_settings_def other_variable cong: option.case_cong)
qed

section \<open>Properties\<close>

text \<open>C35: What the environment makes of the settings. Left empty it gives the documented defaults; a blank advertised
  port is the same as none, and one that is set is a port number; and the egress guard is armed by an explicit
  setting or, without one, exactly when the deployment is named production, the agent's own variable before
  the platform's.\<close>

theorem settings_from_environment:
  assumes "load_settings version r env = Inr s" and "strip t = []"
  shows "load_settings version r Map.empty = Inr (default_settings version)
    \<and> load_settings version r (env(''PROBE_AGENT_ADVERTISED_PORT'' \<mapsto> t))
        = load_settings version r (env(''PROBE_AGENT_ADVERTISED_PORT'' := None))
    \<and> advertised_port_in_range s
    \<and> Some (egress_guard_enabled s) =
        (case env ''PROBE_AGENT_EGRESS_GUARD'' of
           Some t \<Rightarrow> read_bool r t
         | None \<Rightarrow> Some (case env ''PROBE_AGENT_DEPLOYMENT_ENV'' of
              Some d \<Rightarrow> d = ''production''
            | None \<Rightarrow> env ''DEPLOYMENT_ENV'' = Some ''production''))"
proof (intro conjI)
  show "load_settings version r Map.empty = Inr (default_settings version)"
    by (simp add: load_settings_def typed_setting_def str_setting_def deployment_setting_def default_settings_def)
  show "advertised_port_in_range s"
    using load_settings_fields(3) [OF assms(1)]
    by (auto simp: advertised_port_in_range_def typed_setting_def dest: port_setting_range split: option.splits)
  show "Some (egress_guard_enabled s) =
        (case env ''PROBE_AGENT_EGRESS_GUARD'' of
           Some t \<Rightarrow> read_bool r t
         | None \<Rightarrow> Some (case env ''PROBE_AGENT_DEPLOYMENT_ENV'' of
              Some d \<Rightarrow> d = ''production''
            | None \<Rightarrow> env ''DEPLOYMENT_ENV'' = Some ''production''))"
    using load_settings_fields(1,2) [OF assms(1)]
    by (cases "egress_guard s") (auto simp: egress_guard_enabled_def armed_in_production_def typed_setting_def deployment_setting_def env_prefix_def
        split: option.splits)
qed (rule load_settings_blank [OF assms(2)])

lemma sample_env_loads: "\<exists>s. load_settings ''1'' sample_reader sample_env = Inr s \<and> storage_backend s = ''s3''
    \<and> bootstrap_token s = [] \<and> max_concurrency s = 256"
proof -
  have "strip '' '' = []" by code_simp
  then have "port_setting sample_reader '' '' = Some None" by (simp add: port_setting_def blank_advertised_port_is_unset_def)
  then show ?thesis
    by (simp add: load_settings_def sample_env_def typed_setting_def str_setting_def env_prefix_def cong: option.case_cong)
qed

theorem settings_from_environment_witness:
  "\<exists>s. load_settings ''1'' sample_reader sample_env = Inr s \<and> egress_guard_enabled s \<and> advertised_port_in_range s"
proof -
  obtain s where s: "load_settings ''1'' sample_reader sample_env = Inr s" using sample_env_loads by blast
  have "strip [] = []" by code_simp
  from settings_from_environment [OF s this] s show ?thesis by (auto simp: sample_env_def)
qed

end
