(* ===== verification/Tls_Context.thy ===== *)
theory Tls_Context
  imports Config
begin

text \<open>
  \<open>mtls/ssl_context.py\<close>, and the \<open>ssl\<close> module's contexts as far as the agent configures them. A context is a
  record that the builders change attribute by attribute, in the code's order, with the standard library's own
  refusal (no \<open>CERT_NONE\<close> while hostnames are checked). Loading a file reads it from the file system; whether
  OpenSSL can parse what it finds is the record \<open>tls_lib\<close>. Messages of errors are abridged.
\<close>

section \<open>Contexts\<close>

datatype tls_side = Client_side | Server_side

datatype cert_mode = Cert_none | Cert_required

datatype anchor = System_store | Ca_file string | Certificate string

record ssl_context =
  cx_side :: tls_side
  cx_min_1_2 :: bool
  cx_check_hostname :: bool
  cx_verify_mode :: cert_mode
  cx_partial_chain :: bool
  cx_strict :: bool
  cx_anchors :: "anchor list"
  cx_identity :: "(string \<times> string) option"

text \<open>\<open>chain_ok cert key\<close>: the texts parse and belong together; \<open>cas_ok\<close>, \<open>der_ok\<close>: the anchors parse.
  \<open>strict_default\<close>: \<open>create_default_context\<close> sets X509_STRICT and PARTIAL_CHAIN (Python 3.13 on).\<close>

record tls_lib =
  chain_ok :: "string \<Rightarrow> string \<Rightarrow> bool"
  cas_ok :: "string \<Rightarrow> bool"
  der_ok :: "string \<Rightarrow> bool"
  strict_default :: bool

text \<open>\<open>ssl.SSLContext(PROTOCOL_TLS_CLIENT)\<close> and \<open>(PROTOCOL_TLS_SERVER)\<close>.\<close>

definition client_context :: ssl_context where
  "client_context =
     \<lparr>cx_side = Client_side, cx_min_1_2 = False, cx_check_hostname = True, cx_verify_mode = Cert_required,
      cx_partial_chain = False, cx_strict = False, cx_anchors = [], cx_identity = None\<rparr>"

definition server_context :: ssl_context where
  "server_context = client_context\<lparr>cx_side := Server_side, cx_check_hostname := False, cx_verify_mode := Cert_none\<rparr>"

text \<open>\<open>ctx.verify_mode = m\<close>.\<close>

definition set_verify_mode :: "cert_mode \<Rightarrow> ssl_context \<Rightarrow> py_exn + ssl_context" where
  "set_verify_mode m ctx =
     (if m = Cert_none \<and> cx_check_hostname ctx
      then Inl (ValueError ''Cannot set verify_mode to CERT_NONE when check_hostname is enabled'')
      else Inr (ctx\<lparr>cx_verify_mode := m\<rparr>))"

text \<open>\<open>ctx.load_cert_chain\<close>, \<open>ctx.load_verify_locations(cafile=\<dots>)\<close> and \<open>(cadata=\<dots>)\<close>.\<close>

definition read_file :: "string \<Rightarrow> fs \<Rightarrow> py_exn + string" where
  "read_file p fs = fst (read_bytes p fs)"

definition load_cert_chain :: "tls_lib \<Rightarrow> string \<Rightarrow> string \<Rightarrow> fs \<Rightarrow> ssl_context \<Rightarrow> py_exn + ssl_context" where
  "load_cert_chain lib cert key fs ctx =
     (case read_file cert fs of
        Inl e \<Rightarrow> Inl e
      | Inr c \<Rightarrow>
          (case read_file key fs of
             Inl e \<Rightarrow> Inl e
           | Inr k \<Rightarrow> if chain_ok lib c k then Inr (ctx\<lparr>cx_identity := Some (c, k)\<rparr>)
                       else Inl (OSError ''SSL: certificate chain'')))"

definition load_cafile :: "tls_lib \<Rightarrow> string \<Rightarrow> fs \<Rightarrow> ssl_context \<Rightarrow> py_exn + ssl_context" where
  "load_cafile lib ca fs ctx =
     (case read_file ca fs of
        Inl e \<Rightarrow> Inl e
      | Inr t \<Rightarrow> if cas_ok lib t then Inr (ctx\<lparr>cx_anchors := cx_anchors ctx @ [Ca_file t]\<rparr>)
                  else Inl (OSError ''SSL: certificate or crl''))"

definition load_cadata :: "tls_lib \<Rightarrow> string \<Rightarrow> ssl_context \<Rightarrow> py_exn + ssl_context" where
  "load_cadata lib der ctx =
     (if der_ok lib der then Inr (ctx\<lparr>cx_anchors := cx_anchors ctx @ [Certificate der]\<rparr>)
      else Inl (OSError ''SSL: not enough data''))"

text \<open>\<open>ssl.create_default_context()\<close>, with a \<open>cafile\<close> or the system's trust store.\<close>

definition create_default_context :: "tls_lib \<Rightarrow> string option \<Rightarrow> fs \<Rightarrow> py_exn + ssl_context" where
  "create_default_context lib cafile fs =
     (let ctx = client_context\<lparr>cx_partial_chain := strict_default lib, cx_strict := strict_default lib\<rparr>
      in case cafile of
           Some ca \<Rightarrow> load_cafile lib ca fs ctx
         | None \<Rightarrow> Inr (ctx\<lparr>cx_anchors := [System_store]\<rparr>))"

section \<open>The agent's own contexts\<close>

definition build_server_context :: "tls_lib \<Rightarrow> settings \<Rightarrow> fs \<Rightarrow> py_exn + ssl_context" where
  "build_server_context lib s fs =
     (let ctx = server_context\<lparr>cx_min_1_2 := True\<rparr>
      in case load_cert_chain lib (cert_path s) (key_path s) fs ctx of
           Inl e \<Rightarrow> Inl e
         | Inr ctx \<Rightarrow>
             (case load_cafile lib (ca_cert_path s) fs ctx of
                Inl e \<Rightarrow> Inl e
              | Inr ctx \<Rightarrow>
                  (case set_verify_mode Cert_required ctx of
                     Inl e \<Rightarrow> Inl e
                   | Inr ctx \<Rightarrow> Inr (ctx\<lparr>cx_check_hostname := False\<rparr>))))"

definition build_client_context :: "tls_lib \<Rightarrow> settings \<Rightarrow> fs \<Rightarrow> py_exn + ssl_context" where
  "build_client_context lib s fs =
     (let ctx = client_context\<lparr>cx_min_1_2 := True\<rparr>
      in case load_cert_chain lib (cert_path s) (key_path s) fs ctx of
           Inl e \<Rightarrow> Inl e
         | Inr ctx \<Rightarrow>
             (case load_cafile lib (ca_cert_path s) fs ctx of
                Inl e \<Rightarrow> Inl e
              | Inr ctx \<Rightarrow> set_verify_mode Cert_required (ctx\<lparr>cx_check_hostname := False\<rparr>)))"

definition certs_exist :: "settings \<Rightarrow> fs \<Rightarrow> bool" where
  "certs_exist s fs =
     (path_exists fs (ca_cert_path s) \<and> path_exists fs (cert_path s) \<and> path_exists fs (key_path s))"

section \<open>What a context proves of a peer\<close>

text \<open>
  A context authenticates its peer when it requires a certificate that chains to an anchor and either
  checks the name in it or trusts nothing but a given certificate or authority.
\<close>

definition verifying :: "ssl_context \<Rightarrow> bool" where
  "verifying ctx \<longleftrightarrow> cx_verify_mode ctx = Cert_required \<and> cx_min_1_2 ctx \<and> cx_anchors ctx \<noteq> []
     \<and> (cx_check_hostname ctx \<or> System_store \<notin> set (cx_anchors ctx))"

lemma load_cert_chain_iff:
  "load_cert_chain lib cert key fs ctx = Inr ctx' \<longleftrightarrow>
     (\<exists>c k. read_file cert fs = Inr c \<and> read_file key fs = Inr k \<and> chain_ok lib c k
        \<and> ctx' = ctx\<lparr>cx_identity := Some (c, k)\<rparr>)"
  by (auto simp: load_cert_chain_def split: sum.splits)

lemma load_cafile_iff:
  "load_cafile lib ca fs ctx = Inr ctx' \<longleftrightarrow>
     (\<exists>t. read_file ca fs = Inr t \<and> cas_ok lib t \<and> ctx' = ctx\<lparr>cx_anchors := cx_anchors ctx @ [Ca_file t]\<rparr>)"
  by (auto simp: load_cafile_def split: sum.splits)

lemmas context_defs = client_context_def server_context_def set_verify_mode_def

text \<open>Exactly which context the two builders return, and when.\<close>

lemma server_context_iff:
  "build_server_context lib s fs = Inr ctx \<longleftrightarrow>
     (\<exists>c k t. read_file (cert_path s) fs = Inr c \<and> read_file (key_path s) fs = Inr k \<and> chain_ok lib c k
        \<and> read_file (ca_cert_path s) fs = Inr t \<and> cas_ok lib t
        \<and> ctx = \<lparr>cx_side = Server_side, cx_min_1_2 = True, cx_check_hostname = False,
                 cx_verify_mode = Cert_required, cx_partial_chain = False, cx_strict = False,
                 cx_anchors = [Ca_file t], cx_identity = Some (c, k)\<rparr>)"
  by (auto simp: build_server_context_def Let_def load_cert_chain_def load_cafile_def context_defs split: sum.splits)

lemma client_context_iff:
  "build_client_context lib s fs = Inr ctx \<longleftrightarrow>
     (\<exists>c k t. read_file (cert_path s) fs = Inr c \<and> read_file (key_path s) fs = Inr k \<and> chain_ok lib c k
        \<and> read_file (ca_cert_path s) fs = Inr t \<and> cas_ok lib t
        \<and> ctx = \<lparr>cx_side = Client_side, cx_min_1_2 = True, cx_check_hostname = False,
                 cx_verify_mode = Cert_required, cx_partial_chain = False, cx_strict = False,
                 cx_anchors = [Ca_file t], cx_identity = Some (c, k)\<rparr>)"
  by (auto simp: build_client_context_def Let_def load_cert_chain_def load_cafile_def context_defs split: sum.splits)

lemma build_client_verifying: "build_client_context lib s fs = Inr ctx \<Longrightarrow> verifying ctx"
  by (auto simp: client_context_iff verifying_def)

end
