(* ===== verification/Sha256.thy ===== *)
theory Sha256
  imports PyStr "HOL-Library.Word"
begin

text \<open>
  \<open>hashlib.sha256(data).hexdigest()\<close>, which both the gateway pin and the trust-anchor pins are made of: FIPS
  180-4 on 32-bit words, a \<open>bytes\<close> value being a \<open>string\<close>. Nothing the agent guarantees depends on the
  digest's strength; a pin means what it says of the digest.
\<close>

unbundle bit_operations_syntax

definition sha_k :: "32 word list" where
  "sha_k =
     [0x428A2F98, 0x71374491, 0xB5C0FBCF, 0xE9B5DBA5, 0x3956C25B, 0x59F111F1, 0x923F82A4, 0xAB1C5ED5,
      0xD807AA98, 0x12835B01, 0x243185BE, 0x550C7DC3, 0x72BE5D74, 0x80DEB1FE, 0x9BDC06A7, 0xC19BF174,
      0xE49B69C1, 0xEFBE4786, 0x0FC19DC6, 0x240CA1CC, 0x2DE92C6F, 0x4A7484AA, 0x5CB0A9DC, 0x76F988DA,
      0x983E5152, 0xA831C66D, 0xB00327C8, 0xBF597FC7, 0xC6E00BF3, 0xD5A79147, 0x06CA6351, 0x14292967,
      0x27B70A85, 0x2E1B2138, 0x4D2C6DFC, 0x53380D13, 0x650A7354, 0x766A0ABB, 0x81C2C92E, 0x92722C85,
      0xA2BFE8A1, 0xA81A664B, 0xC24B8B70, 0xC76C51A3, 0xD192E819, 0xD6990624, 0xF40E3585, 0x106AA070,
      0x19A4C116, 0x1E376C08, 0x2748774C, 0x34B0BCB5, 0x391C0CB3, 0x4ED8AA4A, 0x5B9CCA4F, 0x682E6FF3,
      0x748F82EE, 0x78A5636F, 0x84C87814, 0x8CC70208, 0x90BEFFFA, 0xA4506CEB, 0xBEF9A3F7, 0xC67178F2]"

definition sha_h :: "32 word list" where
  "sha_h =
     [0x6A09E667, 0xBB67AE85, 0x3C6EF372, 0xA54FF53A, 0x510E527F, 0x9B05688C, 0x1F83D9AB, 0x5BE0CD19]"

definition rotr :: "nat \<Rightarrow> 32 word \<Rightarrow> 32 word" where
  "rotr n x = (drop_bit n x OR push_bit (32 - n) x)"

text \<open>The message schedule: sixteen words of the block, extended to sixty-four.\<close>

definition next_word :: "32 word list \<Rightarrow> 32 word" where
  "next_word w =
     (let n = length w; a = w ! (n - 15); b = w ! (n - 2);
          s0 = rotr 7 a XOR rotr 18 a XOR drop_bit 3 a;
          s1 = rotr 17 b XOR rotr 19 b XOR drop_bit 10 b
      in w ! (n - 16) + s0 + w ! (n - 7) + s1)"

fun schedule :: "nat \<Rightarrow> 32 word list \<Rightarrow> 32 word list" where
  "schedule 0 w = w"
| "schedule (Suc n) w = schedule n (w @ [next_word w])"

fun sha_round :: "32 word list \<Rightarrow> 32 word \<times> 32 word \<Rightarrow> 32 word list" where
  "sha_round [a, b, c, d, e, f, g, h] (k, w) =
     (let t1 = h + (rotr 6 e XOR rotr 11 e XOR rotr 25 e) + ((e AND f) XOR (NOT e AND g)) + k + w;
          t2 = (rotr 2 a XOR rotr 13 a XOR rotr 22 a) + ((a AND b) XOR (a AND c) XOR (b AND c))
      in [t1 + t2, a, b, c, d + t1, e, f, g])"
| "sha_round s _ = s"

fun block_words :: "string \<Rightarrow> 32 word list" where
  "block_words (a # b # c # d # s) =
     (push_bit 24 (of_char a) OR push_bit 16 (of_char b) OR push_bit 8 (of_char c) OR of_char d) # block_words s"
| "block_words _ = []"

definition sha_block :: "32 word list \<Rightarrow> string \<Rightarrow> 32 word list" where
  "sha_block h block = map2 (+) h (foldl sha_round h (zip sha_k (schedule 48 (block_words block))))"

text \<open>A one bit, zeros and the bit length in eight bytes, up to a multiple of sixty-four bytes.\<close>

definition sha_pad :: "string \<Rightarrow> string" where
  "sha_pad m =
     (let zeros = (119 - length m mod 64) mod 64; bits = 8 * int (length m)
      in m @ char_of (128::nat) # replicate zeros (char_of (0::nat))
           @ map (\<lambda>i. char_of (bits div 256 ^ i mod 256)) [7, 6, 5, 4, 3, 2, 1, 0 :: nat])"

fun sha_blocks :: "nat \<Rightarrow> string \<Rightarrow> string list" where
  "sha_blocks 0 s = []"
| "sha_blocks (Suc n) s = (if s = [] then [] else take 64 s # sha_blocks n (drop 64 s))"

definition hex_word :: "32 word \<Rightarrow> string" where
  "hex_word w = map (\<lambda>i. digit_char (nat (uint w div 16 ^ i mod 16))) [7, 6, 5, 4, 3, 2, 1, 0]"

definition sha256_hex :: "string \<Rightarrow> string" where
  "sha256_hex m = (let p = sha_pad m in concat (map hex_word (foldl sha_block sha_h (sha_blocks (length p) p))))"

section \<open>Lemmas\<close>

text \<open>The first round of the standard's worked example, the block of \<open>abc\<close>.\<close>

lemma sha_round_example:
  "sha_round sha_h (0x428A2F98, 0x61626380) =
     [0x5D6AEBCD, 0x6A09E667, 0xBB67AE85, 0x3C6EF372, 0xFA2A4622, 0x510E527F, 0x9B05688C, 0x1F83D9AB]"
  by code_simp

lemma length_hex_word [simp]: "length (hex_word w) = 8"
  by (simp add: hex_word_def)

text \<open>A digest is sixty-four lower-case hexadecimal digits.\<close>

lemma is_hex_digit_char: "n < 16 \<Longrightarrow> is_hex_digit (digit_char n) \<and> lower_char (digit_char n) = digit_char n"
proof -
  assume "n < 16"
  then have "n \<in> set [0..<16]" by simp
  then show ?thesis by (simp add: upt_rec is_hex_digit_def digit_char_def code_def lower_char_def) auto
qed

lemma hex_word_digits: "c \<in> set (hex_word w) \<Longrightarrow> is_hex_digit c \<and> lower_char c = c"
  by (auto simp: hex_word_def is_hex_digit_char nat_less_iff)

end
