(* ===== verification/Ip_Address.thy ===== *)
theory Ip_Address
  imports PyStr "HOL-Library.Word"
begin

text \<open>
  The part of Python's \<open>ipaddress\<close> module the egress guard rests on: parsing a textual
  address into a 32-bit or 128-bit value (\<open>IPv4Address._ip_int_from_string\<close>,
  \<open>IPv6Address._ip_int_from_string\<close> and the dispatch of \<open>ip_address\<close>), membership in a
  network, the classification properties (\<open>is_loopback\<close>, \<open>is_link_local\<close>, ...) and the
  unwrapping of IPv4-mapped IPv6 addresses. Parsing failure (\<open>ValueError\<close>) is \<open>None\<close>. The second
  half relates text to values: printing a dotted quad and parsing it is the identity,
  and network membership is an interval of the unsigned value.
\<close>

unbundle bit_operations_syntax

section \<open>Addresses and networks\<close>

type_synonym ip4 = "32 word"
type_synonym ip6 = "128 word"

datatype ip_addr = V4 ip4 | V6 ip6

text \<open>\<open>addr in net\<close>: the address masked with the netmask is the network address.\<close>

definition in_net4 :: "ip4 \<Rightarrow> ip4 \<Rightarrow> nat \<Rightarrow> bool" where
  "in_net4 ip net len \<longleftrightarrow> ip AND NOT (mask (32 - len)) = net"

definition in_net6 :: "ip6 \<Rightarrow> ip6 \<Rightarrow> nat \<Rightarrow> bool" where
  "in_net6 ip net len \<longleftrightarrow> ip AND NOT (mask (128 - len)) = net"

section \<open>Parsing\<close>

definition parse_octet :: "string \<Rightarrow> nat option" where
  "parse_octet s =
     (if s = [] then None
      else if \<not> list_all is_digit s then None
      else if 3 < length s then None
      else if s \<noteq> ''0'' \<and> hd s = CHR ''0'' then None
      else let n = digits_val 10 s in if 255 < n then None else Some n)"

definition octets_val :: "nat list \<Rightarrow> int" where
  "octets_val os = foldl (\<lambda>a x. a * 256 + int x) 0 os"

definition parse_v4 :: "string \<Rightarrow> ip4 option" where
  "parse_v4 s =
     (if CHR ''/'' \<in> set s then None
      else if s = [] then None
      else
        let os = split_on CHR ''.'' s
        in if length os \<noteq> 4 then None
           else (case those (map parse_octet os) of
                   None \<Rightarrow> None
                 | Some ns \<Rightarrow> Some (word_of_int (octets_val ns))))"

definition parse_hextet :: "string \<Rightarrow> nat option" where
  "parse_hextet s =
     (if \<not> list_all is_hex_digit s then None
      else if 4 < length s then None
      else if s = [] then None
      else Some (digits_val 16 s))"

definition hextets_val :: "nat list \<Rightarrow> int" where
  "hextets_val hs = foldl (\<lambda>a x. a * 65536 + int x) 0 hs"

text \<open>An IPv4-style suffix in the last part becomes two hextets.\<close>

definition expand_v4_suffix :: "string list \<Rightarrow> string list option" where
  "expand_v4_suffix parts =
     (if CHR ''.'' \<in> set (last parts)
      then (case parse_v4 (last parts) of
              None \<Rightarrow> None
            | Some w \<Rightarrow> Some (butlast parts @ [nat_str 16 (nat (uint w div 65536)), nat_str 16 (nat (uint w mod 65536))]))
      else Some parts)"

text \<open>
  How many leading parts, skipped hextets and trailing parts there are:
  \<open>parts_hi\<close>, \<open>parts_skipped\<close>, \<open>parts_lo\<close> of the source.
\<close>

definition v6_layout :: "string list \<Rightarrow> (nat \<times> nat \<times> nat) option" where
  "v6_layout parts =
     (let n = length parts in
      case filter (\<lambda>i. parts ! i = []) [1 ..< n - 1] of
        [] \<Rightarrow>
          if n \<noteq> 8 \<or> parts ! 0 = [] \<or> parts ! (n - 1) = [] then None else Some (n, 0, 0)
      | [i] \<Rightarrow>
          (let hi = i; lo = n - i - 1;
               hi' = (if parts ! 0 = [] then hi - 1 else hi);
               lo' = (if parts ! (n - 1) = [] then lo - 1 else lo)
           in if parts ! 0 = [] \<and> 0 < hi' then None
              else if parts ! (n - 1) = [] \<and> 0 < lo' then None
              else if 8 < hi' + lo' + 1 then None
              else Some (hi', 8 - (hi' + lo'), lo'))
      | _ \<Rightarrow> None)"

definition parse_v6 :: "string \<Rightarrow> ip6 option" where
  "parse_v6 s =
     (if CHR ''/'' \<in> set s then None
      else if s = [] then None
      else
        let parts0 = split_on CHR '':'' s
        in if length parts0 < 3 then None
           else (case expand_v4_suffix parts0 of
             None \<Rightarrow> None
           | Some parts \<Rightarrow>
               (if 9 < length parts then None
                else (case v6_layout parts of
                  None \<Rightarrow> None
                | Some (hi, skipped, lo) \<Rightarrow>
                   (case those (map parse_hextet (take hi parts)) of
                      None \<Rightarrow> None
                    | Some his \<Rightarrow>
                        (case those (map parse_hextet (drop (length parts - lo) parts)) of
                           None \<Rightarrow> None
                         | Some los \<Rightarrow>
                             Some (word_of_int (hextets_val (his @ replicate skipped 0 @ los)))))))))"

text \<open>\<open>ipaddress.ip_address\<close>: IPv4 first, then IPv6, else \<open>ValueError\<close>.\<close>

definition ip_address :: "string \<Rightarrow> ip_addr option" where
  "ip_address s =
     (case parse_v4 s of
        Some w \<Rightarrow> Some (V4 w)
      | None \<Rightarrow> map_option V6 (parse_v6 s))"

text \<open>\<open>addr.ipv4_mapped\<close>: set for \<open>::ffff:a.b.c.d\<close>, absent on IPv4 addresses.\<close>

fun ipv4_mapped :: "ip_addr \<Rightarrow> ip4 option" where
  "ipv4_mapped (V4 _) = None"
| "ipv4_mapped (V6 w) =
     (if drop_bit 32 w = 0xFFFF then Some (ucast w) else None)"

section \<open>Classification\<close>

fun is_loopback :: "ip_addr \<Rightarrow> bool" where
  "is_loopback (V4 w) = in_net4 w 0x7F000000 8"
| "is_loopback (V6 w) = (w = 1)"

fun is_link_local :: "ip_addr \<Rightarrow> bool" where
  "is_link_local (V4 w) = in_net4 w 0xA9FE0000 16"
| "is_link_local (V6 w) = in_net6 w 0xFE800000000000000000000000000000 10"

fun is_multicast :: "ip_addr \<Rightarrow> bool" where
  "is_multicast (V4 w) = in_net4 w 0xE0000000 4"
| "is_multicast (V6 w) = in_net6 w 0xFF000000000000000000000000000000 8"

fun is_unspecified :: "ip_addr \<Rightarrow> bool" where
  "is_unspecified (V4 w) = (w = 0)"
| "is_unspecified (V6 w) = (w = 0)"

definition reserved_networks6 :: "(ip6 \<times> nat) list" where
  "reserved_networks6 =
     [(0, 8),
      (0x01000000000000000000000000000000, 8),
      (0x02000000000000000000000000000000, 7),
      (0x04000000000000000000000000000000, 6),
      (0x08000000000000000000000000000000, 5),
      (0x10000000000000000000000000000000, 4),
      (0x40000000000000000000000000000000, 3),
      (0x60000000000000000000000000000000, 3),
      (0x80000000000000000000000000000000, 3),
      (0xA0000000000000000000000000000000, 3),
      (0xC0000000000000000000000000000000, 3),
      (0xE0000000000000000000000000000000, 4),
      (0xF0000000000000000000000000000000, 5),
      (0xF8000000000000000000000000000000, 6),
      (0xFE000000000000000000000000000000, 9)]"

fun is_reserved :: "ip_addr \<Rightarrow> bool" where
  "is_reserved (V4 w) = in_net4 w 0xF0000000 4"
| "is_reserved (V6 w) = list_ex (\<lambda>(net, len). in_net6 w net len) reserved_networks6"

section \<open>Printing\<close>

definition v4_str :: "ip4 \<Rightarrow> string" where
  "v4_str w =
     (let n = uint w in
      join ''.'' [nat_str 10 (nat (n div 16777216)), nat_str 10 (nat (n div 65536 mod 256)),
                  nat_str 10 (nat (n div 256 mod 256)), nat_str 10 (nat (n mod 256))])"

text \<open>The address \<open>::ffff:a.b.c.d\<close>.\<close>

definition map_v4 :: "ip4 \<Rightarrow> ip6" where
  "map_v4 w = word_of_int (0xFFFF00000000 + uint w)"

section \<open>Networks are intervals; printing and parsing are inverse\<close>


lemma uint_and_not_mask:
  fixes ip :: "'a::len word"
  shows "uint (ip AND NOT (mask k)) = uint ip div 2 ^ k * 2 ^ k"
proof -
  have "uint (ip AND NOT (mask k)) = push_bit k (drop_bit k (uint ip))"
    by (rule bit_eqI) (auto simp: bit_simps dest: bit_imp_le_length)
  then show ?thesis by (simp add: push_bit_eq_mult drop_bit_eq_div)
qed

lemma div_eq_interval: "0 < d \<Longrightarrow> x div d = m \<longleftrightarrow> m * d \<le> x \<and> x < m * d + d" for x d m :: int
proof (intro iffI conjI)
  assume d: "0 < d" and m: "x div d = m"
  have "x = m * d + x mod d" using m by (metis div_mult_mod_eq)
  moreover have "0 \<le> x mod d" "x mod d < d" using d by simp_all
  ultimately show "m * d \<le> x" and "x < m * d + d" by linarith+
next
  assume "0 < d" and "m * d \<le> x \<and> x < m * d + d"
  then show "x div d = m" by (intro int_div_pos_eq [of x d m "x - m * d"]) auto
qed

lemma in_net_interval:
  fixes ip net :: "'a::len word"
  assumes "uint net mod 2 ^ k = 0"
  shows "ip AND NOT (mask k) = net \<longleftrightarrow> uint net \<le> uint ip \<and> uint ip < uint net + 2 ^ k"
proof -
  have "ip AND NOT (mask k) = net \<longleftrightarrow> uint ip div 2 ^ k * 2 ^ k = uint net"
    by (simp add: word_uint_eq_iff uint_and_not_mask)
  also have "\<dots> \<longleftrightarrow> uint ip div 2 ^ k = uint net div 2 ^ k"
    using assms by (metis div_mult_mod_eq add.right_neutral nonzero_mult_div_cancel_right power_not_zero zero_neq_numeral)
  also have "\<dots> \<longleftrightarrow> uint net \<le> uint ip \<and> uint ip < uint net + 2 ^ k"
  proof -
    obtain m where m: "uint net = m * 2 ^ k" using assms by (metis mod_0_imp_dvd dvdE mult.commute)
    have "uint ip div 2 ^ k = m \<longleftrightarrow> m * 2 ^ k \<le> uint ip \<and> uint ip < m * 2 ^ k + 2 ^ k"
      by (rule div_eq_interval) simp
    then show ?thesis by (simp add: m algebra_simps)
  qed
  finally show ?thesis .
qed

lemma is_digit_digit_char [simp]: "n < 10 \<Longrightarrow> is_digit (digit_char n)"
  by (simp add: is_digit_def digit_char_def)

lemma digit_char_zero [simp]:
  assumes "n < 10"
  shows "digit_char n = CHR ''0'' \<longleftrightarrow> n = 0"
proof
  assume "digit_char n = CHR ''0''"
  then have "digit_val (digit_char n) = digit_val CHR ''0''" by simp
  moreover have "digit_val (digit_char n) = n" using assms by simp
  moreover have "digit_val CHR ''0'' = 0" by (simp add: digit_val_def code_def)
  ultimately show "n = 0" by simp
qed (simp add: digit_char_def char_of_eq_iff)

lemma nat_str_octet:
  "n < 10 \<Longrightarrow> nat_str 10 n = [digit_char n]"
  "10 \<le> n \<Longrightarrow> n < 100 \<Longrightarrow> nat_str 10 n = [digit_char (n div 10), digit_char (n mod 10)]"
  "100 \<le> n \<Longrightarrow> n < 1000 \<Longrightarrow>
     nat_str 10 n = [digit_char (n div 100), digit_char (n div 10 mod 10), digit_char (n mod 10)]"
proof -
  show "n < 10 \<Longrightarrow> nat_str 10 n = [digit_char n]"
    by (simp add: nat_str.simps [of 10 n])
  show "10 \<le> n \<Longrightarrow> n < 100 \<Longrightarrow> nat_str 10 n = [digit_char (n div 10), digit_char (n mod 10)]"
    by (simp add: nat_str.simps [of 10 n] nat_str.simps [of 10 "n div 10"])
  assume n: "100 \<le> n" "n < 1000"
  then have "\<not> n div 10 < 10" "n div 10 div 10 = n div 100" "n div 100 < 10"
    by (simp_all add: div_mult2_eq [symmetric])
  with n show "nat_str 10 n = [digit_char (n div 100), digit_char (n div 10 mod 10), digit_char (n mod 10)]"
    by (simp add: nat_str.simps [of 10 n] nat_str.simps [of 10 "n div 10"] nat_str.simps [of 10 "n div 100"])
qed

lemma octet_not_zero_str: "n \<noteq> 0 \<Longrightarrow> n \<le> 255 \<Longrightarrow> hd (nat_str 10 n) \<noteq> CHR ''0''"
  by (cases "n < 10"; cases "n < 100") (auto simp: nat_str_octet)

lemma parse_octet_nat_str [simp]:
  assumes "n \<le> 255"
  shows "parse_octet (nat_str 10 n) = Some n"
proof -
  have "list_all is_digit (nat_str 10 n)" by (auto simp: list_all_iff dest: nat_str_10_digit)
  moreover have "length (nat_str 10 n) \<le> 3"
    using assms by (cases "n < 10"; cases "n < 100") (auto simp: nat_str_octet)
  moreover have "nat_str 10 n = ''0'' \<or> hd (nat_str 10 n) \<noteq> CHR ''0''"
    using assms by (cases "n = 0") (auto simp: octet_not_zero_str nat_str_octet digit_char_def)
  ultimately show ?thesis
    using assms by (auto simp: parse_octet_def digits_val_nat_str Let_def)
qed

lemma nat_str_10_char [simp]:
  "CHR ''.'' \<notin> set (nat_str 10 n)" "CHR '':'' \<notin> set (nat_str 10 n)"
  "CHR ''/'' \<notin> set (nat_str 10 n)" "CHR ''%'' \<notin> set (nat_str 10 n)"
  by (auto dest!: nat_str_10_digit is_digit_lit)

lemma octets_val_4: "octets_val [a, b, c, d] = ((int a * 256 + int b) * 256 + int c) * 256 + int d"
  by (simp add: octets_val_def)

lemma v4_parts: 
  fixes n :: int
  shows "((n div 16777216 * 256 + n div 65536 mod 256) * 256 + n div 256 mod 256) * 256 + n mod 256 = n"
proof -
  have "n div 65536 = n div 256 div 256" "n div 16777216 = n div 256 div 256 div 256"
    by (simp_all add: div_mult2_eq [symmetric])
  then show ?thesis by (simp add: mult.commute)
qed


lemma v4_str_chars: "CHR ''/'' \<notin> set (v4_str w)" "CHR '':'' \<notin> set (v4_str w)" "CHR ''%'' \<notin> set (v4_str w)"
  "v4_str w \<noteq> []" "CHR ''.'' \<in> set (v4_str w)"
  by (simp_all add: v4_str_def Let_def)

lemma split_v4_str: "split_on CHR ''.'' (v4_str w) =
    [nat_str 10 (nat (uint w div 16777216)), nat_str 10 (nat (uint w div 65536 mod 256)),
     nat_str 10 (nat (uint w div 256 mod 256)), nat_str 10 (nat (uint w mod 256))]"
  unfolding v4_str_def Let_def by (rule split_on_join) auto

lemma nat_mod_256 [simp]: "nat (x mod 256) \<le> 255"
  by (simp add: nat_le_iff)

lemma parse_v4_v4_str [simp]: "parse_v4 (v4_str w) = Some w"
proof -
  have u: "0 \<le> uint w" "uint w < 2 ^ 32" using uint_lt2p [of w] by simp_all
  then have "uint w div 16777216 < 256" by simp
  then have "nat (uint w div 16777216) \<le> 255" by (simp add: nat_le_iff)
  then have "those (map parse_octet (split_on CHR ''.'' (v4_str w))) =
      Some [nat (uint w div 16777216), nat (uint w div 65536 mod 256),
            nat (uint w div 256 mod 256), nat (uint w mod 256)]"
    by (simp add: split_v4_str)
  moreover have nonneg: "0 \<le> uint w div 16777216" "0 \<le> uint w div 65536 mod 256"
      "0 \<le> uint w div 256 mod 256" "0 \<le> uint w mod 256"
    by (simp_all add: pos_imp_zdiv_nonneg_iff)
  moreover have "octets_val [nat (uint w div 16777216), nat (uint w div 65536 mod 256),
            nat (uint w div 256 mod 256), nat (uint w mod 256)] = uint w"
    unfolding octets_val_4 nat_0_le [OF nonneg(1)] nat_0_le [OF nonneg(2)] nat_0_le [OF nonneg(3)]
      nat_0_le [OF nonneg(4)] by (rule v4_parts)
  moreover have "length (split_on CHR ''.'' (v4_str w)) = 4" by (simp add: split_v4_str)
  ultimately show ?thesis by (simp add: parse_v4_def v4_str_chars Let_def del: split_on_none)
qed

lemma parse_hextet_nat_str [simp]:
  assumes "n < 65536"
  shows "parse_hextet (nat_str 16 n) = Some n"
proof -
  have "length (nat_str 16 n) \<le> 4"
    using assms by (intro length_nat_str) simp_all
  moreover have "list_all is_hex_digit (nat_str 16 n)"
    by (auto simp: list_all_iff dest: nat_str_16_digit)
  ultimately show ?thesis by (simp add: parse_hextet_def digits_val_nat_str)
qed

lemma split_mapped: "split_on CHR '':'' (''::ffff:'' @ v4_str w) = [[], [], ''ffff'', v4_str w]"
proof -
  have "split_on CHR '':'' (join '':'' [[], [], ''ffff'', v4_str w]) = [[], [], ''ffff'', v4_str w]"
    by (rule split_on_join) (auto simp: v4_str_chars)
  then show ?thesis by simp
qed

lemma upt_1_4: "[1 ..< 4] = [1, 2, 3 :: nat]"
  by code_simp

lemma mapped_layout: "v6_layout [[], [], ''ffff'', nat_str 16 a, nat_str 16 b] = Some (0, 5, 3)"
  by (simp add: v6_layout_def Let_def upt_1_4)

lemma uint_map_v4: "uint (map_v4 w) = 0xFFFF00000000 + uint w"
proof -
  have "0 \<le> uint w" "uint w < 2 ^ 32" using uint_lt2p [of w] by simp_all
  then show ?thesis
    unfolding map_v4_def uint_word_of_int by (intro mod_pos_pos_trivial) simp_all
qed

lemma hextets_val_mapped:
  "hextets_val (replicate 5 0 @ [h, a, b]) = (int h * 65536 + int a) * 65536 + int b"
  by (simp add: hextets_val_def numeral_eq_Suc)

lemma parse_hextet_ffff: "parse_hextet ''ffff'' = Some 65535"
  by (simp add: parse_hextet_def is_hex_digit_def digits_val_def digit_val_def code_def)

lemma parse_v6_mapped: "parse_v6 (''::ffff:'' @ v4_str w) = Some (map_v4 w)"
proof -
  let ?a = "nat (uint w div 65536)" and ?b = "nat (uint w mod 65536)"
  have u: "0 \<le> uint w" "uint w < 2 ^ 32" using uint_lt2p [of w] by simp_all
  then have a: "?a < 65536" "?b < 65536" by (simp_all add: nat_less_iff)
  have "int ?a = uint w div 65536" "int ?b = uint w mod 65536"
    using u by (simp_all add: pos_imp_zdiv_nonneg_iff)
  then have v: "hextets_val (replicate 5 0 @ [65535, ?a, ?b]) = 0xFFFF00000000 + uint w"
    unfolding hextets_val_mapped by (simp add: algebra_simps)
  have e: "expand_v4_suffix [[], [], ''ffff'', v4_str w] = Some [[], [], ''ffff'', nat_str 16 ?a, nat_str 16 ?b]"
    by (simp add: expand_v4_suffix_def v4_str_chars)
  have c: "CHR ''/'' \<notin> set (''::ffff:'' @ v4_str w)" by (simp add: v4_str_chars)
  show ?thesis
    using a c v
    by (simp add: parse_v6_def split_mapped [simplified] e mapped_layout parse_hextet_ffff map_v4_def Let_def)
qed

lemma split_on_covers: "x \<in> set s \<Longrightarrow> x \<noteq> c \<Longrightarrow> \<exists>w \<in> set (split_on c s). x \<in> set w"
proof (induction s)
  case (Cons y s)
  obtain w ws where "split_on c s = w # ws" by (metis split_on_nonempty list.exhaust)
  with Cons show ?case by (auto simp: split_on_def)
qed simp

lemma those_Some_all: "those xs = Some ys \<Longrightarrow> x \<in> set xs \<Longrightarrow> x \<noteq> None"
  by (induction xs arbitrary: ys) (auto split: option.splits)

lemma parse_octet_digits: "parse_octet s = Some n \<Longrightarrow> c \<in> set s \<Longrightarrow> is_digit c"
  by (auto simp: parse_octet_def list_all_iff split: if_splits)

lemma parse_v4_chars:
  assumes "parse_v4 s = Some w" "c \<in> set s" "c \<noteq> CHR ''.''"
  shows "is_digit c"
proof -
  obtain ns where ns: "those (map parse_octet (split_on CHR ''.'' s)) = Some ns"
    using assms(1) by (auto simp: parse_v4_def Let_def split: if_splits option.splits)
  obtain p where p: "p \<in> set (split_on CHR ''.'' s)" "c \<in> set p"
    using split_on_covers assms(2,3) by blast
  then have "parse_octet p \<noteq> None"
    using those_Some_all [OF ns] by simp
  with p(2) show ?thesis using parse_octet_digits by blast
qed

lemma parse_v4_colon: "CHR '':'' \<in> set s \<Longrightarrow> parse_v4 s = None"
  using parse_v4_chars [of s _ "CHR '':''"] is_digit_lit by fastforce

lemma ip_address_v4_str: "ip_address (v4_str w) = Some (V4 w)"
  by (simp add: ip_address_def)

lemma ip_address_mapped: "ip_address (''::ffff:'' @ v4_str w) = Some (V6 (map_v4 w))"
  using parse_v6_mapped [of w] by (simp add: ip_address_def parse_v4_colon)

lemma mapped_unwraps: "ipv4_mapped (V6 (map_v4 w)) = Some w"
proof -
  have u: "0 \<le> uint w" "uint w < 2 ^ 32" using uint_lt2p [of w] by simp_all
  have "uint (drop_bit 32 (map_v4 w)) = 0xFFFF"
    using u by (simp add: drop_bit_eq_div uint_div uint_map_v4 div_eq_interval)
  then have d: "drop_bit 32 (map_v4 w) = 0xFFFF" by (simp add: word_uint_eq_iff)
  have "(281470681743360 + uint w) mod 4294967296 = uint w"
  proof -
    have "(uint w + 65535 * 4294967296) mod 4294967296 = uint w mod 4294967296"
      by (rule mod_mult_self1)
    with u show ?thesis by (simp add: add.commute)
  qed
  then have "uint (ucast (map_v4 w) :: ip4) = uint w"
    by (simp add: uint_map_v4 unsigned_ucast_eq take_bit_eq_mod)
  then have "(ucast (map_v4 w) :: ip4) = w" by (simp add: word_uint_eq_iff)
  with d show ?thesis by simp
qed

end
