(* ===== verification/Gateway_Trust.thy ===== *)
theory Gateway_Trust
  imports Tls_Context Sha256 Ip_Address
begin

text \<open>
  \<open>mtls/bootstrap_trust.py\<close>: how the gateway is authenticated for the one request that carries the bootstrap
  token. The world records what the agent sends: every pre-connect handshake and every request, with the
  \<open>verify\<close> argument it was sent under. The network is the record \<open>gateway\<close>, what a peer presents and answers as a
  function of the call and of everything before it. Messages of errors are abridged.
\<close>

section \<open>The network\<close>

datatype verify = Unverified | Verified_by ssl_context

record post =
  po_verify :: verify
  po_url :: string
  po_json :: dict

record net_world =
  nw_files :: fs
  nw_preconnects :: "(ssl_context \<times> string \<times> int) list"
  nw_posts :: "post list"

text \<open>
  An exception object: what it is and the two links Python keeps. \<open>Connect_failure\<close> is an \<open>httpx.ConnectError\<close>
  with the graph of exceptions it was raised from; \<open>Failure\<close> any other error.
\<close>

record exn_node =
  en_cert_rejection :: bool
  en_cause :: "nat option"
  en_context :: "nat option"

datatype post_failure = Connect_failure string "exn_node list" nat | Failure py_exn

record gateway =
  gw_lib :: tls_lib
  gw_fqdn :: string
  gw_present :: "ssl_context \<Rightarrow> string \<Rightarrow> int \<Rightarrow> net_world \<Rightarrow> py_exn + string option"
  gw_answer :: "post \<Rightarrow> net_world \<Rightarrow> post_failure + json"

section \<open>URLs\<close>

text \<open>\<open>urllib.parse.urlsplit\<close>: leading blanks and control characters go, tabs and line ends go everywhere.\<close>

definition url_clean :: "string \<Rightarrow> string" where
  "url_clean url =
     filter (\<lambda>c. code c \<noteq> 9 \<and> code c \<noteq> 10 \<and> code c \<noteq> 13) (lstrip_by (\<lambda>c. code c \<le> 32) url)"

definition is_ascii_alpha :: "char \<Rightarrow> bool" where
  "is_ascii_alpha c = (let n = code c in 65 \<le> n \<and> n \<le> 90 \<or> 97 \<le> n \<and> n \<le> 122)"

definition scheme_char :: "char \<Rightarrow> bool" where
  "scheme_char c = (is_ascii_alpha c \<or> is_digit c \<or> c \<in> {CHR ''+'', CHR ''-'', CHR ''.''})"

definition url_scheme :: "string \<Rightarrow> string \<times> string" where
  "url_scheme url =
     (let (pre, found, rest) = partition_at CHR '':'' url
      in if found \<and> pre \<noteq> [] \<and> is_ascii_alpha (hd pre) \<and> list_all scheme_char pre
         then (lower pre, rest) else ([], url))"

text \<open>The host in square brackets must be an IPv6 address, a scope included, or an IPvFuture literal.\<close>

definition bracketed_host_ok :: "string \<Rightarrow> bool" where
  "bracketed_host_ok h =
     (if startswith h ''v'' then
        (let (hex, found, rest) = partition_at CHR ''.'' (drop 1 h)
         in found \<and> hex \<noteq> [] \<and> list_all is_hex_digit hex \<and> rest \<noteq> [])
      else
        (let (addr, found, scope) = partition_at CHR ''%'' h
         in parse_v6 addr \<noteq> None \<and> (found \<longrightarrow> scope \<noteq> [] \<and> CHR ''%'' \<notin> set scope)))"

definition url_netloc :: "string \<Rightarrow> py_exn + string" where
  "url_netloc rest =
     (if \<not> startswith rest ''//'' then Inr []
      else
        let netloc = takeWhile (\<lambda>c. c \<notin> {CHR ''/'', CHR ''?'', CHR ''#''}) (drop 2 rest);
            opens = CHR ''['' \<in> set netloc; closes = CHR '']'' \<in> set netloc
        in if opens \<noteq> closes then Inl (ValueError ''Invalid IPv6 URL'')
           else if opens \<and> \<not> bracketed_host_ok
                     (fst (partition_at CHR '']'' (snd (snd (partition_at CHR ''['' netloc)))))
           then Inl (ValueError ''bracketed host is not an IPv6 address'')
           else Inr netloc)"

definition url_split :: "string \<Rightarrow> py_exn + (string \<times> string)" where
  "url_split url =
     (let (scheme, rest) = url_scheme (url_clean url)
      in case url_netloc rest of Inl e \<Rightarrow> Inl e | Inr netloc \<Rightarrow> Inr (scheme, netloc))"

text \<open>\<open>SplitResult.hostname\<close> and \<open>.port\<close>.\<close>

definition host_info :: "string \<Rightarrow> string \<times> string option" where
  "host_info netloc =
     (let info = after_last CHR ''@'' netloc;
          (_, have_open, bracketed) = partition_at CHR ''['' info
      in if have_open then
           (let (h, _, after) = partition_at CHR '']'' bracketed;
                (_, have_port, p) = partition_at CHR '':'' after
            in (h, if have_port then Some p else None))
         else
           (let (h, have_port, p) = partition_at CHR '':'' info
            in (h, if have_port then Some p else None)))"

definition url_hostname :: "string \<Rightarrow> string" where
  "url_hostname netloc =
     (let (h, found, zone) = partition_at CHR ''%'' (fst (host_info netloc))
      in lower h @ (if found then CHR ''%'' # zone else []))"

definition url_port :: "string \<Rightarrow> py_exn + int option" where
  "url_port netloc =
     (case snd (host_info netloc) of
        None \<Rightarrow> Inr None
      | Some p \<Rightarrow>
          if p = [] then Inr None
          else if \<not> list_all is_digit p then Inl (ValueError ''Port could not be cast to integer value'')
          else (let n = digits_val 10 p
                in if n \<le> 65535 then Inr (Some (int n)) else Inl (ValueError ''Port out of range 0-65535'')))"

section \<open>The configuration\<close>

definition is_production :: "settings \<Rightarrow> bool" where
  "is_production s = (lower (strip (deployment_env s)) = ''production'')"

definition fingerprint_of :: "string \<Rightarrow> string" where
  "fingerprint_of chunk =
     filter (\<lambda>c. c \<noteq> CHR '':'') (removeprefix (lower (strip chunk)) ''sha256:'')"

definition hex_alphabet :: string where
  "hex_alphabet = ''0123456789abcdef''"

definition is_fingerprint :: "string \<Rightarrow> bool" where
  "is_fingerprint d = (length d = 64 \<and> list_all (\<lambda>c. c \<in> set hex_alphabet) d)"

fun collect_pins :: "string list \<Rightarrow> string set \<Rightarrow> py_exn + string set" where
  "collect_pins [] pins = Inr pins"
| "collect_pins (chunk # chunks) pins =
     (let candidate = fingerprint_of chunk
      in if candidate = [] then collect_pins chunks pins
         else if \<not> is_fingerprint candidate then Inl (RuntimeError (''not a SHA-256 fingerprint: '' @ chunk))
         else collect_pins chunks (insert candidate pins))"

definition pin_chunks :: "string \<Rightarrow> string list" where
  "pin_chunks raw = split_ws (map (\<lambda>c. if c = CHR '','' then CHR '' '' else c) raw)"

definition normalize_fingerprints :: "string \<Rightarrow> py_exn + string set" where
  "normalize_fingerprints raw =
     (case collect_pins (pin_chunks raw) {} of
        Inl e \<Rightarrow> Inl e
      | Inr pins \<Rightarrow> if pins = {} then Inl (RuntimeError ''no fingerprint'') else Inr pins)"

text \<open>\<open>parts.port or 443\<close>: port zero counts as none.\<close>

definition host_port :: "string \<Rightarrow> py_exn + (string \<times> int)" where
  "host_port url =
     (case url_split url of
        Inl e \<Rightarrow> Inl e
      | Inr (_, netloc) \<Rightarrow>
          if url_hostname netloc = [] then Inl (RuntimeError (''not a usable URL: '' @ url))
          else (case url_port netloc of
                  Inl e \<Rightarrow> Inl e
                | Inr (Some p) \<Rightarrow> Inr (url_hostname netloc, if p = 0 then 443 else p)
                | Inr None \<Rightarrow> Inr (url_hostname netloc, 443)))"

section \<open>Contexts for the gateway\<close>

definition fetch_peer_certificate :: "gateway \<Rightarrow> string \<Rightarrow> int \<Rightarrow> (net_world, string) proc" where
  "fetch_peer_certificate g h p w =
     (case set_verify_mode Cert_none (client_context\<lparr>cx_min_1_2 := True, cx_check_hostname := False\<rparr>) of
        Inl e \<Rightarrow> (Inl e, w)
      | Inr ctx \<Rightarrow>
          (let w' = w\<lparr>nw_preconnects := nw_preconnects w @ [(ctx, h, p)]\<rparr>
           in case gw_present g ctx h p w of
                Inl e \<Rightarrow> (Inl e, w')
              | Inr None \<Rightarrow> (Inl (RuntimeError ''presented no TLS certificate''), w')
              | Inr (Some der) \<Rightarrow>
                  if der = [] then (Inl (RuntimeError ''presented no TLS certificate''), w') else (Inr der, w')))"

definition pinned_context :: "tls_lib \<Rightarrow> string \<Rightarrow> py_exn + ssl_context" where
  "pinned_context lib der =
     (case set_verify_mode Cert_required (client_context\<lparr>cx_min_1_2 := True, cx_check_hostname := False\<rparr>) of
        Inl e \<Rightarrow> Inl e
      | Inr ctx \<Rightarrow> load_cadata lib der (ctx\<lparr>cx_partial_chain := True\<rparr>))"

definition is_file :: "fs \<Rightarrow> string \<Rightarrow> bool" where
  "is_file fs p = (case fs (path_text p) of Some (File _) \<Rightarrow> True | _ \<Rightarrow> False)"

definition ca_bundle_context :: "tls_lib \<Rightarrow> string \<Rightarrow> fs \<Rightarrow> py_exn + ssl_context" where
  "ca_bundle_context lib bundle fs =
     (if \<not> is_file fs bundle then Inl (RuntimeError ''CA bundle does not exist'')
      else (case create_default_context lib (Some (path_text bundle)) fs of
              Inl e \<Rightarrow> Inl e
            | Inr ctx \<Rightarrow> Inr (ctx\<lparr>cx_min_1_2 := True, cx_strict := False\<rparr>)))"

definition system_trust_context :: "tls_lib \<Rightarrow> fs \<Rightarrow> py_exn + ssl_context" where
  "system_trust_context lib fs =
     (case create_default_context lib None fs of
        Inl e \<Rightarrow> Inl e
      | Inr ctx \<Rightarrow> Inr (ctx\<lparr>cx_min_1_2 := True\<rparr>))"

definition pin_and_bind :: "tls_lib \<Rightarrow> string set \<Rightarrow> string \<Rightarrow> py_exn + ssl_context" where
  "pin_and_bind lib pins der =
     (if sha256_hex der \<notin> pins then Inl (RuntimeError ''certificate fingerprint is not pinned'')
      else pinned_context lib der)"

definition gateway_trust_context :: "gateway \<Rightarrow> settings \<Rightarrow> (net_world, ssl_context) proc" where
  "gateway_trust_context g s w =
     (if bootstrap_pin_sha256 s \<noteq> [] then
        (case normalize_fingerprints (bootstrap_pin_sha256 s) of
           Inl e \<Rightarrow> (Inl e, w)
         | Inr pins \<Rightarrow>
             (case host_port (scheduler_url s) of
                Inl e \<Rightarrow> (Inl e, w)
              | Inr (h, p) \<Rightarrow>
                  andthen (fetch_peer_certificate g h p) (\<lambda>der w'. (pin_and_bind (gw_lib g) pins der, w')) w))
      else if bootstrap_ca_bundle s \<noteq> [] then (ca_bundle_context (gw_lib g) (bootstrap_ca_bundle s) (nw_files w), w)
      else (system_trust_context (gw_lib g) (nw_files w), w))"

definition resolve_bootstrap_verify :: "gateway \<Rightarrow> settings \<Rightarrow> (net_world, verify) proc" where
  "resolve_bootstrap_verify g s w =
     (if insecure_skip_bootstrap_tls_verify s \<and> is_production s
      then (Inl (RuntimeError ''refusing to send the bootstrap token to a gateway nobody authenticated''), w)
      else (case url_split (scheduler_url s) of
              Inl e \<Rightarrow> (Inl e, w)
            | Inr (scheme, _) \<Rightarrow>
                if lower scheme \<noteq> ''https'' then
                  (if is_production s
                   then (Inl (RuntimeError ''refusing to send the bootstrap token in the clear''), w)
                   else (Inr Unverified, w))
                else if insecure_skip_bootstrap_tls_verify s then (Inr Unverified, w)
                else andthen (gateway_trust_context g s) (\<lambda>ctx. ret (Verified_by ctx)) w))"

definition verification_failure_hint :: "string \<Rightarrow> string \<Rightarrow> string" where
  "verification_failure_hint url err =
     ''could not authenticate the gateway at '' @ url @ '' while registering: '' @ err @ ''. ''
     @ ''The bootstrap token is only ever sent to a peer the agent could authenticate, ''
     @ ''so registration was abandoned before it was sent. If the gateway's certificate ''
     @ ''comes from a private CA, set PROBE_AGENT_BOOTSTRAP_CA_BUNDLE to that CA's PEM bundle; or set ''
     @ ''PROBE_AGENT_BOOTSTRAP_PIN_SHA256 to the SHA-256 fingerprint of the certificate the gateway presents ''
     @ ''(openssl s_client -connect HOST:443 </dev/null 2>/dev/null ''
     @ ''| openssl x509 -noout -fingerprint -sha256''
     @ ''). For local development only, PROBE_AGENT_INSECURE_SKIP_BOOTSTRAP_TLS_VERIFY=true skips ''
     @ ''verification entirely.''"

text \<open>The two contexts of the pinned path, and what the operator's configuration selects.\<close>

definition probing_context :: ssl_context where
  "probing_context =
     \<lparr>cx_side = Client_side, cx_min_1_2 = True, cx_check_hostname = False, cx_verify_mode = Cert_none,
      cx_partial_chain = False, cx_strict = False, cx_anchors = [], cx_identity = None\<rparr>"

definition bound_context :: "string \<Rightarrow> ssl_context" where
  "bound_context der =
     \<lparr>cx_side = Client_side, cx_min_1_2 = True, cx_check_hostname = False, cx_verify_mode = Cert_required,
      cx_partial_chain = True, cx_strict = False, cx_anchors = [Certificate der], cx_identity = None\<rparr>"

definition named_context :: "tls_lib \<Rightarrow> bool \<Rightarrow> anchor \<Rightarrow> ssl_context" where
  "named_context lib strict a =
     \<lparr>cx_side = Client_side, cx_min_1_2 = True, cx_check_hostname = True, cx_verify_mode = Cert_required,
      cx_partial_chain = strict_default lib, cx_strict = strict, cx_anchors = [a], cx_identity = None\<rparr>"

definition url_is_https :: "string \<Rightarrow> bool" where
  "url_is_https url = (fst (url_scheme (url_clean url)) = ''https'')"

text \<open>Digests the way \<open>openssl x509 -fingerprint\<close> prints them.\<close>

fun colon_pairs :: "string \<Rightarrow> string" where
  "colon_pairs (a # b # c # s) = a # b # CHR '':'' # colon_pairs (c # s)"
| "colon_pairs s = s"

definition upper_char :: "char \<Rightarrow> char" where
  "upper_char c = (if 97 \<le> code c \<and> code c \<le> 122 then char_of (code c - 32) else c)"

definition plain_char :: "char \<Rightarrow> bool" where
  "plain_char c = (\<not> is_space c \<and> c \<noteq> CHR '','')"

definition hex_shape :: "char \<Rightarrow> bool" where
  "hex_shape c = (lower_char (upper_char c) = c \<and> plain_char (upper_char c) \<and> c \<noteq> CHR ''s'')"

definition printed_fingerprint :: "bool \<Rightarrow> string \<Rightarrow> string" where
  "printed_fingerprint label d = (if label then ''sha256:'' else []) @ map upper_char (colon_pairs d)"

definition sample_lib :: tls_lib where
  "sample_lib = \<lparr>chain_ok = \<lambda>c k. c = k, cas_ok = \<lambda>t. t \<noteq> [], der_ok = \<lambda>d. True, strict_default = True\<rparr>"

definition sample_production :: settings where
  "sample_production = (default_settings ''1.0'')\<lparr>deployment_env := '' Production'', scheduler_url := ''HTTPS://gw''\<rparr>"

definition sample_gateway :: gateway where
  "sample_gateway = \<lparr>gw_lib = sample_lib, gw_fqdn = ''agent'', gw_present = \<lambda>_ _ _ _. Inr None,
     gw_answer = \<lambda>_ _. Inr (JObj [])\<rparr>"

definition sample_net :: net_world where
  "sample_net = \<lparr>nw_files = Map.empty, nw_preconnects = [], nw_posts = []\<rparr>"

section \<open>Lemmas\<close>

lemma pinned_context_eq:
  "pinned_context lib der = (if der_ok lib der then Inr (bound_context der) else Inl (OSError ''SSL: not enough data''))"
  by (simp add: pinned_context_def set_verify_mode_def load_cadata_def client_context_def bound_context_def)

lemma probing_context_eq:
  "set_verify_mode Cert_none (client_context\<lparr>cx_min_1_2 := True, cx_check_hostname := False\<rparr>) = Inr probing_context"
  by (simp add: set_verify_mode_def client_context_def probing_context_def)

lemma fetch_iff:
  "fst (fetch_peer_certificate g h p w) = Inr der \<longleftrightarrow>
     gw_present g probing_context h p w = Inr (Some der) \<and> der \<noteq> []"
  by (auto simp: fetch_peer_certificate_def probing_context_eq Let_def split: sum.splits option.splits)

lemma system_context_eq: "system_trust_context lib fs = Inr (named_context lib (strict_default lib) System_store)"
  by (simp add: system_trust_context_def create_default_context_def client_context_def named_context_def Let_def)

lemma bundle_context_iff:
  "ca_bundle_context lib b fs = Inr ctx \<longleftrightarrow>
     (\<exists>t. fs (path_text b) = Some (File t) \<and> cas_ok lib t \<and> ctx = named_context lib False (Ca_file t))"
  by (auto simp: ca_bundle_context_def is_file_def create_default_context_def load_cafile_def read_file_def
        read_bytes_def client_context_def named_context_def Let_def path_text_idem
      split: option.splits node.splits sum.splits if_splits)

lemma scheme_lower: "lower (fst (url_scheme u)) = fst (url_scheme u)"
proof -
  have "lower_char (lower_char c) = lower_char c" for c
    by (simp add: lower_char_def Let_def code_def) 
  then show ?thesis by (auto simp: url_scheme_def lower_def Let_def split: prod.splits)
qed

lemma resolve_unfold:
  "resolve_bootstrap_verify g s w =
     (if insecure_skip_bootstrap_tls_verify s \<and> is_production s
      then (Inl (RuntimeError ''refusing to send the bootstrap token to a gateway nobody authenticated''), w)
      else (case url_split (scheduler_url s) of
              Inl e \<Rightarrow> (Inl e, w)
            | Inr _ \<Rightarrow>
                if \<not> url_is_https (scheduler_url s) then
                  (if is_production s
                   then (Inl (RuntimeError ''refusing to send the bootstrap token in the clear''), w)
                   else (Inr Unverified, w))
                else if insecure_skip_bootstrap_tls_verify s then (Inr Unverified, w)
                else andthen (gateway_trust_context g s) (\<lambda>ctx. ret (Verified_by ctx)) w))"
proof (cases "url_split (scheduler_url s)")
  case (Inr p)
  have "lower (fst p) = fst p" "url_is_https (scheduler_url s) = (fst p = ''https'')"
    using Inr scheme_lower [of "url_clean (scheduler_url s)"]
    by (auto simp: url_split_def url_is_https_def split: prod.splits sum.splits)
  moreover have "lower ''https'' = ''https''" by code_simp
  ultimately show ?thesis using Inr by (cases p) (auto simp: resolve_bootstrap_verify_def)
qed (simp add: resolve_bootstrap_verify_def)

lemma gateway_context_iff:
  "fst (gateway_trust_context g s w) = Inr ctx \<longleftrightarrow>
     (if bootstrap_pin_sha256 s \<noteq> [] then
        (\<exists>pins h p der. normalize_fingerprints (bootstrap_pin_sha256 s) = Inr pins
           \<and> host_port (scheduler_url s) = Inr (h, p) \<and> gw_present g probing_context h p w = Inr (Some der)
           \<and> der \<noteq> [] \<and> sha256_hex der \<in> pins \<and> der_ok (gw_lib g) der \<and> ctx = bound_context der)
      else if bootstrap_ca_bundle s \<noteq> [] then
        (\<exists>t. nw_files w (path_text (bootstrap_ca_bundle s)) = Some (File t) \<and> cas_ok (gw_lib g) t
           \<and> ctx = named_context (gw_lib g) False (Ca_file t))
      else ctx = named_context (gw_lib g) (strict_default (gw_lib g)) System_store)"
proof (cases "bootstrap_pin_sha256 s = []")
  case True
  then show ?thesis by (auto simp: gateway_trust_context_def bundle_context_iff system_context_eq)
next
  case False
  have "fst (andthen (fetch_peer_certificate g h p) (\<lambda>der w'. (pin_and_bind (gw_lib g) pins der, w')) w) = Inr ctx
    \<longleftrightarrow> (\<exists>der. gw_present g probing_context h p w = Inr (Some der) \<and> der \<noteq> []
          \<and> sha256_hex der \<in> pins \<and> der_ok (gw_lib g) der \<and> ctx = bound_context der)" for h p pins
  proof (cases "fst (fetch_peer_certificate g h p w)")
    case (Inl e)
    then have "\<not> (gw_present g probing_context h p w = Inr (Some der) \<and> der \<noteq> [])" for der
      using fetch_iff [of g h p w der] by simp
    with Inl show ?thesis by (cases "fetch_peer_certificate g h p w") (auto simp: andthen_def)
  next
    case (Inr d)
    then have "gw_present g probing_context h p w = Inr (Some d)" "d \<noteq> []" by (simp_all add: fetch_iff)
    with Inr show ?thesis
      by (cases "fetch_peer_certificate g h p w") (auto simp: andthen_def pin_and_bind_def pinned_context_eq)
  qed
  note bind = this
  show ?thesis
  proof (cases "normalize_fingerprints (bootstrap_pin_sha256 s)")
    case (Inl e)
    with False show ?thesis by (simp add: gateway_trust_context_def)
  next
    case pins: (Inr pins)
    show ?thesis
    proof (cases "host_port (scheduler_url s)")
      case (Inl e)
      with False pins show ?thesis by (simp add: gateway_trust_context_def)
    next
      case (Inr hp)
      with False pins bind show ?thesis by (cases hp) (simp add: gateway_trust_context_def)
    qed
  qed
qed

lemma gateway_context_verifying: "fst (gateway_trust_context g s w) = Inr ctx \<Longrightarrow> verifying ctx"
  by (auto simp: gateway_context_iff verifying_def bound_context_def named_context_def split: if_splits)

lemma gateway_context_files: "nw_files (snd (gateway_trust_context g s w)) = nw_files w"
  by (simp add: gateway_trust_context_def andthen_def fetch_peer_certificate_def probing_context_eq Let_def
      split: sum.splits prod.splits option.splits)

lemma gateway_context_posts: "nw_posts (snd (gateway_trust_context g s w)) = nw_posts w"
  by (simp add: gateway_trust_context_def andthen_def fetch_peer_certificate_def probing_context_eq Let_def
      split: sum.splits prod.splits option.splits)

lemma pin_chunks_printed:
  assumes "\<forall>w \<in> set ws. w \<noteq> [] \<and> (\<forall>c \<in> set w. plain_char c)"
  shows "pin_chunks (join '', '' ws) = ws"
proof -
  have id: "map (\<lambda>c. if c = CHR '','' then CHR '' '' else c) w = w" if "w \<in> set ws" for w
    using assms that by (intro map_idI) (auto simp: plain_char_def)
  have sp: "is_space CHR '' ''" by code_simp
  show ?thesis using assms id
  proof (induction ws)
    case Nil
    show ?case by (simp add: pin_chunks_def split_ws_def)
  next
    case (Cons w ws)
    from Cons.prems(1) have free: "\<forall>c \<in> set w. \<not> is_space c" and w: "w \<noteq> []" by (auto simp: plain_char_def)
    have mw: "map (\<lambda>c. if c = CHR '','' then CHR '' '' else c) w = w" using Cons.prems(2) by simp
    show ?case
    proof (cases "ws = []")
      case True
      then show ?thesis by (simp add: pin_chunks_def split_ws_def split_by_none [OF free] w mw del: map_eq_conv)
    next
      case False
      have tail: "split_by is_space (CHR '' '' # s) = [] # split_by is_space s" for s
        using split_by_sep [of "[]" is_space "CHR '' ''" s] sp by simp
      let ?f = "\<lambda>c. if c = CHR '','' then CHR '' '' else c"
      have "map ?f (join '', '' (w # ws)) = w @ CHR '' '' # CHR '' '' # map ?f (join '', '' ws)"
        using False mw by (simp add: join_Cons del: map_eq_conv)
      then have "pin_chunks (join '', '' (w # ws)) = w # pin_chunks (join '', '' ws)"
        using w by (simp add: pin_chunks_def split_ws_def split_by_sep [OF free sp] tail sp del: map_eq_conv)
      moreover have "pin_chunks (join '', '' ws) = ws" using Cons by simp
      ultimately show ?thesis by simp
    qed
  qed
qed

lemma hex_chars:
  assumes "c \<in> insert CHR '':'' (set hex_alphabet)"
  shows "lower_char (upper_char c) = c \<and> plain_char (upper_char c) \<and> c \<noteq> CHR ''s''"
proof -
  have "list_all hex_shape (CHR '':'' # hex_alphabet)" by code_simp
  then have "\<forall>c \<in> insert CHR '':'' (set hex_alphabet). hex_shape c" by (simp only: list_all_iff list.set)
  with assms have "hex_shape c" by blast
  then show ?thesis unfolding hex_shape_def .
qed

lemma colon_pairs_set: "set (colon_pairs d) \<subseteq> insert CHR '':'' (set d)"
  by (induction d rule: colon_pairs.induct) (simp_all, blast)

lemma colon_pairs_filter: "CHR '':'' \<notin> set d \<Longrightarrow> filter (\<lambda>c. c \<noteq> CHR '':'') (colon_pairs d) = d"
  by (induction d rule: colon_pairs.induct) auto

lemma colon_pairs_hd: "d \<noteq> [] \<Longrightarrow> colon_pairs d \<noteq> [] \<and> hd (colon_pairs d) = hd d"
  by (cases d rule: colon_pairs.cases) auto

lemma fingerprint_chars:
  assumes "is_fingerprint d"
  shows "d \<noteq> []" "CHR '':'' \<notin> set d" "\<forall>c \<in> set (colon_pairs d). c \<in> insert CHR '':'' (set hex_alphabet)"
proof -
  have d: "set d \<subseteq> set hex_alphabet" using assms by (auto simp: is_fingerprint_def list_all_iff)
  moreover have "CHR '':'' \<notin> set hex_alphabet" by code_simp
  ultimately show "CHR '':'' \<notin> set d" by blast
  show "\<forall>c \<in> set (colon_pairs d). c \<in> insert CHR '':'' (set hex_alphabet)"
    using colon_pairs_set [of d] d by blast
  show "d \<noteq> []" using assms by (auto simp: is_fingerprint_def)
qed

lemma lower_printed:
  assumes "is_fingerprint d"
  shows "lower (map upper_char (colon_pairs d)) = colon_pairs d"
  using fingerprint_chars(3) [OF assms] hex_chars unfolding lower_def by (simp add: map_idI)

lemma printed_plain:
  assumes "is_fingerprint d" and "c \<in> set (printed_fingerprint l d)"
  shows "plain_char c"
proof -
  consider "c \<in> set ''sha256:''" | c' where "c' \<in> set (colon_pairs d)" "c = upper_char c'"
    using assms(2) by (auto simp: printed_fingerprint_def split: if_splits)
  then show ?thesis
  proof cases
    case 1
    moreover have "list_all plain_char ''sha256:''" by code_simp
    ultimately show ?thesis by (auto simp only: list_all_iff)
  next
    case 2
    then show ?thesis using fingerprint_chars(3) [OF assms(1)] hex_chars [of c'] by blast
  qed
qed

lemma fingerprint_printed:
  assumes "is_fingerprint d"
  shows "fingerprint_of (printed_fingerprint l d) = d"
proof -
  have "strip (printed_fingerprint l d) = printed_fingerprint l d"
    using printed_plain [OF assms] by (intro strip_no_space) (auto simp: plain_char_def)
  moreover have "lower (printed_fingerprint l d) = (if l then ''sha256:'' else []) @ colon_pairs d"
  proof -
    have "lower ''sha256:'' = ''sha256:''" by code_simp
    then show ?thesis using lower_printed [OF assms] by (simp add: printed_fingerprint_def lower_def)
  qed
  moreover have "removeprefix (colon_pairs d) ''sha256:'' = colon_pairs d"
    using fingerprint_chars [OF assms] hex_chars [of "hd (colon_pairs d)"] colon_pairs_hd [of d]
    by (cases "colon_pairs d") (simp_all add: removeprefix_def startswith_def)
  ultimately show ?thesis
    using colon_pairs_filter [OF fingerprint_chars(2) [OF assms]] removeprefix_prefix [of "''sha256:''" "colon_pairs d"]
    by (simp add: fingerprint_of_def)
qed

lemma collect_pins_all:
  "\<forall>w \<in> set ws. is_fingerprint (fingerprint_of w) \<Longrightarrow>
     collect_pins ws pins = Inr (pins \<union> fingerprint_of ` set ws)"
proof (induction ws arbitrary: pins)
  case (Cons w ws)
  then have "fingerprint_of w \<noteq> []" by (auto simp: is_fingerprint_def)
  with Cons show ?case by (simp add: Let_def)
qed simp

text \<open>Every form of fingerprint the documentation names is read as the same digest: any list of SHA-256
  fingerprints, each printed as \<open>openssl\<close> prints it (upper case, a colon after every byte) with or without a
  \<open>sha256:\<close> label, separated by commas and blanks, is the set of those digests.\<close>

theorem printed_fingerprints_accepted:
  assumes "ds \<noteq> []" and "\<forall>(l, d) \<in> set ds. is_fingerprint d"
  shows "normalize_fingerprints (join '', '' (map (\<lambda>(l, d). printed_fingerprint l d) ds)) = Inr (snd ` set ds)"
proof -
  let ?ws = "map (\<lambda>(l, d). printed_fingerprint l d) ds"
  have "printed_fingerprint l d \<noteq> []" if "is_fingerprint d" for l d
    using fingerprint_chars(1) [OF that] colon_pairs_hd [of d] by (simp add: printed_fingerprint_def)
  then have "printed_fingerprint l d \<noteq> [] \<and> (\<forall>c \<in> set (printed_fingerprint l d). plain_char c)"
    if "(l, d) \<in> set ds" for l d
    using assms(2) that printed_plain [of d _ l] by blast
  then have "\<forall>w \<in> set ?ws. w \<noteq> [] \<and> (\<forall>c \<in> set w. plain_char c)"
    by (auto simp only: set_map split: prod.splits)
  then have "pin_chunks (join '', '' ?ws) = ?ws" by (rule pin_chunks_printed)
  moreover have read: "map fingerprint_of ?ws = map snd ds"
    using assms(2) fingerprint_printed by (simp add: split_beta)
  have "\<forall>d \<in> set (map fingerprint_of ?ws). is_fingerprint d" unfolding read using assms(2) by auto
  then have "collect_pins ?ws {} = Inr ({} \<union> fingerprint_of ` set ?ws)"
    by (intro collect_pins_all) simp
  moreover have "fingerprint_of ` set ?ws = snd ` set ds"
    using arg_cong [OF read, where f = set] by (simp only: set_map)
  ultimately show ?thesis using assms(1) by (simp add: normalize_fingerprints_def)
qed

theorem printed_fingerprints_accepted_witness:
  "normalize_fingerprints (join '', '' (map (\<lambda>(l, d). printed_fingerprint l d)
     [(True, replicate 64 CHR ''a''), (False, replicate 64 CHR ''7'')]))
     = Inr {replicate 64 CHR ''a'', replicate 64 CHR ''7''}"
proof -
  have "is_fingerprint (replicate 64 CHR ''a'')" "is_fingerprint (replicate 64 CHR ''7'')"
    by code_simp+
  then show ?thesis
    using printed_fingerprints_accepted [of "[(True, replicate 64 CHR ''a''), (False, replicate 64 CHR ''7'')]"] by simp
qed

text \<open>Which gateway is trusted, exactly. With a fingerprint configured: the one that presented, before anything was
  sent, a certificate whose SHA-256 is among the configured digests, and the context then trusts that certificate
  and nothing else. Otherwise the operator's CA bundle or the system's store, with the host name checked. The pin
  has precedence over the bundle.\<close>

theorem gateway_trust_exact:
  "fst (gateway_trust_context g s w) = Inr ctx \<longleftrightarrow>
     (if bootstrap_pin_sha256 s \<noteq> [] then
        (\<exists>pins h p der. normalize_fingerprints (bootstrap_pin_sha256 s) = Inr pins
           \<and> host_port (scheduler_url s) = Inr (h, p) \<and> gw_present g probing_context h p w = Inr (Some der)
           \<and> der \<noteq> [] \<and> sha256_hex der \<in> pins \<and> der_ok (gw_lib g) der \<and> ctx = bound_context der)
      else if bootstrap_ca_bundle s \<noteq> [] then
        (\<exists>t. nw_files w (path_text (bootstrap_ca_bundle s)) = Some (File t) \<and> cas_ok (gw_lib g) t
           \<and> ctx = named_context (gw_lib g) False (Ca_file t))
      else ctx = named_context (gw_lib g) (strict_default (gw_lib g)) System_store)
   \<and> nw_posts (snd (gateway_trust_context g s w)) = nw_posts w"
  using gateway_context_iff [of g s w ctx] gateway_context_posts [of g s w] by blast

end
