(* ===== verification/Ca_Pins.thy ===== *)
theory Ca_Pins
  imports Gateway_Trust "HOL-Library.List_Lexorder" "HOL-Library.Char_ord"
begin

text \<open>
  \<open>mtls/ca_pins.py\<close>: the pinned trust anchors. The pin file holds one SHA-256 fingerprint per line. Splitting a
  PEM bundle into certificates is the \<open>cryptography\<close> package's, the argument \<open>load_certs\<close>, which yields each
  certificate's DER bytes.
\<close>

section \<open>Text files\<close>

text \<open>\<open>Path.read_text\<close> and \<open>Path.write_text\<close> in UTF-8; reading turns every line end into a newline.\<close>

fun utf8_decode :: "string \<Rightarrow> string option" where
  "utf8_decode [] = Some []"
| "utf8_decode [c] = (if code c < 128 then Some [c] else None)"
| "utf8_decode (c # d # s) =
     (if code c < 128 then map_option ((#) c) (utf8_decode (d # s))
      else if 194 \<le> code c \<and> code c \<le> 195 \<and> 128 \<le> code d \<and> code d \<le> 191
      then map_option ((#) (char_of ((code c - 192) * 64 + (code d - 128)))) (utf8_decode s)
      else None)"

definition newline :: char where
  "newline = char_of (10::nat)"

definition carriage_return :: char where
  "carriage_return = char_of (13::nat)"

definition universal_newlines :: "string \<Rightarrow> string" where
  "universal_newlines s =
     map (\<lambda>c. if c = carriage_return then newline else c) (replace_all [carriage_return, newline] [newline] s)"

definition read_text :: "string \<Rightarrow> fs \<Rightarrow> py_exn + string" where
  "read_text p fs =
     (case fst (read_bytes p fs) of
        Inl e \<Rightarrow> Inl e
      | Inr data \<Rightarrow>
          (case utf8_decode data of
             None \<Rightarrow> Inl (ValueError ''codec can't decode'')
           | Some t \<Rightarrow> Inr (universal_newlines t)))"

definition write_text :: "string \<Rightarrow> string \<Rightarrow> (fs, unit) proc" where
  "write_text p t = write_bytes p (utf8 t)"

section \<open>Pins\<close>

definition ca_fingerprints :: "(string \<Rightarrow> py_exn + string list) \<Rightarrow> string \<Rightarrow> string set" where
  "ca_fingerprints load_certs pem =
     (case load_certs (utf8 pem) of Inl _ \<Rightarrow> {} | Inr ders \<Rightarrow> sha256_hex ` set ders)"

definition read_pins :: "string \<Rightarrow> fs \<Rightarrow> py_exn + string set" where
  "read_pins p fs =
     (if \<not> path_exists fs p then Inr {}
      else (case read_text p fs of
              Inl e \<Rightarrow> Inl e
            | Inr t \<Rightarrow> Inr (set (filter (\<lambda>l. l \<noteq> []) (map strip (splitlines t))))))"

definition mkdir_parent :: "string \<Rightarrow> (fs, unit) proc" where
  "mkdir_parent p = mkdir_all (path_parent (path_parse p))"

definition pins_text :: "string set \<Rightarrow> string" where
  "pins_text pins = concat (map (\<lambda>fp. fp @ [newline]) (sorted_list_of_set pins))"

definition write_pins :: "string \<Rightarrow> string set \<Rightarrow> (fs, unit) proc" where
  "write_pins p pins = andthen (mkdir_parent p) (\<lambda>_. write_text p (pins_text pins))"

definition bundle_preserves_pins :: "(string \<Rightarrow> py_exn + string list) \<Rightarrow> string \<Rightarrow> string set \<Rightarrow> bool" where
  "bundle_preserves_pins load_certs pem pinned =
     (pinned = {} \<or> ca_fingerprints load_certs pem \<inter> pinned \<noteq> {})"

text \<open>A line of the pin file: what a digest looks like.\<close>

definition pin_char :: "char \<Rightarrow> bool" where
  "pin_char c = (\<not> is_space c \<and> \<not> is_linebreak c \<and> code c < 128)"

section \<open>Lemmas\<close>

lemma utf8_decode_ascii: "\<forall>c \<in> set s. code c < 128 \<Longrightarrow> utf8_decode s = Some s"
  by (induction s rule: utf8_decode.induct) auto

lemma utf8_ascii: "\<forall>c \<in> set s. code c < 128 \<Longrightarrow> utf8 s = s"
  by (induction s) (auto simp: utf8_def utf8_char_def)

lemma replace_absent: "hd old \<notin> set s \<Longrightarrow> old \<noteq> [] \<Longrightarrow> replace_all old new s = s"
proof (induction s)
  case (Cons x s)
  then have "\<not> startswith (x # s) old" by (cases old) (auto simp: startswith_def)
  with Cons show ?case by simp
qed simp

lemma universal_newlines_plain: "carriage_return \<notin> set s \<Longrightarrow> universal_newlines s = s"
  by (auto simp: universal_newlines_def replace_absent intro!: map_idI)

lemma hex_digit_pin_char: "is_hex_digit c \<Longrightarrow> pin_char c"
  by (auto simp: is_hex_digit_def pin_char_def is_space_def is_linebreak_def Let_def)

lemma digest_chars: "c \<in> set (sha256_hex m) \<Longrightarrow> pin_char c"
  by (auto simp: sha256_hex_def Let_def dest!: hex_word_digits intro: hex_digit_pin_char)

lemma length_sha_round: "length (sha_round s kw) = length s"
  by (cases "(s, kw)" rule: sha_round.cases) (simp_all add: Let_def)

lemma length_rounds: "length (foldl sha_round h kws) = length h"
  by (induction kws arbitrary: h) (simp_all add: length_sha_round)

lemma length_digest: "length (foldl sha_block h bs) = length h"
  by (induction bs arbitrary: h) (simp_all add: sha_block_def length_rounds)

lemma length_sha256: "length (sha256_hex m) = 64"
proof -
  have "length (concat (map hex_word ws)) = 8 * length ws" for ws
    by (induction ws) simp_all
  then show ?thesis by (simp add: sha256_hex_def Let_def length_digest sha_h_def)
qed

lemma pins_lines:
  "\<forall>fp \<in> set fps. \<forall>c \<in> set fp. pin_char c \<Longrightarrow>
     split_by is_linebreak (concat (map (\<lambda>fp. fp @ [newline]) fps)) = fps @ [[]]"
proof (induction fps)
  case (Cons fp fps)
  have "is_linebreak newline" by code_simp
  with Cons show ?case by (simp add: pin_char_def split_by_sep)
qed simp

lemma pins_text_chars: "finite pins \<Longrightarrow> \<forall>fp \<in> pins. \<forall>c \<in> set fp. pin_char c \<Longrightarrow> c \<in> set (pins_text pins) \<Longrightarrow> c = newline \<or> pin_char c"
  by (auto simp: pins_text_def split: if_splits)

lemma read_pins_text:
  assumes "finite pins" and "\<forall>fp \<in> pins. fp \<noteq> [] \<and> (\<forall>c \<in> set fp. pin_char c)"
    and "fs (path_text p) = Some (File (utf8 (pins_text pins)))"
  shows "read_pins p fs = Inr pins"
proof -
  let ?t = "pins_text pins"
  have nl: "code newline < 128" "carriage_return \<noteq> newline" by code_simp+
  have cr: "\<not> pin_char carriage_return" by code_simp
  have chars: "\<forall>c \<in> set ?t. c = newline \<or> pin_char c"
    using pins_text_chars [OF assms(1)] assms(2) by blast
  then have ascii: "\<forall>c \<in> set ?t. code c < 128" using nl by (auto simp: pin_char_def)
  have no_cr: "carriage_return \<notin> set ?t" using chars nl cr by blast
  have "read_text p fs = Inr ?t"
    using assms(3) ascii no_cr
    by (simp add: read_text_def read_bytes_def utf8_ascii utf8_decode_ascii universal_newlines_plain)
  moreover have "splitlines ?t = sorted_list_of_set pins"
  proof -
    have "replace_all [char_of (13::nat), char_of (10::nat)] [char_of (10::nat)] ?t = ?t"
      using no_cr by (intro replace_absent) (simp_all add: carriage_return_def)
    moreover have "split_by is_linebreak ?t = sorted_list_of_set pins @ [[]]"
      unfolding pins_text_def using assms(1,2) by (intro pins_lines) simp
    ultimately show ?thesis by (simp add: splitlines_def)
  qed
  moreover have "map strip (sorted_list_of_set pins) = sorted_list_of_set pins"
    using assms(1,2) by (intro map_idI strip_no_space) (auto simp: pin_char_def)
  moreover have "filter (\<lambda>l. l \<noteq> []) (sorted_list_of_set pins) = sorted_list_of_set pins"
    using assms(1,2) by (intro filter_True) auto
  ultimately show ?thesis
    using assms(1,3) by (simp add: read_pins_def path_exists_def)
qed

lemma ca_fingerprints_pins: "finite (ca_fingerprints lc pem) \<and> (\<forall>fp \<in> ca_fingerprints lc pem. fp \<noteq> [] \<and> (\<forall>c \<in> set fp. pin_char c))"
proof -
  have "sha256_hex m \<noteq> []" for m using length_sha256 [of m] by (metis list.size(3) zero_neq_numeral)
  then show ?thesis by (auto simp: ca_fingerprints_def dest: digest_chars split: sum.splits)
qed

lemma write_pins_file:
  "write_pins p pins fs = (Inr (), fs') \<Longrightarrow> fs' (path_text p) = Some (File (utf8 (pins_text pins)))"
  by (auto simp: write_pins_def andthen_def write_text_def write_bytes_def split: prod.splits sum.splits if_splits)

text \<open>Pins survive the disk: the fingerprints of a bundle, once written, are read back as the same set, whatever
  the file held before.\<close>

theorem pins_roundtrip:
  assumes "write_pins p (ca_fingerprints load_certs pem) fs = (Inr (), fs')"
  shows "read_pins p fs' = Inr (ca_fingerprints load_certs pem)"
  using read_pins_text [of "ca_fingerprints load_certs pem" fs' p] write_pins_file [OF assms]
    ca_fingerprints_pins [of load_certs pem] by blast

theorem pins_roundtrip_witness:
  "\<exists>fs'. write_pins ''/certs/pins'' (ca_fingerprints (\<lambda>_. Inr [''x'', ''y'']) ''pem'') Map.empty = (Inr (), fs')
     \<and> read_pins ''/certs/pins'' fs' = Inr {sha256_hex ''x'', sha256_hex ''y''}"
proof -
  let ?pins = "ca_fingerprints (\<lambda>_. Inr [''x'', ''y'']) ''pem''"
  have m: "mkdir_parent ''/certs/pins'' Map.empty = (Inr (), [''/certs'' \<mapsto> Directory])"
  proof -
    have "ancestors (path_parent (path_parse ''/certs/pins'')) = [PosixPath ''/'' [''certs'']]"
      "path_str (PosixPath ''/'' [''certs'']) = ''/certs''" by code_simp+
    then show ?thesis by (simp add: mkdir_parent_def mkdir_all_def)
  qed
  have d: "is_dir [''/certs'' \<mapsto> Directory] (path_parent (path_parse ''/certs/pins''))"
    "\<not> is_dir [''/certs'' \<mapsto> Directory] (path_parse ''/certs/pins'')" by code_simp+
  have "\<exists>fs'. write_pins ''/certs/pins'' ?pins Map.empty = (Inr (), fs')"
    using d by (simp add: write_pins_def andthen_def m write_text_def write_bytes_def)
  then obtain fs' where "write_pins ''/certs/pins'' ?pins Map.empty = (Inr (), fs')" by blast
  moreover from pins_roundtrip [OF this]
  have "read_pins ''/certs/pins'' fs' = Inr {sha256_hex ''x'', sha256_hex ''y''}"
    by (simp add: ca_fingerprints_def)
  ultimately show ?thesis by blast
qed

end
