(* ===== verification/Enrolment.thy ===== *)
theory Enrolment
  imports Ca_Pins
begin

text \<open>
  \<open>mtls/bootstrap.py\<close>: the one-shot registration. Keys, certificate requests and certificates are the
  \<open>cryptography\<close> package's, the record \<open>cert_lib\<close>; the randomness of a key is an argument. Requests go through the
  network of \<open>Gateway_Trust\<close>, so the world's log says what was sent to whom under which context.
\<close>

section \<open>Keys and requests\<close>

record 'key cert_lib =
  lib_generate :: "int \<Rightarrow> int \<Rightarrow> nat \<Rightarrow> 'key"
  lib_key_pem :: "'key \<Rightarrow> string"
  lib_csr :: "(string \<times> string) list \<Rightarrow> 'key \<Rightarrow> string"
  lib_load_key :: "string \<Rightarrow> py_exn + 'key"
  lib_sign :: "'key \<Rightarrow> string \<Rightarrow> py_exn + string"
  lib_not_after :: "string \<Rightarrow> py_exn + int"
  lib_certs :: "string \<Rightarrow> py_exn + string list"

definition generate_keypair :: "'key cert_lib \<Rightarrow> nat \<Rightarrow> 'key" where
  "generate_keypair k seed = lib_generate k 65537 4096 seed"

definition private_key_pem :: "'key cert_lib \<Rightarrow> 'key \<Rightarrow> string" where
  "private_key_pem k key = lib_key_pem k key"

definition build_csr_pem :: "'key cert_lib \<Rightarrow> 'key \<Rightarrow> string" where
  "build_csr_pem k key = lib_csr k [(''organizationName'', ''tracedown-agent'')] key"

definition advertised_agent_uri :: "string \<Rightarrow> settings \<Rightarrow> string" where
  "advertised_agent_uri fqdn s =
     (let h = strip (advertised_host s);
          p = (case advertised_port s of Some p \<Rightarrow> if p \<noteq> 0 then p else port s | None \<Rightarrow> port s)
      in ''https://'' @ (if h \<noteq> [] then h else fqdn) @ '':'' @ int_str p)"

section \<open>Requests and files\<close>

definition on_disk :: "(fs, 'a) proc \<Rightarrow> (net_world, 'a) proc" where
  "on_disk m w = (case m (nw_files w) of (r, fs) \<Rightarrow> (r, w\<lparr>nw_files := fs\<rparr>))"

text \<open>\<open>AsyncClient(verify).post(url, json)\<close>, \<open>raise_for_status\<close> and \<open>json()\<close>.\<close>

definition send_post :: "gateway \<Rightarrow> post \<Rightarrow> net_world \<Rightarrow> (post_failure + json) \<times> net_world" where
  "send_post g p w = (gw_answer g p w, w\<lparr>nw_posts := nw_posts w @ [p]\<rparr>)"

text \<open>\<open>data[key]\<close> for a parsed answer, and the text \<open>write_text\<close> insists on.\<close>

definition json_index :: "json \<Rightarrow> string \<Rightarrow> py_exn + json" where
  "json_index data key =
     (case data of
        JObj d \<Rightarrow> (case dict_get d key of Some v \<Rightarrow> Inr v | None \<Rightarrow> Inl (KeyError key))
      | _ \<Rightarrow> Inl (TypeError ''not subscriptable by a string''))"

definition as_text :: "json \<Rightarrow> py_exn + string" where
  "as_text v = (case v of JStr t \<Rightarrow> Inr t | _ \<Rightarrow> Inl (TypeError ''data must be str''))"

definition lift_result :: "py_exn + 'a \<Rightarrow> ('s, 'a) proc" where
  "lift_result r s = (r, s)"

text \<open>\<open>path.parent.mkdir(parents=True, exist_ok=True)\<close>, then \<open>path.write_text(data[key])\<close>.\<close>

definition save_field :: "string \<Rightarrow> json \<Rightarrow> string \<Rightarrow> (net_world, string) proc" where
  "save_field path data key =
     andthen (on_disk (mkdir_parent path)) (\<lambda>_.
     andthen (lift_result (json_index data key)) (\<lambda>v.
     andthen (lift_result (as_text v)) (\<lambda>t.
     andthen (on_disk (write_text path t)) (\<lambda>_. ret t))))"

section \<open>Registration\<close>

text \<open>From the answer on: the certificate, the CA, its pins, the slug.\<close>

definition store_certificate :: "settings \<Rightarrow> json \<Rightarrow> (net_world, string) proc" where
  "store_certificate s data = save_field (cert_path s) data ''certificatePem''"

definition store_ca :: "settings \<Rightarrow> json \<Rightarrow> (net_world, string) proc" where
  "store_ca s data =
     andthen (lift_result (json_index data ''caRootPem'')) (\<lambda>_. save_field (ca_cert_path s) data ''caRootPem'')"

definition pin_ca :: "'key cert_lib \<Rightarrow> settings \<Rightarrow> string \<Rightarrow> (net_world, unit) proc" where
  "pin_ca k s ca_root =
     (let pins = ca_fingerprints (lib_certs k) ca_root
      in if pins \<noteq> {} then on_disk (write_pins (ca_pins_path s) pins) else ret ())"

definition store_slug :: "settings \<Rightarrow> json \<Rightarrow> (net_world, unit) proc" where
  "store_slug s data =
     (case data of
        JObj d \<Rightarrow>
          (case dict_get d ''slug'' of
             Some v \<Rightarrow>
               if truthy v then andthen (save_field (slug_path s) data ''slug'') (\<lambda>_. ret ()) else ret ()
           | None \<Rightarrow> ret ())
      | _ \<Rightarrow> raise (AttributeError ''object has no attribute get''))"

definition store_registration :: "'key cert_lib \<Rightarrow> settings \<Rightarrow> json \<Rightarrow> (net_world, unit) proc" where
  "store_registration k s data =
     andthen (store_certificate s data) (\<lambda>_.
     andthen (store_ca s data) (\<lambda>ca_root.
     andthen (pin_ca k s ca_root) (\<lambda>_. store_slug s data)))"

definition registration_post :: "gateway \<Rightarrow> settings \<Rightarrow> string \<Rightarrow> verify \<Rightarrow> post" where
  "registration_post g s csr v =
     \<lparr>po_verify = v, po_url = scheduler_url s @ ''/internal/agents/register'',
      po_json = [(''bootstrapToken'', JStr (bootstrap_token s)), (''csrPem'', JStr csr),
                 (''agentUri'', JStr (advertised_agent_uri (gw_fqdn g) s))]\<rparr>"

definition register :: "gateway \<Rightarrow> settings \<Rightarrow> string \<Rightarrow> verify \<Rightarrow> (net_world, json) proc" where
  "register g s csr v w =
     (case send_post g (registration_post g s csr v) w of
        (Inl (Connect_failure msg _ _), w') \<Rightarrow> (Inl (RuntimeError (verification_failure_hint (scheduler_url s) msg)), w')
      | (Inl (Failure e), w') \<Rightarrow> (Inl e, w')
      | (Inr data, w') \<Rightarrow> (Inr data, w'))"

definition ensure_registered :: "gateway \<Rightarrow> 'key cert_lib \<Rightarrow> nat \<Rightarrow> settings \<Rightarrow> (net_world, unit) proc" where
  "ensure_registered g k seed s w =
     (if path_exists (nw_files w) (cert_path s) \<and> path_exists (nw_files w) (key_path s) then (Inr (), w)
      else
        let key = generate_keypair k seed; csr = build_csr_pem k key
        in andthen (on_disk (mkdir_parent (key_path s))) (\<lambda>_.
           andthen (on_disk (write_bytes (key_path s) (private_key_pem k key))) (\<lambda>_.
           andthen (resolve_bootstrap_verify g s) (\<lambda>v.
           andthen (register g s csr v) (\<lambda>data. store_registration k s data)))) w)"

text \<open>What a file holds, and the paths the agent keeps its identity under.\<close>

definition disk :: "string \<Rightarrow> net_world \<Rightarrow> string option" where
  "disk p w = file_at p (nw_files w)"

definition identity_paths_distinct :: "settings \<Rightarrow> bool" where
  "identity_paths_distinct s =
     distinct (map path_text [key_path s, cert_path s, ca_cert_path s, ca_pins_path s, slug_path s])"

text \<open>A post nobody can read on the way, unless the operator allowed that outside production.\<close>

definition post_authenticated :: "settings \<Rightarrow> post \<Rightarrow> bool" where
  "post_authenticated s p =
     (case po_verify p of
        Unverified \<Rightarrow> \<not> is_production s
          \<and> (insecure_skip_bootstrap_tls_verify s \<or> \<not> url_is_https (scheduler_url s))
      | Verified_by ctx \<Rightarrow> verifying ctx \<and> url_is_https (scheduler_url s))"

definition sample_keys :: "nat cert_lib" where
  "sample_keys =
     \<lparr>lib_generate = \<lambda>_ _ seed. seed, lib_key_pem = \<lambda>k. ''key '' @ nat_str 10 k, lib_csr = \<lambda>_ k. ''csr '' @ nat_str 10 k,
      lib_load_key = \<lambda>t. Inr (length t), lib_sign = \<lambda>k t. Inr t, lib_not_after = \<lambda>_. Inr 0,
      lib_certs = \<lambda>t. Inr [t]\<rparr>"

definition in_certs :: "string \<Rightarrow> bool" where
  "in_certs p = (path_parse p = PosixPath ''/'' [''certs'', drop 7 p] \<and> path_text p = p)"

text \<open>Routines that send nothing.\<close>

definition quiet :: "(net_world, 'a) proc \<Rightarrow> bool" where
  "quiet m \<longleftrightarrow> (\<forall>w. nw_posts (snd (m w)) = nw_posts w)"

text \<open>Routines that send at most \<open>n\<close> posts, each with \<open>P\<close>, and return only what satisfies \<open>Q\<close>.\<close>

definition sends :: "(post \<Rightarrow> bool) \<Rightarrow> nat \<Rightarrow> ('a \<Rightarrow> bool) \<Rightarrow> (net_world, 'a) proc \<Rightarrow> bool" where
  "sends P n Q m \<longleftrightarrow>
     (\<forall>w. (\<exists>ps. nw_posts (snd (m w)) = nw_posts w @ ps \<and> length ps \<le> n \<and> list_all P ps)
          \<and> (\<forall>a. fst (m w) = Inr a \<longrightarrow> Q a))"

section \<open>Lemmas\<close>

lemma andthen_Inr:
  "andthen m f s = (Inr b, s'') \<longleftrightarrow> (\<exists>a s'. m s = (Inr a, s') \<and> f a s' = (Inr b, s''))"
  by (auto simp: andthen_def split: prod.splits sum.splits)

lemma quiet_simple [simp]: "quiet (ret x)" "quiet (raise e)" "quiet (lift_result r)" "quiet (on_disk m)"
  by (auto simp: quiet_def ret_def raise_def lift_result_def on_disk_def split: prod.splits)

lemma quiet_andthen [intro]: "quiet m \<Longrightarrow> (\<And>a. quiet (f a)) \<Longrightarrow> quiet (andthen m f)"
  by (auto simp: quiet_def andthen_def split: prod.splits sum.splits) (metis sndI)+

lemma sendsD:
  "sends P n Q m \<Longrightarrow> \<exists>ps. nw_posts (snd (m w)) = nw_posts w @ ps \<and> length ps \<le> n \<and> list_all P ps"
  by (simp add: sends_def)

lemma sends_none: "quiet m \<Longrightarrow> sends P n (\<lambda>_. True) m"
  by (auto simp: quiet_def sends_def intro!: exI [of _ "[]"])

lemma sends_one: "(\<And>w. nw_posts (snd (m w)) = nw_posts w @ [p]) \<Longrightarrow> P p \<Longrightarrow> sends P (Suc n) (\<lambda>_. True) m"
  by (auto simp: sends_def intro!: exI [of _ "[p]"])

lemma sends_andthen:
  assumes "sends P n Q m" and "\<And>a. Q a \<Longrightarrow> sends P l R (f a)"
  shows "sends P (n + l) R (andthen m f)"
  unfolding sends_def
proof
  fix w
  obtain r w1 where m: "m w = (r, w1)" by force
  obtain ps where ps: "nw_posts w1 = nw_posts w @ ps" "length ps \<le> n" "list_all P ps"
    using sendsD [OF assms(1), of w] m by auto
  show "(\<exists>ps. nw_posts (snd (andthen m f w)) = nw_posts w @ ps \<and> length ps \<le> n + l \<and> list_all P ps)
      \<and> (\<forall>b. fst (andthen m f w) = Inr b \<longrightarrow> R b)"
  proof (cases r)
    case (Inl e)
    with m ps show ?thesis by (auto simp: andthen_def)
  next
    case (Inr a)
    have "fst (m w) = Inr a \<longrightarrow> Q a" using assms(1) unfolding sends_def by blast
    with m Inr have "Q a" by simp
    then have f: "sends P l R (f a)" by (rule assms(2))
    obtain qs where "nw_posts (snd (f a w1)) = nw_posts w1 @ qs" "length qs \<le> l" "list_all P qs"
      using sendsD [OF f, of w1] by blast
    with m Inr ps f show ?thesis
      by (auto simp: andthen_def sends_def intro!: exI [of _ "ps @ qs"])
  qed
qed

text \<open>
  Who is on the other end: a provider settles it without sending anything and returns only what it vouches for, so
  its client's posts are as \<open>admits\<close> allows.
\<close>

locale trusted_peer =
  fixes trust :: "(net_world, 'v) proc"
    and admits :: "'v \<Rightarrow> bool"
  assumes silent: "quiet trust"
    and admitted: "fst (trust w) = Inr v \<Longrightarrow> admits v"
begin

lemma sends_under:
  assumes "\<And>v. admits v \<Longrightarrow> sends P n Q (f v)"
  shows "sends P n Q (andthen trust f)"
proof -
  have "sends P 0 admits trust" using sends_none [OF silent, of P 0] admitted by (auto simp: sends_def)
  from sends_andthen [OF this assms] show ?thesis by simp
qed

lemma sends_post:
  assumes "\<And>v w. nw_posts (snd (f v w)) = nw_posts w @ [p v]" and "\<And>v. admits v \<Longrightarrow> P (p v)"
  shows "sends P (Suc n) (\<lambda>_. True) (andthen trust f)"
  using assms by (intro sends_under sends_one)

end

lemma quiet_store_registration: "quiet (store_registration k s data)"
  by (auto simp: store_registration_def store_certificate_def store_ca_def pin_ca_def store_slug_def save_field_def Let_def
      split: json.splits option.splits intro!: quiet_andthen)

lemma quiet_gateway_context: "quiet (gateway_trust_context g s)"
  by (simp add: quiet_def gateway_context_posts)

lemma quiet_resolve: "quiet (resolve_bootstrap_verify g s)"
proof -
  have "quiet (andthen (gateway_trust_context g s) (\<lambda>ctx. ret (Verified_by ctx)))"
    by (auto intro: quiet_gateway_context)
  then show ?thesis by (auto simp: quiet_def resolve_unfold split: sum.splits)
qed

lemma enrolment_peer_authenticated:
  assumes "fst (resolve_bootstrap_verify g s w) = Inr v"
  shows "post_authenticated s (registration_post g s csr v)"
proof -
  have "verifying ctx" if "andthen (gateway_trust_context g s) (\<lambda>ctx. ret (Verified_by ctx)) w = (Inr (Verified_by ctx), w')"
    for ctx w'
    using that gateway_context_verifying [of g s w ctx] by (auto simp: proc_simps split: prod.splits sum.splits)
  moreover have "\<exists>ctx. v' = Verified_by ctx" if "andthen (gateway_trust_context g s) (\<lambda>ctx. ret (Verified_by ctx)) w = (Inr v', w')"
    for v' w'
    using that by (auto simp: proc_simps split: prod.splits sum.splits)
  ultimately show ?thesis
    using assms unfolding post_authenticated_def registration_post_def
    by (cases "resolve_bootstrap_verify g s w") (auto simp: resolve_unfold split: sum.splits if_splits verify.splits)
qed

lemma register_posts: "nw_posts (snd (register g s csr v w)) = nw_posts w @ [registration_post g s csr v]"
  by (auto simp: register_def send_post_def split: sum.splits post_failure.splits)

lemma mkdir_disk: "mkdir_parent q fs = (r, fs') \<Longrightarrow> file_at p fs' = file_at p fs"
  using make_dirs_files [of _ fs r fs' "path_text p"] make_dirs_new [of _ fs r fs' "path_text p"]
  by (cases "fs' (path_text p) = fs (path_text p)") (force simp: mkdir_parent_def mkdir_all_def file_at_def)+

lemma write_bytes_disk:
  "write_bytes p c fs = (Inr (), fs') \<Longrightarrow> file_at q fs' = (if path_text q = path_text p then Some c else file_at q fs)"
  by (auto simp: write_bytes_def file_at_def split: if_splits)

lemma save_field_effect:
  assumes "save_field p data key w = (Inr t, w')"
  shows "json_index data key = Inr (JStr t)"
    and "disk q w' = (if path_text q = path_text p then Some (utf8 t) else disk q w)"
proof -
  obtain w1 v where m: "on_disk (mkdir_parent p) w = (Inr (), w1)" and v: "json_index data key = Inr v"
    and t: "as_text v = Inr t" and wr: "on_disk (write_text p t) w1 = (Inr (), w')"
    using assms by (auto simp: save_field_def andthen_Inr lift_result_def ret_def)
  show "json_index data key = Inr (JStr t)" using v t by (cases v) (auto simp: as_text_def)
  have "disk q w1 = disk q w"
    using m mkdir_disk [of p "nw_files w"] by (auto simp: on_disk_def disk_def split: prod.splits)
  moreover have "disk q w' = (if path_text q = path_text p then Some (utf8 t) else disk q w1)"
    using wr write_bytes_disk by (auto simp: on_disk_def disk_def write_text_def split: prod.splits)
  ultimately show "disk q w' = (if path_text q = path_text p then Some (utf8 t) else disk q w)" by simp
qed

lemma write_pins_disk:
  assumes "on_disk (write_pins p pins) w = (Inr (), w')"
  shows "disk q w' = (if path_text q = path_text p then Some (utf8 (pins_text pins)) else disk q w)"
proof -
  obtain fs1 fs2 where "mkdir_parent p (nw_files w) = (Inr (), fs1)" "write_text p (pins_text pins) fs1 = (Inr (), fs2)"
    "w' = w\<lparr>nw_files := fs2\<rparr>"
    using assms by (auto simp: on_disk_def write_pins_def andthen_Inr split: prod.splits)
  then show ?thesis
    using mkdir_disk [of p "nw_files w" "Inr ()" fs1] write_bytes_disk [of p "utf8 (pins_text pins)" fs1 fs2]
    by (simp add: disk_def write_text_def)
qed

lemma disk_exists: "disk p w = Some c \<Longrightarrow> path_exists (nw_files w) p"
  by (auto simp: disk_def file_at_def path_exists_def split: option.splits)

lemma disk_file: "disk p w = Some c \<longleftrightarrow> nw_files w (path_text p) = Some (File c)"
  by (auto simp: disk_def file_at_def split: option.splits node.splits)

lemma pin_ca_disk:
  assumes "pin_ca k s ca w = (Inr (), w')"
  shows "path_text q \<noteq> path_text (ca_pins_path s) \<Longrightarrow> disk q w' = disk q w"
    and "ca_fingerprints (lib_certs k) ca \<noteq> {} \<Longrightarrow>
      disk (ca_pins_path s) w' = Some (utf8 (pins_text (ca_fingerprints (lib_certs k) ca)))"
  using assms write_pins_disk [of "ca_pins_path s" "ca_fingerprints (lib_certs k) ca" w w']
  by (auto simp: pin_ca_def ret_def Let_def split: if_splits)

lemma store_slug_disk:
  assumes "store_slug s data w = (Inr (), w')" and "path_text q \<noteq> path_text (slug_path s)"
  shows "disk q w' = disk q w"
proof -
  have "disk q w2 = disk q w" if "save_field (slug_path s) data ''slug'' w = (Inr t, w2)" for t w2
    using save_field_effect(2) [OF that] assms(2) by simp
  with assms(1) show ?thesis
    by (auto simp: store_slug_def andthen_Inr ret_def raise_def split: json.splits option.splits if_splits)
qed

lemma store_registration_disk:
  assumes "store_registration k s data w = (Inr (), w')" and "identity_paths_distinct s"
  shows "\<exists>cert ca. json_index data ''certificatePem'' = Inr (JStr cert) \<and> json_index data ''caRootPem'' = Inr (JStr ca)
    \<and> disk (cert_path s) w' = Some (utf8 cert) \<and> disk (ca_cert_path s) w' = Some (utf8 ca)
    \<and> disk (key_path s) w' = disk (key_path s) w
    \<and> (ca_fingerprints (lib_certs k) ca \<noteq> {} \<longrightarrow>
         disk (ca_pins_path s) w' = Some (utf8 (pins_text (ca_fingerprints (lib_certs k) ca))))"
proof -
  obtain cert w1 ca w2 w3 where
    1: "save_field (cert_path s) data ''certificatePem'' w = (Inr cert, w1)" and
    2: "save_field (ca_cert_path s) data ''caRootPem'' w1 = (Inr ca, w2)" and
    3: "pin_ca k s ca w2 = (Inr (), w3)" and 4: "store_slug s data w3 = (Inr (), w')"
    using assms(1)
    by (auto simp: store_registration_def store_certificate_def store_ca_def andthen_Inr lift_result_def)
  show ?thesis
    using save_field_effect [OF 1] save_field_effect [OF 2] pin_ca_disk [OF 3] store_slug_disk [OF 4] assms(2)
    unfolding identity_paths_distinct_def by auto
qed

lemma andthen_assoc: "andthen (andthen m f) g = andthen m (\<lambda>a. andthen (f a) g)"
  by (rule ext) (simp add: andthen_def split: prod.splits sum.splits)

interpretation front_peer: trusted_peer "gateway_trust_context g s" verifying for g s
  using quiet_gateway_context gateway_context_verifying by unfold_locales blast+

interpretation bootstrap_peer: trusted_peer "resolve_bootstrap_verify g s" "\<lambda>v. post_authenticated s (registration_post g s csr v)"
  for g s csr
  using quiet_resolve enrolment_peer_authenticated by unfold_locales

lemma ensure_registered_posts: "sends (post_authenticated s) 1 (\<lambda>_. True) (ensure_registered g k seed s)"
proof -
  let ?key = "generate_keypair k seed" and ?csr = "build_csr_pem k (generate_keypair k seed)"
  let ?prep = "andthen (on_disk (mkdir_parent (key_path s))) (\<lambda>_. on_disk (write_bytes (key_path s) (private_key_pem k ?key)))"
  let ?ask = "andthen (resolve_bootstrap_verify g s) (register g s ?csr)"
  have "sends (post_authenticated s) 1 (\<lambda>_. True) ?ask"
    using bootstrap_peer.sends_post [OF register_posts, where n = 0] by simp
  then have "sends (post_authenticated s) (0 + (1 + 0)) (\<lambda>_. True) (andthen ?prep (\<lambda>_. andthen ?ask (store_registration k s)))"
    by (intro sends_andthen [OF sends_none] sends_andthen sends_none quiet_store_registration) auto
  moreover have "ensure_registered g k seed s w = (if path_exists (nw_files w) (cert_path s) \<and> path_exists (nw_files w) (key_path s)
      then ret () w else andthen ?prep (\<lambda>_. andthen ?ask (store_registration k s)) w)" for w
    by (simp add: ensure_registered_def Let_def andthen_assoc ret_def)
  ultimately show ?thesis by (auto simp: sends_def ret_def)
qed

text \<open>C3: The bootstrap token goes to one peer at most, and to an authenticated one: whatever the settings, the network
  and the outcome, enrolment sends at most one request; it goes out under a context that requires and verifies the
  gateway's certificate, except outside production for a URL that is not https or under the explicit opt-out.\<close>

theorem token_only_to_authenticated_gateway:
  "\<exists>ps. nw_posts (snd (ensure_registered g k seed s w)) = nw_posts w @ ps \<and> length ps \<le> 1
     \<and> list_all (post_authenticated s) ps"
  by (rule ensure_registered_posts [THEN sendsD])

lemma resolve_files: "nw_files (snd (resolve_bootstrap_verify g s w)) = nw_files w"
  using gateway_context_files [of g s w]
  by (auto simp: resolve_unfold andthen_def ret_def split: sum.splits prod.splits)

lemma enrolment_effect:
  assumes "ensure_registered g k seed s w = (Inr (), w')"
    and "\<not> (path_exists (nw_files w) (cert_path s) \<and> path_exists (nw_files w) (key_path s))"
    and "identity_paths_distinct s"
  shows "\<exists>data cert ca. json_index data ''certificatePem'' = Inr (JStr cert)
     \<and> json_index data ''caRootPem'' = Inr (JStr ca)
     \<and> disk (key_path s) w' = Some (private_key_pem k (generate_keypair k seed))
     \<and> disk (cert_path s) w' = Some (utf8 cert) \<and> disk (ca_cert_path s) w' = Some (utf8 ca)
     \<and> certs_exist s (nw_files w')
     \<and> (ca_fingerprints (lib_certs k) ca \<noteq> {} \<longrightarrow>
          read_pins (ca_pins_path s) (nw_files w') = Inr (ca_fingerprints (lib_certs k) ca))
     \<and> ensure_registered g k seed' s w' = (Inr (), w')"
proof -
  obtain w1 w2 v w3 data w4 where
    1: "on_disk (write_bytes (key_path s) (private_key_pem k (generate_keypair k seed))) w1 = (Inr (), w2)" and
    2: "resolve_bootstrap_verify g s w2 = (Inr v, w3)" and
    3: "register g s (build_csr_pem k (generate_keypair k seed)) v w3 = (Inr data, w4)" and
    4: "store_registration k s data w4 = (Inr (), w')"
    using assms(1,2) by (auto simp: ensure_registered_def Let_def andthen_Inr)
  have "disk (key_path s) w2 = Some (private_key_pem k (generate_keypair k seed))"
    using 1 write_bytes_disk by (auto simp: on_disk_def disk_def split: prod.splits)
  moreover have "nw_files w4 = nw_files w2"
    using resolve_files [of g s w2] 2 3
    by (auto simp: register_def send_post_def split: sum.splits post_failure.splits)
  ultimately have key: "disk (key_path s) w4 = Some (private_key_pem k (generate_keypair k seed))"
    by (simp add: disk_def)
  obtain cert ca where st: "json_index data ''certificatePem'' = Inr (JStr cert)" "json_index data ''caRootPem'' = Inr (JStr ca)"
    "disk (cert_path s) w' = Some (utf8 cert)" "disk (ca_cert_path s) w' = Some (utf8 ca)"
    "disk (key_path s) w' = disk (key_path s) w4"
    "ca_fingerprints (lib_certs k) ca \<noteq> {} \<longrightarrow>
       disk (ca_pins_path s) w' = Some (utf8 (pins_text (ca_fingerprints (lib_certs k) ca)))"
    using store_registration_disk [OF 4 assms(3)] by blast
  have ex: "path_exists (nw_files w') (key_path s)" "path_exists (nw_files w') (cert_path s)"
    "path_exists (nw_files w') (ca_cert_path s)"
    using st key by (auto intro: disk_exists)
  moreover have "read_pins (ca_pins_path s) (nw_files w') = Inr (ca_fingerprints (lib_certs k) ca)"
    if "ca_fingerprints (lib_certs k) ca \<noteq> {}"
    using st(6) that ca_fingerprints_pins [of "lib_certs k" ca] by (intro read_pins_text) (auto simp: disk_file)
  moreover have "ensure_registered g k seed' s w' = (Inr (), w')" using ex by (simp add: ensure_registered_def)
  ultimately show ?thesis
    using st key by (intro exI [of _ data] exI [of _ cert] exI [of _ ca]) (auto simp: certs_exist_def)
qed


text \<open>Files directly in \<open>/certs\<close>, on a disk where that directory exists.\<close>

lemma in_certs_paths:
  assumes "fs ''/certs'' = Some Directory" and "in_certs p"
  shows "mkdir_parent p fs = (Inr (), fs)" and "path_text p = p"
    and "fs p \<noteq> Some Directory \<Longrightarrow> write_bytes p c fs = (Inr (), fs(p \<mapsto> File c))"
    and "path_exists fs p = (fs p \<noteq> None)" and "is_dir fs (path_parse p) = (fs p = Some Directory)"
    and "is_dir fs (path_parent (path_parse p))"
proof -
  have pp: "path_parse p = PosixPath ''/'' [''certs'', drop 7 p] \<and> path_text p = p"
    using assms(2) unfolding in_certs_def .
  have c1: "path_str (PosixPath ''/'' [''certs'']) = ''/certs''" by code_simp
  have "path_str (path_parse p) = p" using pp unfolding path_text_def by blast
  note c = c1 this
  have a: "ancestors (path_parent (path_parse p)) = [PosixPath ''/'' [''certs'']]"
    "path_parent (path_parse p) = PosixPath ''/'' [''certs'']" using pp by (simp_all add: ancestors_def path_parent_def)
  show "mkdir_parent p fs = (Inr (), fs)" using a c assms(1) by (simp add: mkdir_parent_def mkdir_all_def)
  show "path_text p = p" using pp by blast
  show "path_exists fs p = (fs p \<noteq> None)" using pp by (simp add: path_exists_def)
  show "is_dir fs (path_parse p) = (fs p = Some Directory)" using pp c by (simp add: is_dir_def)
  show "is_dir fs (path_parent (path_parse p))" using pp a c assms(1) by (simp add: is_dir_def)
  show "fs p \<noteq> Some Directory \<Longrightarrow> write_bytes p c fs = (Inr (), fs(p \<mapsto> File c))"
    using pp a c assms(1) by (simp add: write_bytes_def is_dir_def)
qed

lemma default_in_certs:
  "in_certs ''/certs/agent-key.pem''" "in_certs ''/certs/agent.pem''" "in_certs ''/certs/ca.pem''"
  "in_certs ''/certs/ca-pins.txt''" "in_certs ''/certs/agent-slug.txt''"
  by code_simp+

lemmas default_paths =
  in_certs_paths [OF _ default_in_certs(1)] in_certs_paths [OF _ default_in_certs(2)]
  in_certs_paths [OF _ default_in_certs(3)] in_certs_paths [OF _ default_in_certs(4)]
  in_certs_paths [OF _ default_in_certs(5)]

lemma first_mkdir: "mkdir_parent ''/certs/agent-key.pem'' Map.empty = (Inr (), [''/certs'' \<mapsto> Directory])"
proof -
  have "ancestors (path_parent (path_parse ''/certs/agent-key.pem'')) = [PosixPath ''/'' [''certs'']]"
    "path_str (PosixPath ''/'' [''certs'']) = ''/certs''" by code_simp+
  then show ?thesis by (simp add: mkdir_parent_def mkdir_all_def)
qed


end
