(* ===== verification/Identity_Store.thy ===== *)
theory Identity_Store
  imports Enrolment
begin

text \<open>
  The agent's identity as its files hold it, and the abstract specification of everything that ever changes it. An
  identity maps five slots to their contents; \<open>stored\<close> reads one off the disk. A routine that changes it writes slots
  in a fixed order and may stop after any of them: \<open>performs\<close> says that a routine, whatever its outcome, has
  done a prefix of a plan, and the whole plan if it returned. The two plans of the agent are the enrolment's and
  the rotation's; \<open>enrols\<close> and \<open>rotates\<close> are the transitions they allow.
\<close>

section \<open>Identities\<close>

datatype slot = Key | Cert | Ca | Pins | Slug

type_synonym identity = "slot \<Rightarrow> string option"

type_synonym plan = "(slot \<times> string) list"

fun slot_path :: "settings \<Rightarrow> slot \<Rightarrow> string" where
  "slot_path s Key = key_path s"
| "slot_path s Cert = cert_path s"
| "slot_path s Ca = ca_cert_path s"
| "slot_path s Pins = ca_pins_path s"
| "slot_path s Slug = slug_path s"

definition stored :: "settings \<Rightarrow> net_world \<Rightarrow> identity" where
  "stored s w x = disk (slot_path s x) w"

definition written :: "plan \<Rightarrow> identity \<Rightarrow> identity" where
  "written ws i = fold (\<lambda>(x, c) i. i(x \<mapsto> c)) ws i"

definition performs :: "settings \<Rightarrow> (net_world, 'a) proc \<Rightarrow> net_world \<Rightarrow> plan \<Rightarrow> bool" where
  "performs s m w ws \<longleftrightarrow>
     (\<exists>n \<le> length ws. stored s (snd (m w)) = written (take n ws) (stored s w)
        \<and> (\<not> isl (fst (m w)) \<longrightarrow> n = length ws))"

section \<open>The specification\<close>

text \<open>\<open>fp\<close> is what the certificates of a bundle hash to.\<close>

definition pin_write :: "(string \<Rightarrow> string set) \<Rightarrow> string \<Rightarrow> plan" where
  "pin_write fp ca = (if fp ca \<noteq> {} then [(Pins, utf8 (pins_text (fp ca)))] else [])"

definition enrolment_plan :: "(string \<Rightarrow> string set) \<Rightarrow> string \<Rightarrow> string \<Rightarrow> string \<Rightarrow> string option \<Rightarrow> plan" where
  "enrolment_plan fp key cert ca the_slug =
     [(Key, key), (Cert, utf8 cert), (Ca, utf8 ca)] @ pin_write fp ca
       @ (case the_slug of None \<Rightarrow> [] | Some t \<Rightarrow> [(Slug, utf8 t)])"

definition rotation_plan :: "(string \<Rightarrow> string set) \<Rightarrow> string \<Rightarrow> string \<Rightarrow> string option \<Rightarrow> plan" where
  "rotation_plan fp key cert ca =
     [(Key, key), (Cert, utf8 cert)] @ (case ca of None \<Rightarrow> [] | Some t \<Rightarrow> (Ca, utf8 t) # pin_write fp t)"

text \<open>The pins an identity declares.\<close>

definition parse_pins :: "string \<Rightarrow> string set option" where
  "parse_pins c =
     map_option (\<lambda>t. set (filter (\<lambda>l. l \<noteq> []) (map strip (splitlines (universal_newlines t))))) (utf8_decode c)"

definition declared_pins :: "identity \<Rightarrow> string set option" where
  "declared_pins i = (case i Pins of None \<Rightarrow> Some {} | Some c \<Rightarrow> parse_pins c)"

definition vouched :: "(string \<Rightarrow> string set) \<Rightarrow> identity \<Rightarrow> string \<Rightarrow> bool" where
  "vouched fp i ca \<longleftrightarrow> (\<exists>pins. declared_pins i = Some pins \<and> (pins = {} \<or> fp ca \<inter> pins \<noteq> {}))"

inductive enrols :: "(string \<Rightarrow> string set) \<Rightarrow> identity \<Rightarrow> identity \<Rightarrow> bool" for fp where
  "i Key = None \<or> i Cert = None \<Longrightarrow> enrols fp i (written (take n (enrolment_plan fp key cert ca the_slug)) i)"

inductive rotates :: "(string \<Rightarrow> string set) \<Rightarrow> identity \<Rightarrow> identity \<Rightarrow> bool" for fp where
  "i Key = Some old \<Longrightarrow> pred_option (vouched fp i) ca \<Longrightarrow> rotates fp i (written (take n (rotation_plan fp key cert ca)) i)"

definition lives :: "(string \<Rightarrow> string set) \<Rightarrow> identity \<Rightarrow> identity \<Rightarrow> bool" where
  "lives fp = (\<lambda>i j. enrols fp i j \<or> rotates fp i j)\<^sup>*\<^sup>*"

text \<open>The pins are \<open>pins\<close>, and the CA shares a certificate with them.\<close>

definition anchored_identity :: "(string \<Rightarrow> string set) \<Rightarrow> string set \<Rightarrow> identity \<Rightarrow> bool" where
  "anchored_identity fp pins i \<longleftrightarrow>
     finite pins \<and> (\<forall>f \<in> pins. f \<noteq> [] \<and> (\<forall>c \<in> set f. pin_char c)) \<and> i Pins = Some (utf8 (pins_text pins))
     \<and> (\<exists>ca. i Ca = Some (utf8 ca) \<and> fp ca \<inter> pins \<noteq> {})"

text \<open>The text a field of an answer holds.\<close>

definition text_at :: "json \<Rightarrow> string \<Rightarrow> string" where
  "text_at data key = (case json_index data key of Inr (JStr t) \<Rightarrow> t | _ \<Rightarrow> [])"

section \<open>Plans\<close>

lemma enrolsI: "i Key = None \<or> i Cert = None \<Longrightarrow> j = written (take n (enrolment_plan fp key cert ca the_slug)) i \<Longrightarrow> enrols fp i j"
  by (auto intro: enrols.intros)

lemma rotatesI: "i Key = Some old \<Longrightarrow> pred_option (vouched fp i) ca \<Longrightarrow>
    j = written (take n (rotation_plan fp key cert ca)) i \<Longrightarrow> rotates fp i j"
  by (auto intro: rotates.intros)

lemma written_simps [simp]: "written [] i = i" "written ((x, c) # ws) i = written ws (i(x \<mapsto> c))"
  by (simp_all add: written_def)

lemma written_append: "written (ws @ vs) i = written vs (written ws i)"
  by (simp add: written_def)

lemma written_other: "x \<notin> fst ` set ws \<Longrightarrow> written ws i x = i x"
  by (induction ws arbitrary: i) auto

lemma written_take_other: "x \<notin> fst ` set ws \<Longrightarrow> written (take n ws) i x = i x"
  by (rule written_other) (auto dest: in_set_takeD)

lemma performs_nothing: "stored s (snd (m w)) = stored s w \<Longrightarrow> performs s m w []"
  by (simp add: performs_def)

lemma performs_raise: "isl (fst (m w)) \<Longrightarrow> stored s (snd (m w)) = stored s w \<Longrightarrow> performs s m w ws"
  unfolding performs_def by (intro exI [of _ 0]) simp

lemma performs_andthen:
  assumes "performs s m w ws" and "\<And>a w1. m w = (Inr a, w1) \<Longrightarrow> performs s (f a) w1 vs"
  shows "performs s (andthen m f) w (ws @ vs)"
proof -
  obtain n where n: "n \<le> length ws" "stored s (snd (m w)) = written (take n ws) (stored s w)"
    "\<not> isl (fst (m w)) \<longrightarrow> n = length ws"
    using assms(1) by (auto simp: performs_def)
  show ?thesis
  proof (cases "m w")
    case (Pair r w1)
    show ?thesis
    proof (cases r)
      case (Inl e)
      with Pair n show ?thesis
        unfolding performs_def by (intro exI [of _ n]) (simp add: andthen_def)
    next
      case (Inr a)
      with assms(2) Pair have "performs s (f a) w1 vs" by simp
      then obtain l where "l \<le> length vs" "stored s (snd (f a w1)) = written (take l vs) (stored s w1)"
        "\<not> isl (fst (f a w1)) \<longrightarrow> l = length vs"
        by (auto simp: performs_def)
      with Pair Inr n show ?thesis
        unfolding performs_def by (intro exI [of _ "length ws + l"]) (simp add: andthen_def written_append)
    qed
  qed
qed

lemma performs_then:
  assumes "stored s (snd (m w)) = stored s w" and "\<And>a w1. m w = (Inr a, w1) \<Longrightarrow> performs s (f a) w1 vs"
  shows "performs s (andthen m f) w vs"
  using performs_andthen [OF performs_nothing [of s m w, OF assms(1)] assms(2)] by simp

lemma performs_lift:
  assumes "\<And>a. r = Inr a \<Longrightarrow> performs s (f a) w vs"
  shows "performs s (andthen (lift_result r) f) w vs"
  using assms by (intro performs_then) (auto simp: lift_result_def)

lemma performs_one:
  assumes "\<And>y. y \<noteq> x \<Longrightarrow> stored s (snd (m w)) y = stored s w y"
    and "stored s (snd (m w)) x = (if isl (fst (m w)) then stored s w x else Some c)"
  shows "performs s m w [(x, c)]"
proof (cases "isl (fst (m w))")
  case True
  with assms have "stored s (snd (m w)) = stored s w" by (intro ext) metis
  with True show ?thesis by (intro performs_raise)
next
  case False
  with assms have "stored s (snd (m w)) = (stored s w)(x \<mapsto> c)" by (intro ext) auto
  then show ?thesis unfolding performs_def by (intro exI [of _ 1]) simp
qed

lemma stored_files: "nw_files w' = nw_files w \<Longrightarrow> stored s w' = stored s w"
  by (rule ext) (simp add: stored_def disk_def)

lemma stored_mkdir: "stored s (snd (on_disk (mkdir_parent p) w)) = stored s w"
  using mkdir_disk [of p "nw_files w"]
  by (auto simp: stored_def disk_def on_disk_def fun_eq_iff split: prod.splits)

lemma on_disk_andthen: "on_disk (andthen m f) = andthen (on_disk m) (\<lambda>a. on_disk (f a))"
  by (rule ext) (simp add: on_disk_def andthen_def split: prod.splits sum.splits)

lemma slot_paths: "identity_paths_distinct s \<Longrightarrow> path_text (slot_path s x) = path_text (slot_path s y) \<longleftrightarrow> x = y"
  by (cases x; cases y) (auto simp: identity_paths_distinct_def)

lemma performs_write_bytes:
  assumes "identity_paths_distinct s"
  shows "performs s (on_disk (write_bytes (slot_path s x) c)) w [(x, c)]"
  by (rule performs_one)
     (auto simp: stored_def disk_def on_disk_def write_bytes_def file_at_def slot_paths [OF assms] split: prod.splits)

lemma performs_write_pins:
  assumes "identity_paths_distinct s"
  shows "performs s (on_disk (write_pins (ca_pins_path s) pins)) w [(Pins, utf8 (pins_text pins))]"
  unfolding write_pins_def write_text_def on_disk_andthen
  using performs_write_bytes [OF assms, of Pins] by (intro performs_then) (simp_all add: stored_mkdir)

section \<open>Enrolment\<close>

lemma json_index_text: "json_index data key = Inr v \<Longrightarrow> as_text v = Inr t \<Longrightarrow> t = text_at data key"
  by (cases v) (auto simp: text_at_def as_text_def)

lemma performs_save_field:
  assumes "identity_paths_distinct s"
  shows "performs s (save_field (slot_path s x) data key) w [(x, utf8 (text_at data key))]"
  unfolding save_field_def write_text_def
proof (rule performs_then, rule stored_mkdir, rule performs_lift, rule performs_lift)
  fix v t w1
  assume "json_index data key = Inr v" "as_text v = Inr t"
  then have "t = text_at data key" by (rule json_index_text)
  then show "performs s (andthen (on_disk (write_bytes (slot_path s x) (utf8 t))) (\<lambda>_. ret t)) w1 [(x, utf8 (text_at data key))]"
    using performs_andthen [OF performs_write_bytes [OF assms, of x "utf8 t" w1] performs_nothing, of "\<lambda>_. ret t"]
    by (simp add: ret_def)
qed

lemma saved_text: "save_field p data key w = (Inr t, w') \<Longrightarrow> t = text_at data key"
  using save_field_effect(1) by (simp add: text_at_def)

lemma performs_pin_ca:
  assumes "identity_paths_distinct s"
  shows "performs s (pin_ca k s ca) w (pin_write (ca_fingerprints (lib_certs k)) ca)"
  using performs_write_pins [OF assms, of "ca_fingerprints (lib_certs k) ca" w]
  by (auto simp: pin_ca_def pin_write_def Let_def ret_def intro: performs_nothing)

lemma performs_store_slug:
  assumes "identity_paths_distinct s"
  shows "\<exists>the_slug. performs s (store_slug s data) w (case the_slug of None \<Rightarrow> [] | Some t \<Rightarrow> [(Slug, utf8 t)])"
proof (cases "\<exists>d v. data = JObj d \<and> dict_get d ''slug'' = Some v \<and> truthy v")
  case True
  then have "store_slug s data = andthen (save_field (slug_path s) data ''slug'') (\<lambda>_. ret ())"
    by (auto simp: store_slug_def)
  with performs_andthen [OF performs_save_field [OF assms, of Slug data "''slug''" w] performs_nothing, of "\<lambda>_. ret ()"]
  show ?thesis by (intro exI [of _ "Some (text_at data ''slug'')"]) (simp add: ret_def)
next
  case False
  then have "stored s (snd (store_slug s data w)) = stored s w"
    by (auto simp: store_slug_def ret_def raise_def split: json.splits option.splits)
  then show ?thesis by (intro exI [of _ None]) (simp add: performs_nothing)
qed

lemma performs_store_registration:
  assumes "identity_paths_distinct s"
  shows "\<exists>cert ca the_slug. performs s (store_registration k s data) w
      (drop 1 (enrolment_plan (ca_fingerprints (lib_certs k)) key cert ca the_slug))"
proof -
  let ?cert = "text_at data ''certificatePem''" and ?ca = "text_at data ''caRootPem''" and ?fp = "ca_fingerprints (lib_certs k)"
  obtain w4 where w4: "w4 = snd (andthen (store_certificate s data) (\<lambda>_. andthen (store_ca s data) (pin_ca k s)) w)" by blast
  obtain the_slug where slug: "performs s (store_slug s data) w4 (case the_slug of None \<Rightarrow> [] | Some t \<Rightarrow> [(Slug, utf8 t)])"
    using performs_store_slug [OF assms] by blast
  have ca: "performs s (store_ca s data) w1 [(Ca, utf8 ?ca)]" for w1
    unfolding store_ca_def using performs_save_field [OF assms, of Ca] by (intro performs_lift) simp
  have ca_text: "t = ?ca" if "store_ca s data w1 = (Inr t, w2)" for t w1 w2
    using that saved_text by (auto simp: store_ca_def andthen_Inr lift_result_def)
  have "performs s (andthen (store_certificate s data) (\<lambda>_. andthen (store_ca s data) (pin_ca k s))) w
      ([(Cert, utf8 ?cert)] @ [(Ca, utf8 ?ca)] @ pin_write ?fp ?ca)"
  proof (rule performs_andthen)
    show "performs s (store_certificate s data) w [(Cert, utf8 ?cert)]"
      unfolding store_certificate_def using performs_save_field [OF assms, of Cert] by simp
  next
    fix a w1
    show "performs s (andthen (store_ca s data) (pin_ca k s)) w1 ([(Ca, utf8 ?ca)] @ pin_write ?fp ?ca)"
      using ca_text by (intro performs_andthen ca) (auto intro: performs_pin_ca [OF assms])
  qed
  then have "performs s (andthen (andthen (store_certificate s data) (\<lambda>_. andthen (store_ca s data) (pin_ca k s)))
      (\<lambda>_. store_slug s data)) w
      (([(Cert, utf8 ?cert)] @ [(Ca, utf8 ?ca)] @ pin_write ?fp ?ca) @ (case the_slug of None \<Rightarrow> [] | Some t \<Rightarrow> [(Slug, utf8 t)]))"
    by (rule performs_andthen) (use slug w4 in auto)
  moreover have "store_registration k s data = andthen (andthen (store_certificate s data) (\<lambda>_. andthen (store_ca s data) (pin_ca k s)))
      (\<lambda>_. store_slug s data)"
    by (simp add: store_registration_def andthen_assoc)
  ultimately show ?thesis
    by (intro exI [of _ ?cert] exI [of _ ?ca] exI [of _ the_slug]) (simp add: enrolment_plan_def)
qed

lemma register_files: "nw_files (snd (register g s csr v w)) = nw_files w"
  by (auto simp: register_def send_post_def split: sum.splits post_failure.splits)

lemma enrolment_performs:
  assumes "identity_paths_distinct s" and "\<not> (path_exists (nw_files w) (cert_path s) \<and> path_exists (nw_files w) (key_path s))"
  shows "\<exists>key cert ca the_slug. performs s (ensure_registered g k seed s) w
      (enrolment_plan (ca_fingerprints (lib_certs k)) key cert ca the_slug)"
proof -
  let ?key = "generate_keypair k seed" and ?csr = "build_csr_pem k (generate_keypair k seed)"
  let ?fp = "ca_fingerprints (lib_certs k)"
  let ?prep = "andthen (on_disk (mkdir_parent (key_path s))) (\<lambda>_. on_disk (write_bytes (key_path s) (private_key_pem k ?key)))"
  let ?ask = "andthen (resolve_bootstrap_verify g s) (register g s ?csr)"
  have e: "ensure_registered g k seed s w = andthen ?prep (\<lambda>_. andthen ?ask (store_registration k s)) w"
    unfolding ensure_registered_def Let_def andthen_assoc using assms(2) by (simp only: if_False)
  have prep: "performs s ?prep w [(Key, private_key_pem k ?key)]"
    using performs_write_bytes [OF assms(1), of Key] by (intro performs_then) (simp_all add: stored_mkdir)
  obtain r1 w1 where 1: "?prep w = (r1, w1)" by force
  obtain r2 w2 where 2: "?ask w1 = (r2, w2)" by force
  have "nw_files (snd (?ask w1)) = nw_files w1"
    using resolve_files [of g s w1] register_files by (auto simp: andthen_def split: prod.splits sum.splits)
  then have ask: "stored s (snd (?ask w1)) = stored s w1" by (rule stored_files)
  obtain cert ca the_slug where "performs s (store_registration k s (projr r2)) w2
      (drop 1 (enrolment_plan ?fp (private_key_pem k ?key) cert ca the_slug))"
    using performs_store_registration [OF assms(1)] by blast
  then have "performs s (andthen ?ask (store_registration k s)) w1
      (drop 1 (enrolment_plan ?fp (private_key_pem k ?key) cert ca the_slug))"
    using 2 ask by (intro performs_then) auto
  then have "performs s (andthen ?prep (\<lambda>_. andthen ?ask (store_registration k s))) w
     ([(Key, private_key_pem k ?key)] @ drop 1 (enrolment_plan ?fp (private_key_pem k ?key) cert ca the_slug))"
    using 1 by (intro performs_andthen [OF prep]) auto
  then show ?thesis
    using e by (intro exI [of _ "private_key_pem k ?key"] exI [of _ cert] exI [of _ ca] exI [of _ the_slug])
      (simp add: performs_def enrolment_plan_def)
qed

lemma enrolment_lives:
  assumes "identity_paths_distinct s"
  shows "lives (ca_fingerprints (lib_certs k)) (stored s w) (stored s (snd (ensure_registered g k seed s w)))"
proof (cases "path_exists (nw_files w) (cert_path s) \<and> path_exists (nw_files w) (key_path s)")
  case True
  then show ?thesis by (simp add: lives_def ensure_registered_def)
next
  case False
  then have "stored s w Key = None \<or> stored s w Cert = None"
    using disk_exists [of _ w] by (force simp: stored_def)
  with enrolment_performs [OF assms False, of g k seed] show ?thesis
    by (auto simp: lives_def performs_def intro!: r_into_rtranclp enrolsI)
qed

section \<open>Rotation\<close>

lemma read_declared: "read_pins (ca_pins_path s) (nw_files w) = Inr pins \<Longrightarrow> declared_pins (stored s w) = Some pins"
  by (auto simp: read_pins_def read_text_def read_bytes_def declared_pins_def parse_pins_def stored_def disk_def file_at_def
      path_exists_def split: if_splits sum.splits option.splits node.splits)

lemma parse_pins_text:
  assumes "finite pins" and "\<forall>f \<in> pins. f \<noteq> [] \<and> (\<forall>c \<in> set f. pin_char c)"
  shows "parse_pins (utf8 (pins_text pins)) = Some pins"
proof -
  have "read_pins p [path_text p \<mapsto> File (utf8 (pins_text pins))] = Inr pins" for p
    using assms by (intro read_pins_text) auto
  then show ?thesis
    by (auto simp: read_pins_def read_text_def read_bytes_def parse_pins_def path_exists_def split: sum.splits option.splits)
qed

lemma declared_text:
  assumes "anchored_identity fp pins i"
  shows "declared_pins i = Some pins" and "pins \<noteq> {}"
  using assms by (auto simp: anchored_identity_def declared_pins_def parse_pins_text)

lemma rotation_cases:
  assumes "rotates fp i j"
  obtains (kept) "j Ca = i Ca" "j Pins = i Pins"
  | (replaced) t where "vouched fp i t" "j Ca = Some (utf8 t)" "j Pins = i Pins \<or> fp t \<noteq> {} \<and> j Pins = Some (utf8 (pins_text (fp t)))"
  using assms
proof (cases rule: rotates.cases)
  case (1 old ca n key cert)
  show thesis
  proof (cases ca)
    case None
    with 1(1) kept show thesis by (auto simp: rotation_plan_def written_take_other)
  next
    case (Some t)
    show thesis
    proof (cases "n \<le> 2")
      case True
      with 1(1) Some kept show thesis by (auto simp: rotation_plan_def take_Cons')
    next
      case False
      with 1 Some replaced [of t] show thesis
        by (cases "n = 3") (auto simp: rotation_plan_def pin_write_def take_Cons' numeral_eq_Suc)
    qed
  qed
qed

lemma rotation_keeps_slug: "rotates fp i j \<Longrightarrow> j Slug = i Slug"
  by (cases rule: rotates.cases, assumption)
     (auto simp: rotation_plan_def pin_write_def intro!: written_take_other split: option.splits)

lemma rotation_keeps_anchor:
  assumes "rotates fp i j" and "anchored_identity fp pins i"
    and "\<And>t. finite (fp t) \<and> (\<forall>f \<in> fp t. f \<noteq> [] \<and> (\<forall>c \<in> set f. pin_char c))"
  shows "\<exists>pins'. anchored_identity fp pins' j \<and> pins \<inter> pins' \<noteq> {}"
  using assms(1)
proof (cases rule: rotation_cases)
  case kept
  with assms(2) declared_text(2) [OF assms(2)] show ?thesis
    by (intro exI [of _ pins]) (simp add: anchored_identity_def)
next
  case (replaced t)
  then have t: "fp t \<inter> pins \<noteq> {}" using declared_text [OF assms(2)] by (auto simp: vouched_def)
  from replaced(3) show ?thesis
  proof
    assume "j Pins = i Pins"
    with replaced(2) t assms(2) declared_text(2) [OF assms(2)] show ?thesis
      by (intro exI [of _ pins]) (auto simp: anchored_identity_def)
  next
    assume "fp t \<noteq> {} \<and> j Pins = Some (utf8 (pins_text (fp t)))"
    with replaced(2) t assms(3) [of t] show ?thesis
      by (intro exI [of _ "fp t"]) (auto simp: anchored_identity_def)
  qed
qed

section \<open>Keepers\<close>

text \<open>
  The contract every routine that touches the identity shares: wherever it stops, what it leaves on disk is reachable from
  what it found by the transitions of the specification. \<open>ok\<close> is what it asks of the settings.
\<close>

lemma written_mono: "i x \<noteq> None \<Longrightarrow> written ws i x \<noteq> None"
  by (induction ws arbitrary: i) auto

lemma step_mono: "enrols fp i j \<or> rotates fp i j \<Longrightarrow> i x \<noteq> None \<Longrightarrow> j x \<noteq> None"
  by (elim disjE enrols.cases rotates.cases) (metis written_mono)+

lemma lives_mono: "lives fp i j \<Longrightarrow> i x \<noteq> None \<Longrightarrow> j x \<noteq> None"
  unfolding lives_def
proof (induction rule: rtranclp_induct)
  case (step y z)
  from step_mono [OF step.hyps(2), of x] step.IH step.prems show ?case by blast
qed

lemma lives_trans: "lives fp i j \<Longrightarrow> lives fp j l \<Longrightarrow> lives fp i l"
  by (simp add: lives_def)

locale identity_keeper =
  fixes fp :: "string \<Rightarrow> string set"
    and ok :: "settings \<Rightarrow> bool"
    and run :: "settings \<Rightarrow> net_world \<Rightarrow> net_world"
  assumes follows: "ok s \<Longrightarrow> lives fp (stored s w) (stored s (run s w))"
begin

lemma nothing_deleted:
  assumes "ok s" and "disk (slot_path s x) w \<noteq> None"
  shows "disk (slot_path s x) (run s w) \<noteq> None"
  using lives_mono [OF follows [OF assms(1), of w], of x] assms(2) by (simp add: stored_def)

lemma followed_by:
  assumes "ok s" and "lives fp (stored s (run s w)) i"
  shows "lives fp (stored s w) i"
  using follows [OF assms(1), of w] assms(2) by (rule lives_trans)

end

interpretation enrolment_keeps: identity_keeper "ca_fingerprints (lib_certs k)" identity_paths_distinct
  "\<lambda>s w. snd (ensure_registered g k seed s w)" for g k seed
  by unfold_locales (rule enrolment_lives)

end
