(* ===== verification/Envelope.thy ===== *)
theory Envelope
  imports Storage
begin

text \<open>
  \<open>mtls/envelope.py\<close>: sealing a payload to a peer's public key. Base64 is the standard library's, with
  its lenient decoder (characters outside the alphabet are skipped). RSA-OAEP, AES-GCM and
  certificate parsing belong to the \<open>cryptography\<close> package; they and the JSON text format are the
  record \<open>crypto\<close>. \<open>matching_keys\<close> names what is relied on of the ciphers, that decrypting inverts encrypting under
  matching keys, and \<open>json_text\<close> what is relied on of the text format for one value, that parsing inverts printing.
\<close>

section \<open>Base64\<close>

definition b64_char :: "nat \<Rightarrow> char" where
  "b64_char n =
     (if n < 26 then char_of (65 + n) else if n < 52 then char_of (71 + n)
      else if n < 62 then char_of (n - 4) else if n = 62 then CHR ''+'' else CHR ''/'')"

definition b64_val :: "char \<Rightarrow> nat option" where
  "b64_val c =
     (let n = code c in
      if 65 \<le> n \<and> n \<le> 90 then Some (n - 65) else if 97 \<le> n \<and> n \<le> 122 then Some (n - 71)
      else if 48 \<le> n \<and> n \<le> 57 then Some (n + 4) else if n = 43 then Some 62
      else if n = 47 then Some 63 else None)"

fun b64encode :: "string \<Rightarrow> string" where
  "b64encode [] = []"
| "b64encode [a] =
     [b64_char (code a div 4), b64_char (code a mod 4 * 16), CHR ''='', CHR ''='']"
| "b64encode [a, b] =
     [b64_char (code a div 4), b64_char (code a mod 4 * 16 + code b div 16), b64_char (code b mod 16 * 4), CHR ''='']"
| "b64encode (a # b # c # s) =
     b64_char (code a div 4) # b64_char (code a mod 4 * 16 + code b div 16)
     # b64_char (code b mod 16 * 4 + code c div 64) # b64_char (code c mod 64) # b64encode s"

text \<open>
  \<open>binascii.a2b_base64\<close>: \<open>q\<close> sextets of the current quad have been read, \<open>left\<close> is what of them is
  not yet out, \<open>pads\<close> the padding characters since. Enough padding ends the text.
\<close>

fun a2b :: "nat \<Rightarrow> nat \<Rightarrow> nat \<Rightarrow> string \<Rightarrow> py_exn + string" where
  "a2b q left pads [] = (if q = 0 then Inr [] else Inl (ValueError ''Incorrect padding''))"
| "a2b q left pads (c # s) =
     (if c = CHR ''='' then
        (if 2 \<le> q \<and> 4 \<le> q + (pads + 1) then Inr []
         else a2b q left (if 2 \<le> q then pads + 1 else pads) s)
      else
        (case b64_val c of
           None \<Rightarrow> a2b q left pads s
         | Some v \<Rightarrow>
             if q = 0 then a2b 1 v 0 s
             else
               (let out = (if q = 1 then left * 4 + v div 16 else if q = 2 then left * 16 + v div 4 else left * 64 + v);
                    left' = (if q = 1 then v mod 16 else if q = 2 then v mod 4 else 0)
                in case a2b ((q + 1) mod 4) left' 0 s of
                     Inl e \<Rightarrow> Inl e | Inr r \<Rightarrow> Inr (char_of out # r))))"

definition b64decode :: "string \<Rightarrow> py_exn + string" where
  "b64decode s =
     (if list_all (\<lambda>c. code c < 128) s then a2b 0 0 0 s
      else Inl (ValueError ''string argument should contain only ASCII characters''))"

section \<open>Envelopes\<close>

record ('priv, 'pub) crypto =
  oaep_decrypt :: "'priv \<Rightarrow> string \<Rightarrow> py_exn + string"
  oaep_encrypt :: "'pub \<Rightarrow> string \<Rightarrow> string"
  gcm_decrypt :: "string \<Rightarrow> string \<Rightarrow> string \<Rightarrow> py_exn + string"
  gcm_encrypt :: "string \<Rightarrow> string \<Rightarrow> string \<Rightarrow> string"
  cert_key :: "string \<Rightarrow> py_exn + 'pub option"
  json_dumps :: "json \<Rightarrow> string"
  json_loads :: "string \<Rightarrow> py_exn + json"

definition matching_keys :: "('priv, 'pub) crypto \<Rightarrow> 'priv \<Rightarrow> 'pub \<Rightarrow> bool" where
  "matching_keys c priv pub \<longleftrightarrow>
     (\<forall>k. oaep_decrypt c priv (oaep_encrypt c pub k) = Inr k)
     \<and> (\<forall>k iv p. gcm_decrypt c k iv (gcm_encrypt c k iv p) = Inr p)"

definition json_text :: "('priv, 'pub) crypto \<Rightarrow> json \<Rightarrow> bool" where
  "json_text c v = (json_loads c (json_dumps c v) = Inr v)"

definition alg :: string where
  "alg = ''RSA-OAEP-256+A256GCM''"

text \<open>\<open>key in body\<close> for a parsed JSON body.\<close>

fun json_in :: "string \<Rightarrow> json \<Rightarrow> py_exn + bool" where
  "json_in k (JObj d) = Inr (dict_get d k \<noteq> None)"
| "json_in k (JList vs) = Inr (JStr k \<in> set vs)"
| "json_in k (JStr s) = Inr (contains s k)"
| "json_in k _ = Inl (TypeError ''argument is not iterable'')"

definition is_envelope :: "json \<Rightarrow> py_exn + bool" where
  "is_envelope body =
     (case json_in ''ek'' body of
        Inl e \<Rightarrow> Inl e
      | Inr False \<Rightarrow> Inr False
      | Inr True \<Rightarrow> json_in ''ct'' body)"

text \<open>\<open>version == 1\<close> holds of \<open>1\<close>, \<open>True\<close> and \<open>1.0\<close>.\<close>

definition is_version_1 :: "json option \<Rightarrow> bool" where
  "is_version_1 v = (v = Some (JInt 1) \<or> v = Some (JBool True) \<or> v = Some (JFloat (Fin 1)))"

definition b64_field :: "dict \<Rightarrow> string \<Rightarrow> py_exn + string" where
  "b64_field body k =
     (case dict_get body k of
        Some (JStr s) \<Rightarrow> b64decode s
      | Some _ \<Rightarrow> Inl (TypeError ''argument should be a bytes-like object or ASCII string'')
      | None \<Rightarrow> Inl (KeyError k))"

text \<open>The steps inside the \<open>try\<close>.\<close>

definition decrypt_body :: "('priv, 'pub) crypto \<Rightarrow> 'priv \<Rightarrow> dict \<Rightarrow> py_exn + string" where
  "decrypt_body c priv body =
     (case b64_field body ''ek'' of
        Inl e \<Rightarrow> Inl e
      | Inr ek \<Rightarrow>
          (case oaep_decrypt c priv ek of
             Inl e \<Rightarrow> Inl e
           | Inr key \<Rightarrow>
               (case b64_field body ''iv'' of
                  Inl e \<Rightarrow> Inl e
                | Inr iv \<Rightarrow>
                    (case b64_field body ''ct'' of
                       Inl e \<Rightarrow> Inl e
                     | Inr ct \<Rightarrow> gcm_decrypt c key iv ct))))"

definition open_envelope :: "('priv, 'pub) crypto \<Rightarrow> 'priv \<Rightarrow> dict \<Rightarrow> py_exn + json" where
  "open_envelope c priv body =
     (if \<not> is_version_1 (dict_get body ''v'') then Inl (EnvelopeError ''unsupported envelope version'')
      else if dict_get body ''alg'' \<noteq> Some (JStr alg) then Inl (EnvelopeError ''unsupported envelope algorithm'')
      else (case decrypt_body c priv body of
              Inl _ \<Rightarrow> Inl (EnvelopeError ''could not open envelope'')
            | Inr plaintext \<Rightarrow> json_loads c plaintext))"

text \<open>\<open>content_key\<close> and \<open>iv\<close> are the random bytes drawn for this envelope.\<close>

definition seal_envelope ::
  "('priv, 'pub) crypto \<Rightarrow> string \<Rightarrow> string \<Rightarrow> json \<Rightarrow> string \<Rightarrow> py_exn + dict" where
  "seal_envelope c content_key iv payload cert_pem =
     (case cert_key c cert_pem of
        Inl e \<Rightarrow> Inl e
      | Inr None \<Rightarrow> Inl (EnvelopeError ''recipient certificate does not carry an RSA key'')
      | Inr (Some pub) \<Rightarrow>
          (let ciphertext = gcm_encrypt c content_key iv (json_dumps c payload)
           in Inr [(''v'', JInt 1), (''alg'', JStr alg),
                   (''ek'', JStr (b64encode (oaep_encrypt c pub content_key))),
                   (''iv'', JStr (b64encode iv)), (''ct'', JStr (b64encode ciphertext))]))"

text \<open>\<open>load_pem\<close> is \<open>serialization.load_pem_private_key\<close>, \<open>None\<close> for a key that is not RSA.\<close>

definition load_private_key :: "(string \<Rightarrow> py_exn + 'priv option) \<Rightarrow> string \<Rightarrow> fs \<Rightarrow> py_exn + 'priv" where
  "load_private_key load_pem p fs =
     (case fst (read_bytes p fs) of
        Inl e \<Rightarrow> Inl e
      | Inr pem \<Rightarrow>
          (case load_pem pem of
             Inl e \<Rightarrow> Inl e
           | Inr None \<Rightarrow> Inl (EnvelopeError ''agent key is not an RSA key'')
           | Inr (Some key) \<Rightarrow> Inr key))"

section \<open>Lemmas\<close>

lemma code_lits [simp]: "code CHR ''+'' = 43" "code CHR ''/'' = 47" "code CHR ''='' = 61"
  by (simp_all add: code_def)

lemma code_b64_char:
  "n < 64 \<Longrightarrow> code (b64_char n) =
     (if n < 26 then 65 + n else if n < 52 then 71 + n else if n < 62 then n - 4 else if n = 62 then 43 else 47)"
  by (simp add: b64_char_def)

lemma b64_val_char: "n < 64 \<Longrightarrow> b64_val (b64_char n) = Some n"
  unfolding b64_val_def Let_def
  by (cases "n < 26"; cases "n < 52"; cases "n < 62"; cases "n = 62") (auto simp: code_b64_char)

lemma b64_char_not_pad: "n < 64 \<Longrightarrow> b64_char n \<noteq> CHR ''=''"
  using code_b64_char [of n] by (auto split: if_splits)

lemma b64_char_ascii: "n < 64 \<Longrightarrow> code (b64_char n) < 128"
  by (auto simp: code_b64_char)

lemma sextets:
  "code a div 4 < 64" "code a mod 4 * 16 + code b div 16 < 64" "code b mod 16 * 4 + code c div 64 < 64"
  "code c mod 64 < 64" "code a mod 4 * 16 < 64" "code b mod 16 * 4 < 64"
  using code_less [of a] code_less [of b] code_less [of c] by linarith+


lemma a2b_sextet:
  "v < 64 \<Longrightarrow> a2b q left pads (b64_char v # s) =
     (if q = 0 then a2b 1 v 0 s
      else let out = (if q = 1 then left * 4 + v div 16 else if q = 2 then left * 16 + v div 4 else left * 64 + v);
               left' = (if q = 1 then v mod 16 else if q = 2 then v mod 4 else 0)
           in case a2b ((q + 1) mod 4) left' 0 s of Inl e \<Rightarrow> Inl e | Inr r \<Rightarrow> Inr (char_of out # r))"
  using b64_char_not_pad [of v] b64_val_char [of v] by simp

lemma a2b_pad:
  "a2b q left pads (CHR ''='' # s) =
     (if 2 \<le> q \<and> 4 \<le> q + (pads + 1) then Inr [] else a2b q left (if 2 \<le> q then pads + 1 else pads) s)"
  by simp

lemma byte_parts [simp]:
  "code b div 16 div 16 = 0" "code b div 16 mod 16 = code b div 16"
  "code b div 64 div 4 = 0" "code b div 64 mod 4 = code b div 64"
proof -
  have "code b div 16 < 16" "code b div 64 < 4" using code_less [of b] by linarith+
  then show "code b div 16 div 16 = 0" "code b div 16 mod 16 = code b div 16"
    "code b div 64 div 4 = 0" "code b div 64 mod 4 = code b div 64" by simp_all
qed

lemma b64_reads_back: "a2b 0 left pads (b64encode s) = Inr s"
  by (induction s arbitrary: left pads rule: b64encode.induct)
     (simp_all add: a2b_sextet a2b_pad Let_def sextets del: a2b.simps(2))

lemma b64encode_ascii: "list_all (\<lambda>c. code c < 128) (b64encode s)"
  by (induction s rule: b64encode.induct) (simp_all add: b64_char_ascii sextets)

lemma b64_roundtrip: "b64decode (b64encode s) = Inr s"
  by (simp add: b64decode_def b64encode_ascii b64_reads_back)

lemma decrypt_sealed:
  assumes "matching_keys c priv pub" and "cert_key c cert = Inr (Some pub)" and "seal_envelope c ck iv payload cert = Inr env"
  shows "is_envelope (JObj env) = Inr True" and "is_version_1 (dict_get env ''v'')"
    and "dict_get env ''alg'' = Some (JStr alg)" and "decrypt_body c priv env = Inr (json_dumps c payload)"
  using assms
  by (auto simp: seal_envelope_def Let_def is_envelope_def dict_get_def is_version_1_def decrypt_body_def b64_field_def
      b64_roundtrip matching_keys_def)

lemma open_sealed:
  assumes "matching_keys c priv pub" and "cert_key c cert = Inr (Some pub)" and "json_text c payload"
    and "seal_envelope c ck iv payload cert = Inr env"
  shows "is_envelope (JObj env) = Inr True \<and> open_envelope c priv env = Inr payload"
  using decrypt_sealed [OF assms(1,2,4)] assms(3) by (simp add: open_envelope_def json_text_def)

text \<open>What is not sealed to this key is refused without saying why.\<close>

lemma open_envelope_errors:
  "open_envelope c priv body = Inl e \<Longrightarrow>
     (\<exists>m. e = EnvelopeError m) \<or> (\<exists>t. decrypt_body c priv body = Inr t \<and> json_loads c t = Inl e)"
  by (auto simp: open_envelope_def split: if_splits sum.splits)

end
