(* ===== verification/Renewal.thy ===== *)
theory Renewal
  imports Identity_Store Envelope
begin

text \<open>
  \<open>mtls/renewal.py\<close>: rotating the agent's certificate. The state is the world of the requests and files, and the
  live listener's context, which a renewal reloads in place. Time is whole microseconds; the comparison with
  \<open>renew_before_days\<close> is exact where the code divides in floating point. Every exception of the model is
  an \<open>Exception\<close>, so the last \<open>except\<close> catches it.
\<close>

section \<open>Inspecting\<close>

definition cert_not_after :: "'key cert_lib \<Rightarrow> string \<Rightarrow> fs \<Rightarrow> int option" where
  "cert_not_after k p fs =
     (case fst (read_bytes p fs) of
        Inl _ \<Rightarrow> None
      | Inr pem \<Rightarrow> (case lib_not_after k pem of Inl _ \<Rightarrow> None | Inr t \<Rightarrow> Some t))"

definition resolve_slug :: "settings \<Rightarrow> fs \<Rightarrow> py_exn + string option" where
  "resolve_slug s fs =
     (if slug s \<noteq> [] then Inr (Some (slug s))
      else if path_exists fs (slug_path s) then
        (case read_text (slug_path s) fs of
           Inl e \<Rightarrow> Inl e
         | Inr t \<Rightarrow> Inr (if strip t \<noteq> [] then Some (strip t) else None))
      else Inr None)"

section \<open>Replacing a file\<close>

text \<open>\<open>path.suffix\<close> and \<open>path.with_suffix(s)\<close> on a path's last component.\<close>

definition name_suffix :: "string \<Rightarrow> string" where
  "name_suffix name =
     (let ext = after_last CHR ''.'' name; i = length name - length ext - 1
      in if CHR ''.'' \<in> set name \<and> 0 < i \<and> ext \<noteq> [] then CHR ''.'' # ext else [])"

definition with_suffix :: "string \<Rightarrow> string \<Rightarrow> py_exn + string" where
  "with_suffix p sfx =
     (let q = path_parse p; name = path_name p; old = name_suffix name;
          stem = take (length name - length old) name
      in if name = [] then Inl (ValueError ''has an empty name'')
         else Inr (path_str (PosixPath (path_root q) (butlast (path_tail q) @ [stem @ sfx]))))"

definition tmp_path :: "string \<Rightarrow> py_exn + string" where
  "tmp_path p = with_suffix p (name_suffix (path_name p) @ ''.tmp'')"

text \<open>\<open>os.replace\<close> of a file.\<close>

definition os_replace :: "string \<Rightarrow> string \<Rightarrow> (fs, unit) proc" where
  "os_replace src dst fs =
     (case fs (path_text src) of
        Some (File c) \<Rightarrow>
          if is_dir fs (path_parse dst) then (Inl (OSError ''Is a directory''), fs)
          else if \<not> is_dir fs (path_parent (path_parse dst)) then (Inl (OSError ''No such file or directory''), fs)
          else (Inr (), (fs(path_text src := None))(path_text dst \<mapsto> File c))
      | _ \<Rightarrow> (Inl (OSError ''not a file''), fs))"

definition atomic_write :: "string \<Rightarrow> string \<Rightarrow> (fs, unit) proc" where
  "atomic_write p data =
     andthen (mkdir_parent p) (\<lambda>_.
     andthen (lift_result (tmp_path p)) (\<lambda>tmp.
     andthen (write_bytes tmp data) (\<lambda>_. os_replace tmp p)))"

section \<open>Talking to the gateway\<close>

definition renewal_verify :: "gateway \<Rightarrow> settings \<Rightarrow> fs \<Rightarrow> py_exn + verify" where
  "renewal_verify g s fs =
     (if startswith (lower (scheduler_url s)) ''https''
      then (case build_client_context (gw_lib g) s fs of Inl e \<Rightarrow> Inl e | Inr ctx \<Rightarrow> Inr (Verified_by ctx))
      else Inr Unverified)"

text \<open>
  The exceptions behind a failure are a graph, \<open>h ! i\<close> the \<open>i\<close>-th object; the walk keeps the identities it
  has seen, as the code does, so a cycle ends it. An index outside the graph is no object.
\<close>

function cert_walk :: "exn_node list \<Rightarrow> nat set \<Rightarrow> nat option \<Rightarrow> bool" where
  "cert_walk h seen None = False"
| "cert_walk h seen (Some i) =
     (if i \<in> seen \<or> length h \<le> i then False
      else if en_cert_rejection (h ! i) then True
      else cert_walk h (insert i seen) (case en_cause (h ! i) of Some j \<Rightarrow> Some j | None \<Rightarrow> en_context (h ! i)))"
  by pat_completeness auto

termination
  by (relation "measure (\<lambda>(h, seen, i). card ({..<length h} - seen))") (auto simp: card_gt_0_iff subset_iff not_le intro!: diff_less)

definition is_certificate_rejection :: "exn_node list \<Rightarrow> nat \<Rightarrow> bool" where
  "is_certificate_rejection h i = cert_walk h {} (Some i)"

text \<open>\<open>post(verify)\<close>, its errors as they leave the routine.\<close>

definition renewal_post :: "settings \<Rightarrow> dict \<Rightarrow> verify \<Rightarrow> post" where
  "renewal_post s payload v =
     \<lparr>po_verify = v, po_url = scheduler_url s @ ''/internal/agents/renew'', po_json = payload\<rparr>"

definition failure_exn :: "post_failure \<Rightarrow> py_exn" where
  "failure_exn f = (case f of Connect_failure msg _ _ \<Rightarrow> ConnectError msg | Failure e \<Rightarrow> e)"

definition plain_post :: "gateway \<Rightarrow> post \<Rightarrow> (net_world, json) proc" where
  "plain_post g p w =
     (case send_post g p w of (Inl f, w') \<Rightarrow> (Inl (failure_exn f), w') | (Inr data, w') \<Rightarrow> (Inr data, w'))"

definition post_renewal :: "gateway \<Rightarrow> settings \<Rightarrow> dict \<Rightarrow> (net_world, json) proc" where
  "post_renewal g s payload w =
     (case renewal_verify g s (nw_files w) of
        Inl e \<Rightarrow> (Inl e, w)
      | Inr Unverified \<Rightarrow> plain_post g (renewal_post s payload Unverified) w
      | Inr (Verified_by ctx) \<Rightarrow>
          (case send_post g (renewal_post s payload (Verified_by ctx)) w of
             (Inr data, w') \<Rightarrow> (Inr data, w')
           | (Inl (Failure e), w') \<Rightarrow> (Inl e, w')
           | (Inl (Connect_failure msg h i), w') \<Rightarrow>
               if \<not> is_certificate_rejection h i then (Inl (ConnectError msg), w')
               else andthen (gateway_trust_context g s)
                      (\<lambda>front. plain_post g (renewal_post s payload (Verified_by front))) w'))"

section \<open>One renewal\<close>

text \<open>The proof of possession: the request and its signature under the key on disk.\<close>

definition renewal_request :: "'key cert_lib \<Rightarrow> 'key \<Rightarrow> settings \<Rightarrow> string \<Rightarrow> (net_world, dict) proc" where
  "renewal_request k new_key s the_slug w =
     (case fst (read_bytes (key_path s) (nw_files w)) of
        Inl e \<Rightarrow> (Inl e, w)
      | Inr pem \<Rightarrow>
          (case lib_load_key k pem of
             Inl e \<Rightarrow> (Inl e, w)
           | Inr current \<Rightarrow>
               (let csr = build_csr_pem k new_key
                in case lib_sign k current (utf8 csr) of
                     Inl e \<Rightarrow> (Inl e, w)
                   | Inr signature \<Rightarrow>
                       (Inr [(''slug'', JStr the_slug), (''csrPem'', JStr csr),
                             (''signature'', JStr (b64encode signature))], w))))"

text \<open>\<open>data.get("caRootPem")\<close>; the fingerprints of whatever it is.\<close>

definition answer_ca :: "json \<Rightarrow> py_exn + json" where
  "answer_ca data =
     (case data of
        JObj d \<Rightarrow> Inr (case dict_get d ''caRootPem'' of None \<Rightarrow> JNull | Some v \<Rightarrow> v)
      | _ \<Rightarrow> Inl (AttributeError ''object has no attribute get''))"

definition json_fingerprints :: "'key cert_lib \<Rightarrow> json \<Rightarrow> string set" where
  "json_fingerprints k v = (case v of JStr t \<Rightarrow> ca_fingerprints (lib_certs k) t | _ \<Rightarrow> {})"

definition anchors_kept :: "'key cert_lib \<Rightarrow> json \<Rightarrow> string set \<Rightarrow> bool" where
  "anchors_kept k ca pinned = (pinned = {} \<or> json_fingerprints k ca \<inter> pinned \<noteq> {})"

text \<open>\<open>value.encode("utf-8")\<close>.\<close>

definition encode_text :: "json \<Rightarrow> py_exn + string" where
  "encode_text v = (case v of JStr t \<Rightarrow> Inr (utf8 t) | _ \<Rightarrow> Inl (AttributeError ''object has no attribute encode''))"

definition install_renewed :: "'key cert_lib \<Rightarrow> 'key \<Rightarrow> settings \<Rightarrow> json \<Rightarrow> json \<Rightarrow> (net_world, unit) proc" where
  "install_renewed k new_key s data ca =
     andthen (on_disk (atomic_write (key_path s) (private_key_pem k new_key))) (\<lambda>_.
     andthen (lift_result (json_index data ''certificatePem'')) (\<lambda>cert.
     andthen (lift_result (encode_text cert)) (\<lambda>cert.
     andthen (on_disk (atomic_write (cert_path s) cert)) (\<lambda>_.
       if truthy ca then
         andthen (lift_result (encode_text ca)) (\<lambda>ca_text.
         andthen (on_disk (atomic_write (ca_cert_path s) ca_text)) (\<lambda>_.
           if json_fingerprints k ca \<noteq> {} then on_disk (write_pins (ca_pins_path s) (json_fingerprints k ca)) else ret ()))
       else ret ()))))"

text \<open>
  Reloading the live listener: \<open>load_cert_chain\<close>, then \<open>load_verify_locations\<close>; a failure leaves what was
  loaded before it.
\<close>

definition hot_reload :: "tls_lib \<Rightarrow> settings \<Rightarrow> fs \<Rightarrow> ssl_context \<Rightarrow> ssl_context" where
  "hot_reload lib s fs ctx =
     (case load_cert_chain lib (cert_path s) (key_path s) fs ctx of
        Inl _ \<Rightarrow> ctx
      | Inr ctx' \<Rightarrow> (case load_cafile lib (ca_cert_path s) fs ctx' of Inl _ \<Rightarrow> ctx' | Inr ctx'' \<Rightarrow> ctx''))"

text \<open>The state of the loop: the world, and the listener's context in mTLS mode.\<close>

type_synonym renewal_state = "net_world \<times> ssl_context option"

definition rotate :: "gateway \<Rightarrow> 'key cert_lib \<Rightarrow> 'key \<Rightarrow> settings \<Rightarrow> string \<Rightarrow> (net_world, unit) proc" where
  "rotate g k new_key s the_slug =
     andthen (renewal_request k new_key s the_slug) (\<lambda>payload.
     andthen (post_renewal g s payload) (\<lambda>data.
     andthen (\<lambda>w. (read_pins (ca_pins_path s) (nw_files w), w)) (\<lambda>pinned.
     andthen (lift_result (answer_ca data)) (\<lambda>ca.
       if truthy ca \<and> \<not> anchors_kept k ca pinned
       then raise (RuntimeError ''renewal returned a CA bundle that drops every pinned trust anchor'')
       else install_renewed k new_key s data ca))))"

definition renew :: "gateway \<Rightarrow> 'key cert_lib \<Rightarrow> nat \<Rightarrow> settings \<Rightarrow> string \<Rightarrow> (renewal_state, unit) proc" where
  "renew g k seed s the_slug st =
     (case st of (w, listener) \<Rightarrow>
        (case rotate g k (generate_keypair k seed) s the_slug w of
           (Inl e, w') \<Rightarrow> (Inl e, (w', listener))
         | (Inr _, w') \<Rightarrow> (Inr (), (w', map_option (hot_reload (gw_lib g) s (nw_files w')) listener))))"

text \<open>\<open>days_left > renew_before_days\<close>, at \<open>now\<close>.\<close>

definition not_due :: "settings \<Rightarrow> int \<Rightarrow> int \<Rightarrow> bool" where
  "not_due s not_after now = (not_after - now > renew_before_days s * 86400 * 1000000)"

definition renew_if_needed ::
  "gateway \<Rightarrow> 'key cert_lib \<Rightarrow> settings \<Rightarrow> nat \<Rightarrow> int \<Rightarrow> (renewal_state, unit) proc" where
  "renew_if_needed g k s seed now st =
     (let fs = nw_files (fst st)
      in if scheduler_url s = [] then (Inr (), st)
         else if \<not> path_exists fs (cert_path s) \<or> \<not> path_exists fs (key_path s) then (Inr (), st)
         else (case cert_not_after k (cert_path s) fs of
                 None \<Rightarrow> (Inr (), st)
               | Some not_after \<Rightarrow>
                   if not_due s not_after now then (Inr (), st)
                   else (case resolve_slug s fs of
                           Inl _ \<Rightarrow> (Inr (), st)
                         | Inr None \<Rightarrow> (Inr (), st)
                         | Inr (Some the_slug) \<Rightarrow> (Inr (), snd (renew g k seed s the_slug st)))))"

text \<open>The loop sleeps \<open>renewal_interval\<close> seconds between cycles; a cycle has its randomness and its time.\<close>

definition renewal_interval :: "settings \<Rightarrow> int" where
  "renewal_interval s = max 1 (renew_check_hours s) * 3600"

fun renewal_loop :: "gateway \<Rightarrow> 'key cert_lib \<Rightarrow> settings \<Rightarrow> (nat \<times> int) list \<Rightarrow> renewal_state \<Rightarrow> renewal_state" where
  "renewal_loop g k s [] st = st"
| "renewal_loop g k s ((seed, now) # cycles) st =
     renewal_loop g k s cycles (snd (renew_if_needed g k s seed now st))"

text \<open>An exception that leads, link by link, to a rejected certificate.\<close>

definition next_link :: "exn_node \<Rightarrow> nat option" where
  "next_link n = (case en_cause n of Some j \<Rightarrow> Some j | None \<Rightarrow> en_context n)"

inductive leads_to_rejection :: "exn_node list \<Rightarrow> nat \<Rightarrow> bool" for h where
  here: "i < length h \<Longrightarrow> en_cert_rejection (h ! i) \<Longrightarrow> leads_to_rejection h i"
| there: "i < length h \<Longrightarrow> next_link (h ! i) = Some j \<Longrightarrow> leads_to_rejection h j \<Longrightarrow> leads_to_rejection h i"

inductive_simps leads_iff: "leads_to_rejection h i"

text \<open>Where \<open>atomic_write\<close> puts the new content first, and that no two of the agent's files share a path.\<close>

definition work_path :: "string \<Rightarrow> string" where
  "work_path p = (case tmp_path p of Inl _ \<Rightarrow> p | Inr t \<Rightarrow> t)"

definition renewal_paths_distinct :: "settings \<Rightarrow> bool" where
  "renewal_paths_distinct s =
     distinct (map path_text [key_path s, cert_path s, ca_cert_path s, ca_pins_path s, slug_path s,
       work_path (key_path s), work_path (cert_path s), work_path (ca_cert_path s)])"

text \<open>The last part of an installation: the answered CA, when there is one, and its pins.\<close>

abbreviation install_ca :: "'key cert_lib \<Rightarrow> settings \<Rightarrow> json \<Rightarrow> (net_world, unit) proc" where
  "install_ca k s ca \<equiv>
     (if truthy ca then
         andthen (lift_result (encode_text ca)) (\<lambda>ca_text.
         andthen (on_disk (atomic_write (ca_cert_path s) ca_text)) (\<lambda>_.
           if json_fingerprints k ca \<noteq> {} then on_disk (write_pins (ca_pins_path s) (json_fingerprints k ca)) else ret ()))
       else ret ())"

text \<open>A request of a renewal is in the clear only when the gateway's URL is.\<close>

definition renewal_authenticated :: "settings \<Rightarrow> post \<Rightarrow> bool" where
  "renewal_authenticated s p =
     (case po_verify p of
        Unverified \<Rightarrow> \<not> startswith (lower (scheduler_url s)) ''https''
      | Verified_by ctx \<Rightarrow> verifying ctx)"

abbreviation proper_renewal :: "settings \<Rightarrow> dict \<Rightarrow> post \<Rightarrow> bool" where
  "proper_renewal s payload p \<equiv> renewal_authenticated s p \<and> po_json p = payload"

text \<open>The pins on disk are \<open>pins\<close>, and the CA on disk shares one with them.\<close>

definition anchored :: "'key cert_lib \<Rightarrow> settings \<Rightarrow> string set \<Rightarrow> net_world \<Rightarrow> bool" where
  "anchored k s pins w \<longleftrightarrow>
     finite pins \<and> (\<forall>fp \<in> pins. fp \<noteq> [] \<and> (\<forall>c \<in> set fp. pin_char c))
     \<and> disk (ca_pins_path s) w = Some (utf8 (pins_text pins))
     \<and> (\<exists>ca. disk (ca_cert_path s) w = Some (utf8 ca) \<and> ca_fingerprints (lib_certs k) ca \<inter> pins \<noteq> {})"

definition sample_settings :: settings where
  "sample_settings = (default_settings ''1'')\<lparr>scheduler_url := ''http://gw''\<rparr>"

definition sample_enrolled :: net_world where
  "sample_enrolled =
     \<lparr>nw_files = [''/certs'' \<mapsto> Directory, ''/certs/agent-key.pem'' \<mapsto> File ''key 7'', ''/certs/agent.pem'' \<mapsto> File ''cert'',
        ''/certs/ca.pem'' \<mapsto> File ''ca'', ''/certs/ca-pins.txt'' \<mapsto> File (utf8 (pins_text {sha256_hex ''ca''})),
        ''/certs/agent-slug.txt'' \<mapsto> File ''a1''],
      nw_preconnects = [], nw_posts = []\<rparr>"

definition sample_cas :: "nat cert_lib" where
  "sample_cas = sample_keys\<lparr>lib_certs := \<lambda>t. if t = ''ca'' then Inr [t] else Inr []\<rparr>"

definition answering :: "dict \<Rightarrow> gateway" where
  "answering d = sample_gateway\<lparr>gw_answer := \<lambda>_ _. Inr (JObj d)\<rparr>"

text \<open>The CA an installation writes, if any.\<close>

definition new_ca :: "json \<Rightarrow> string option" where
  "new_ca ca = (case ca of JStr t \<Rightarrow> if t \<noteq> [] then Some t else None | _ \<Rightarrow> None)"

section \<open>Lemmas\<close>

lemma walk_sound: "cert_walk h seen (Some i) \<Longrightarrow> leads_to_rejection h i"
proof -
  have sound: "cert_walk h seen c \<Longrightarrow> \<exists>i. c = Some i \<and> leads_to_rejection h i" for c
    by (induction h seen c rule: cert_walk.induct)
       (auto simp: next_link_def not_le split: if_splits intro: leads_to_rejection.intros)
  show "cert_walk h seen (Some i) \<Longrightarrow> leads_to_rejection h i" by (drule sound) blast
qed

lemma closed_never_rejects:
  "leads_to_rejection h i \<Longrightarrow> i \<in> S \<Longrightarrow>
     \<forall>j \<in> S. \<not> en_cert_rejection (h ! j) \<and> (\<forall>l. next_link (h ! j) = Some l \<longrightarrow> l \<in> S) \<Longrightarrow> False"
  by (induction rule: leads_to_rejection.induct) auto

lemma walk_complete:
  "leads_to_rejection h i \<Longrightarrow> c = Some i \<Longrightarrow>
     \<forall>j \<in> seen. \<not> en_cert_rejection (h ! j) \<and> (\<forall>l. next_link (h ! j) = Some l \<longrightarrow> l \<in> seen \<or> c = Some l) \<Longrightarrow>
     cert_walk h seen c"
proof (induction h seen c arbitrary: i rule: cert_walk.induct)
  case (2 h seen i')
  then have i: "i' = i" by simp
  have new: "i \<notin> seen"
  proof
    assume "i \<in> seen"
    with 2(2) show False
      by (rule closed_never_rejects) (use 2(4) i \<open>i \<in> seen\<close> in auto)
  qed
  from 2(2) have len: "i < length h" by (auto elim: leads_to_rejection.cases)
  show ?case
  proof (cases "en_cert_rejection (h ! i)")
    case True
    with new len i show ?thesis by simp
  next
    case False
    with 2(2) obtain j where j: "next_link (h ! i) = Some j" "leads_to_rejection h j"
      by (auto elim: leads_to_rejection.cases)
    have "cert_walk h (insert i seen) (next_link (h ! i))"
      using 2(1) [of j] j 2(4) False new len i by (auto simp: next_link_def simp del: cert_walk.simps)
    with False new len i show ?thesis by (simp add: next_link_def)
  qed
qed simp

text \<open>C33: Whether an exception means that the peer's certificate was rejected is decided exactly: the walk ends on every
  graph of exceptions, cyclic ones included, and answers yes just when following each exception's cause, or
  failing that its context, arrives at a certificate verification error.\<close>

theorem certificate_rejection_exact:
  "is_certificate_rejection h i \<longleftrightarrow> leads_to_rejection h i"
  using walk_sound walk_complete [of h i "Some i" "{}"] unfolding is_certificate_rejection_def by blast

lemma quiet_request: "quiet (renewal_request k nk s sl)"
  by (auto simp: quiet_def renewal_request_def Let_def split: sum.splits)

lemma quiet_install: "quiet (install_renewed k nk s data ca)"
  by (auto simp: install_renewed_def split: if_splits intro!: quiet_andthen)

lemma plain_post_posts: "nw_posts (snd (plain_post g p w)) = nw_posts w @ [p]"
  by (auto simp: plain_post_def send_post_def split: sum.splits)

lemma verify_authenticated:
  "renewal_verify g s fs = Inr v \<Longrightarrow> renewal_authenticated s (renewal_post s payload v)"
  by (auto simp: renewal_verify_def renewal_authenticated_def renewal_post_def dest: build_client_verifying
      split: if_splits sum.splits)

interpretation renewal_peer: trusted_peer "\<lambda>w. (renewal_verify g s (nw_files w), w)"
  "\<lambda>v. renewal_authenticated s (renewal_post s payload v)" for g s payload
  by unfold_locales (auto simp: quiet_def verify_authenticated)

lemma front_post_sends:
  "sends (proper_renewal s payload) 1 (\<lambda>_. True)
     (andthen (gateway_trust_context g s) (\<lambda>front. plain_post g (renewal_post s payload (Verified_by front))))"
  using front_peer.sends_post [OF plain_post_posts, where n = 0]
  by (simp add: renewal_authenticated_def renewal_post_def)

lemma post_renewal_sends: "sends (proper_renewal s payload) 2 (\<lambda>_. True) (post_renewal g s payload)"
proof -
  have posted: "sends (proper_renewal s payload) 2 (\<lambda>_. True) (case v of
       Unverified \<Rightarrow> plain_post g (renewal_post s payload Unverified)
     | Verified_by ctx \<Rightarrow> (\<lambda>w. case send_post g (renewal_post s payload (Verified_by ctx)) w of
           (Inr data, w') \<Rightarrow> (Inr data, w')
         | (Inl (Failure e), w') \<Rightarrow> (Inl e, w')
         | (Inl (Connect_failure msg h i), w') \<Rightarrow>
             if \<not> is_certificate_rejection h i then (Inl (ConnectError msg), w')
             else andthen (gateway_trust_context g s) (\<lambda>front. plain_post g (renewal_post s payload (Verified_by front))) w'))"
    if a: "renewal_authenticated s (renewal_post s payload v)" for v
  proof (cases v)
    case Unverified
    with a show ?thesis
      using sends_one [OF plain_post_posts, where P = "proper_renewal s payload" and n = 1]
      by (simp add: renewal_post_def numeral_2_eq_2)
  next
    case (Verified_by ctx)
    let ?p = "renewal_post s payload (Verified_by ctx)"
    have p: "proper_renewal s payload ?p" using a Verified_by by (simp add: renewal_post_def)
    note front = sendsD [OF front_post_sends [where s = s and payload = payload and g = g]]
    have "\<exists>ps. nw_posts (snd (andthen (gateway_trust_context g s)
          (\<lambda>front. plain_post g (renewal_post s payload (Verified_by front))) (w\<lparr>nw_posts := nw_posts w @ [?p]\<rparr>))) = nw_posts w @ ps
        \<and> length ps \<le> 2 \<and> list_all (proper_renewal s payload) ps" for w
    proof -
      obtain ps where "nw_posts (snd (andthen (gateway_trust_context g s)
          (\<lambda>front. plain_post g (renewal_post s payload (Verified_by front))) (w\<lparr>nw_posts := nw_posts w @ [?p]\<rparr>)))
          = (nw_posts w @ [?p]) @ ps" "length ps \<le> 1" "list_all (proper_renewal s payload) ps"
        using front [of "w\<lparr>nw_posts := nw_posts w @ [?p]\<rparr>"] by auto
      with p show ?thesis by (intro exI [of _ "?p # ps"]) simp
    qed
    moreover have "\<exists>ps. nw_posts w @ [?p] = nw_posts w @ ps \<and> length ps \<le> 2 \<and> list_all (proper_renewal s payload) ps" for w
      using p by (intro exI [of _ "[?p]"]) simp
    ultimately show ?thesis
      using Verified_by by (auto simp: sends_def send_post_def split: sum.splits post_failure.splits)
  qed
  have "post_renewal g s payload = andthen (\<lambda>w. (renewal_verify g s (nw_files w), w)) (\<lambda>v. case v of
       Unverified \<Rightarrow> plain_post g (renewal_post s payload Unverified)
     | Verified_by ctx \<Rightarrow> (\<lambda>w. case send_post g (renewal_post s payload (Verified_by ctx)) w of
           (Inr data, w') \<Rightarrow> (Inr data, w')
         | (Inl (Failure e), w') \<Rightarrow> (Inl e, w')
         | (Inl (Connect_failure msg h i), w') \<Rightarrow>
             if \<not> is_certificate_rejection h i then (Inl (ConnectError msg), w')
             else andthen (gateway_trust_context g s) (\<lambda>front. plain_post g (renewal_post s payload (Verified_by front))) w'))"
    by (rule ext) (auto simp: post_renewal_def andthen_def split: sum.splits verify.splits)
  with renewal_peer.sends_under [OF posted] show ?thesis by simp
qed

lemma post_renewal_posts:
  "\<exists>ps. nw_posts (snd (post_renewal g s payload w)) = nw_posts w @ ps \<and> length ps \<le> 2
     \<and> list_all (renewal_authenticated s) ps \<and> list_all (\<lambda>p. po_json p = payload) ps"
proof -
  obtain ps where "nw_posts (snd (post_renewal g s payload w)) = nw_posts w @ ps" "length ps \<le> 2"
    "list_all (proper_renewal s payload) ps"
    using sendsD [OF post_renewal_sends [where g = g and s = s and payload = payload], where w = w] by blast
  then show ?thesis by (intro exI [of _ ps]) (simp add: list_all_iff)
qed

lemma rotate_posts: "sends (renewal_authenticated s) 2 (\<lambda>_. True) (rotate g k nk s sl)"
proof -
  have post: "sends (renewal_authenticated s) 2 (\<lambda>_. True) (post_renewal g s payload)" for payload
    using post_renewal_posts [of g s payload] unfolding sends_def by blast
  have "quiet (andthen (\<lambda>w. (read_pins (ca_pins_path s) (nw_files w), w)) (\<lambda>pinned.
     andthen (lift_result (answer_ca data)) (\<lambda>ca.
       if truthy ca \<and> \<not> anchors_kept k ca pinned
       then raise (RuntimeError ''renewal returned a CA bundle that drops every pinned trust anchor'')
       else install_renewed k nk s data ca)))" for data
    by (intro quiet_andthen) (auto simp: quiet_def [of "\<lambda>w. (_ w, w)"] quiet_install)
  then have "sends (renewal_authenticated s) (0 + (2 + 0)) (\<lambda>_. True) (rotate g k nk s sl)"
    unfolding rotate_def by (intro sends_andthen [OF sends_none [OF quiet_request]] sends_andthen [OF post] sends_none)
  then show ?thesis by (simp only: add_0 add_0_right)
qed

lemma renew_if_needed_posts:
  "\<exists>ps. nw_posts (fst (snd (renew_if_needed g k s seed now st))) = nw_posts (fst st) @ ps \<and> length ps \<le> 2
     \<and> list_all (renewal_authenticated s) ps"
proof -
  have "nw_posts (fst (snd (renew g k seed s sl st))) = nw_posts (snd (rotate g k (generate_keypair k seed) s sl (fst st)))" for sl
    by (auto simp: renew_def split: prod.splits sum.splits)
  then show ?thesis
    using sendsD [OF rotate_posts, where w = "fst st"]
    by (auto simp: renew_if_needed_def Let_def split: option.splits sum.splits)
qed

lemma write_bytes_failed: "write_bytes p c fs = (Inl e, fs') \<Longrightarrow> fs' = fs"
  by (auto simp: write_bytes_def split: if_splits)

lemma atomic_write_file:
  assumes "atomic_write p data fs = (r, fs')" and "path_text (work_path p) \<noteq> path_text p"
  shows "path_text q \<noteq> path_text p \<Longrightarrow> path_text q \<noteq> path_text (work_path p) \<Longrightarrow> file_at q fs' = file_at q fs"
    and "file_at p fs' = (if r = Inr () then Some data else file_at p fs)"
proof -
  obtain r1 fs1 where 1: "mkdir_parent p fs = (r1, fs1)" by force
  have same: "file_at q fs1 = file_at q fs" for q using mkdir_disk [OF 1] .
  have "(path_text q \<noteq> path_text p \<longrightarrow> path_text q \<noteq> path_text (work_path p) \<longrightarrow> file_at q fs' = file_at q fs1)
    \<and> file_at p fs' = (if r = Inr () then Some data else file_at p fs1)"
  proof (cases "r1 = Inr () \<and> tmp_path p = Inr (work_path p)")
    case False
    have "r \<noteq> Inr () \<and> fs' = fs1"
    proof (cases r1)
      case (Inl e)
      with 1 assms(1) show ?thesis by (auto simp: atomic_write_def andthen_def)
    next
      case (Inr u)
      with False obtain e where "tmp_path p = Inl e" by (cases "tmp_path p") (auto simp: work_path_def)
      with 1 Inr assms(1) show ?thesis by (auto simp: atomic_write_def andthen_def lift_result_def)
    qed
    then show ?thesis by simp
  next
    case True
    let ?t = "work_path p"
    obtain r2 fs2 where 2: "write_bytes ?t data fs1 = (r2, fs2)" by force
    show ?thesis
    proof (cases r2)
      case (Inl e)
      with 1 2 True assms(1) write_bytes_failed [of ?t data fs1 e fs2] show ?thesis
        by (auto simp: atomic_write_def andthen_def lift_result_def)
    next
      case (Inr u)
      with 2 have fs2: "fs2 = fs1(path_text ?t \<mapsto> File data)"
        by (auto simp: write_bytes_def split: if_splits)
      have "os_replace ?t p fs2 = (r, fs')"
        using 1 2 Inr True assms(1) by (auto simp: atomic_write_def andthen_def lift_result_def)
      then show ?thesis
        using assms(2) unfolding fs2 by (auto simp: os_replace_def file_at_def split: if_splits)
    qed
  qed
  then show "path_text q \<noteq> path_text p \<Longrightarrow> path_text q \<noteq> path_text (work_path p) \<Longrightarrow> file_at q fs' = file_at q fs"
    and "file_at p fs' = (if r = Inr () then Some data else file_at p fs)"
    using same by auto
qed

lemma atomic_write_disk:
  assumes "on_disk (atomic_write p data) w = (r, w')" and "path_text (work_path p) \<noteq> path_text p"
  shows "path_text q \<noteq> path_text p \<Longrightarrow> path_text q \<noteq> path_text (work_path p) \<Longrightarrow> disk q w' = disk q w"
    and "disk p w' = (if r = Inr () then Some data else disk p w)"
  using assms(1) atomic_write_file [OF _ assms(2), of data "nw_files w" r "nw_files w'"]
  by (auto simp: on_disk_def disk_def split: prod.splits)

lemma renewal_slots:
  assumes "renewal_paths_distinct s"
  shows "identity_paths_distinct s"
    and "x \<in> {Key, Cert, Ca} \<Longrightarrow> path_text (slot_path s y) \<noteq> path_text (work_path (slot_path s x))"
  using assms by (cases y; auto simp: renewal_paths_distinct_def identity_paths_distinct_def)+

lemma performs_atomic_write:
  assumes "renewal_paths_distinct s" and "x \<in> {Key, Cert, Ca}"
  shows "performs s (on_disk (atomic_write (slot_path s x) c)) w [(x, c)]"
proof -
  obtain r w1 where 1: "on_disk (atomic_write (slot_path s x) c) w = (r, w1)" by force
  have d: "path_text (work_path (slot_path s x)) \<noteq> path_text (slot_path s x)"
    using renewal_slots(2) [OF assms, of x] by simp
  note slots = slot_paths [OF renewal_slots(1) [OF assms(1)]]
  show ?thesis
    using 1 atomic_write_disk [OF 1 d] slots renewal_slots(2) [OF assms]
    by (cases r; intro performs_one) (auto simp: stored_def)
qed

lemma encoded_text: "encode_text v = Inr c \<Longrightarrow> json_index data key = Inr v \<Longrightarrow> c = utf8 (text_at data key)"
  by (cases v) (auto simp: encode_text_def text_at_def)

lemma install_ca_performs:
  assumes "renewal_paths_distinct s"
  shows "performs s (install_ca k s ca) w
    (case new_ca ca of None \<Rightarrow> [] | Some t \<Rightarrow> (Ca, utf8 t) # pin_write (ca_fingerprints (lib_certs k)) t)"
proof (cases "\<exists>t. ca = JStr t \<and> t \<noteq> []")
  case False
  then show ?thesis
    by (cases ca) (auto simp: new_ca_def encode_text_def andthen_def lift_result_def ret_def
        intro!: performs_nothing)
next
  case True
  then obtain t where t: "ca = JStr t" "t \<noteq> []" by blast
  let ?pin = "if ca_fingerprints (lib_certs k) t \<noteq> {} then on_disk (write_pins (ca_pins_path s) (ca_fingerprints (lib_certs k) t)) else ret ()"
  have pin: "performs s ?pin w2 (pin_write (ca_fingerprints (lib_certs k)) t)" for w2
    using performs_write_pins [OF renewal_slots(1) [OF assms]]
    by (auto simp: pin_write_def ret_def intro: performs_nothing)
  have "performs s (andthen (on_disk (atomic_write (ca_cert_path s) (utf8 t))) (\<lambda>_. ?pin)) w ([(Ca, utf8 t)] @ pin_write (ca_fingerprints (lib_certs k)) t)"
    using performs_atomic_write [OF assms, of Ca "utf8 t" w] by (intro performs_andthen pin) simp
  then have "performs s (andthen (lift_result (Inr (utf8 t)))
      (\<lambda>c. andthen (on_disk (atomic_write (ca_cert_path s) c)) (\<lambda>_. ?pin))) w ((Ca, utf8 t) # pin_write (ca_fingerprints (lib_certs k)) t)"
    by (intro performs_lift) simp
  with t show ?thesis
    by (simp add: new_ca_def encode_text_def json_fingerprints_def cong: if_cong split del: if_split)
qed

lemma install_performs:
  assumes "renewal_paths_distinct s"
  shows "performs s (install_renewed k nk s data ca) w
    (rotation_plan (ca_fingerprints (lib_certs k)) (private_key_pem k nk) (text_at data ''certificatePem'') (new_ca ca))"
proof -
  let ?fp = "ca_fingerprints (lib_certs k)"
  note put = performs_atomic_write [OF assms] and ca = install_ca_performs [OF assms, where k = k and ca = ca]
  have "performs s (andthen (lift_result (json_index data ''certificatePem'')) (\<lambda>cert.
     andthen (lift_result (encode_text cert)) (\<lambda>cert.
     andthen (on_disk (atomic_write (cert_path s) cert)) (\<lambda>_. install_ca k s ca)))) w1
     ((Cert, utf8 (text_at data ''certificatePem'')) # (case new_ca ca of None \<Rightarrow> [] | Some t \<Rightarrow> (Ca, utf8 t) # pin_write ?fp t))" for w1
  proof (rule performs_lift, rule performs_lift)
    fix v c
    assume "json_index data ''certificatePem'' = Inr v" "encode_text v = Inr c"
    then have c: "c = utf8 (text_at data ''certificatePem'')" by (rule encoded_text [rotated])
    show "performs s (andthen (on_disk (atomic_write (cert_path s) c)) (\<lambda>_. install_ca k s ca)) w1
      ((Cert, utf8 (text_at data ''certificatePem'')) # (case new_ca ca of None \<Rightarrow> [] | Some t \<Rightarrow> (Ca, utf8 t) # pin_write ?fp t))"
      unfolding c using performs_andthen [OF put [of Cert "utf8 (text_at data ''certificatePem'')" w1] ca] by simp
  qed
  then have "performs s (install_renewed k nk s data ca) w ([(Key, private_key_pem k nk)] @
     ((Cert, utf8 (text_at data ''certificatePem'')) # (case new_ca ca of None \<Rightarrow> [] | Some t \<Rightarrow> (Ca, utf8 t) # pin_write ?fp t)))"
    unfolding install_renewed_def using put [of Key "private_key_pem k nk" w] by (intro performs_andthen) simp_all
  then show ?thesis by (simp add: rotation_plan_def)
qed

lemma quiet_disk_request: "snd (renewal_request k nk s sl w) = w"
  by (auto simp: renewal_request_def Let_def split: sum.splits)

lemma plain_post_answer:
  "plain_post g p w = (r, w') \<Longrightarrow> nw_files w' = nw_files w \<and> (\<forall>data. r = Inr data \<longrightarrow> gw_answer g p w = Inr data)"
  by (auto simp: plain_post_def send_post_def split: sum.splits)

lemma post_renewal_answer:
  assumes "post_renewal g s payload w = (r, w')"
  shows "nw_files w' = nw_files w \<and> (\<forall>data. r = Inr data \<longrightarrow> (\<exists>p w0. gw_answer g p w0 = Inr data))"
proof -
  have front: "nw_files w2 = nw_files w1 \<and> (\<forall>data. r2 = Inr data \<longrightarrow> (\<exists>p w0. gw_answer g p w0 = Inr data))"
    if "andthen (gateway_trust_context g s) (\<lambda>front. plain_post g (renewal_post s payload (Verified_by front))) w1 = (r2, w2)"
    for w1 w2 r2
    using that gateway_context_files [of g s w1]
    by (auto simp: andthen_def split: prod.splits sum.splits dest!: plain_post_answer)
  show ?thesis
    using assms
    by (auto simp: post_renewal_def send_post_def split: sum.splits verify.splits post_failure.splits if_splits
      dest!: plain_post_answer front)
qed

lemma disk_read: "disk p w = Some c \<Longrightarrow> read_bytes p (nw_files w) = (Inr c, nw_files w)"
  by (auto simp: disk_file read_bytes_def)

lemma read_disk: "fst (read_bytes p (nw_files w)) = Inr c \<Longrightarrow> disk p w = Some c"
  by (auto simp: disk_file read_bytes_def split: option.splits node.splits)

lemma rotate_cases:
  assumes "rotate g k nk s sl w = (r, w')"
  obtains (unchanged) e where "r = Inl e" "nw_files w' = nw_files w"
  | (installed) data ca pinned w1 p w0 where "nw_files w1 = nw_files w" "gw_answer g p w0 = Inr data"
      "read_pins (ca_pins_path s) (nw_files w) = Inr pinned" "answer_ca data = Inr ca"
      "\<not> (truthy ca \<and> \<not> anchors_kept k ca pinned)" "install_renewed k nk s data ca w1 = (r, w')"
      "\<exists>payload. renewal_request k nk s sl w = (Inr payload, w) \<and> post_renewal g s payload w = (Inr data, w1)"
proof -
  obtain r0 where 0: "renewal_request k nk s sl w = (r0, w)" using quiet_disk_request by (metis prod.collapse)
  show thesis
  proof (cases r0)
    case (Inl e)
    with 0 assms unchanged show thesis by (auto simp: rotate_def andthen_def)
  next
    case pay: (Inr payload)
    obtain r1 w1 where 1: "post_renewal g s payload w = (r1, w1)" by force
    note a = post_renewal_answer [OF 1]
    show thesis
    proof (cases r1)
      case (Inl e)
      with 0 1 pay a assms unchanged show thesis by (auto simp: rotate_def andthen_def)
    next
      case dat: (Inr data)
      with a obtain p w0 where ans: "gw_answer g p w0 = Inr data" by blast
      show thesis
      proof (cases "\<exists>pinned ca. read_pins (ca_pins_path s) (nw_files w) = Inr pinned \<and> answer_ca data = Inr ca
          \<and> \<not> (truthy ca \<and> \<not> anchors_kept k ca pinned)")
        case False
        with 0 1 pay dat a assms have "(\<exists>e. r = Inl e) \<and> w' = w1"
          by (auto simp: rotate_def andthen_def lift_result_def raise_def split: sum.splits)
        with a unchanged show thesis by blast
      next
        case True
        then obtain pinned ca where t: "read_pins (ca_pins_path s) (nw_files w) = Inr pinned" "answer_ca data = Inr ca"
          "\<not> (truthy ca \<and> \<not> anchors_kept k ca pinned)" by blast
        with 0 1 pay dat a assms have "install_renewed k nk s data ca w1 = (r, w')"
          by (auto simp: rotate_def andthen_def lift_result_def split: if_splits)
        moreover have "nw_files w1 = nw_files w" using a by blast
        ultimately show thesis using installed [of w1 p w0 data pinned ca] ans t 0 1 pay dat by auto
      qed
    qed
  qed
qed

lemma renew_if_needed_cases:
  obtains "snd (renew_if_needed g k s seed now st) = st"
  | sl na where "scheduler_url s \<noteq> []" "cert_not_after k (cert_path s) (nw_files (fst st)) = Some na"
      "\<not> not_due s na now" "resolve_slug s (nw_files (fst st)) = Inr (Some sl)"
      "snd (renew_if_needed g k s seed now st) = snd (renew g k seed s sl st)"
  by (fastforce simp: renew_if_needed_def Let_def split: option.splits sum.splits if_splits)

lemma anchored_pins: "anchored k s pins w \<Longrightarrow> read_pins (ca_pins_path s) (nw_files w) = Inr pins \<and> pins \<noteq> {}"
  unfolding anchored_def by (intro conjI read_pins_text) (auto simp: disk_file)

lemma rotate_identity:
  assumes "rotate g k nk s sl w = (r, w')" and "renewal_paths_distinct s"
  shows "stored s w' = stored s w \<or> rotates (ca_fingerprints (lib_certs k)) (stored s w) (stored s w')"
  using assms(1)
proof (cases rule: rotate_cases)
  case (unchanged e)
  then show ?thesis using stored_files by blast
next
  case (installed data ca pinned w1 p w0)
  have w1: "stored s w1 = stored s w" using installed(1) by (rule stored_files)
  obtain old where "disk (key_path s) w = Some old"
    using installed(7) by (auto simp: renewal_request_def Let_def split: sum.splits dest!: read_disk)
  then have key: "stored s w Key = Some old" by (simp add: stored_def)
  have "vouched (ca_fingerprints (lib_certs k)) (stored s w) t" if "new_ca ca = Some t" for t
    using that installed(5) read_declared [OF installed(3)]
    by (auto simp: vouched_def new_ca_def anchors_kept_def json_fingerprints_def split: json.splits if_splits)
  then have "pred_option (vouched (ca_fingerprints (lib_certs k)) (stored s w)) (new_ca ca)"
    by (cases "new_ca ca") auto
  with key install_performs [OF assms(2), of k nk data ca w1] installed(6) w1 show ?thesis
    by (auto simp: performs_def intro!: rotatesI)
qed

lemma renew_identity:
  assumes "renewal_paths_distinct s"
  shows "stored s (fst (snd (renew_if_needed g k s seed now st))) = stored s (fst st)
    \<or> rotates (ca_fingerprints (lib_certs k)) (stored s (fst st)) (stored s (fst (snd (renew_if_needed g k s seed now st))))"
proof (cases rule: renew_if_needed_cases [of g k s seed now st])
  case (2 sl na)
  obtain r w' where rot: "rotate g k (generate_keypair k seed) s sl (fst st) = (r, w')" by force
  then have "fst (snd (renew g k seed s sl st)) = w'"
    by (auto simp: renew_def split: prod.splits sum.splits)
  with rotate_identity [OF rot assms] 2(5) show ?thesis by simp
qed simp

lemma anchored_stored: "anchored k s pins w = anchored_identity (ca_fingerprints (lib_certs k)) pins (stored s w)"
  by (simp add: anchored_def anchored_identity_def stored_def)

lemma renew_keeps_anchor:
  assumes "renewal_paths_distinct s" and "anchored k s pins (fst st)"
  shows "\<exists>pins'. anchored k s pins' (fst (snd (renew_if_needed g k s seed now st))) \<and> pins \<inter> pins' \<noteq> {}"
  using renew_identity [OF assms(1), of g k seed now st]
proof
  assume "stored s (fst (snd (renew_if_needed g k s seed now st))) = stored s (fst st)"
  with assms(2) anchored_pins [OF assms(2)] show ?thesis by (auto simp: anchored_stored)
next
  assume "rotates (ca_fingerprints (lib_certs k)) (stored s (fst st)) (stored s (fst (snd (renew_if_needed g k s seed now st))))"
  from rotation_keeps_anchor [OF this] assms(2) ca_fingerprints_pins [of "lib_certs k"]
  show ?thesis unfolding anchored_stored by blast
qed

lemma renewal_lives:
  assumes "renewal_paths_distinct s"
  shows "lives (ca_fingerprints (lib_certs k)) (stored s (fst st)) (stored s (fst (renewal_loop g k s cycles st)))"
proof (induction cycles arbitrary: st)
  case (Cons c cycles)
  obtain seed now where c: "c = (seed, now)" by force
  have "lives (ca_fingerprints (lib_certs k)) (stored s (fst st)) (stored s (fst (snd (renew_if_needed g k s seed now st))))"
    using renew_identity [OF assms, of g k seed now st] by (auto simp: lives_def)
  with Cons.IH [of "snd (renew_if_needed g k s seed now st)"] c show ?case
    by (simp add: lives_def)
qed (simp add: lives_def)

interpretation renewal_keeps: identity_keeper "ca_fingerprints (lib_certs k)" renewal_paths_distinct
  "\<lambda>s w. fst (renewal_loop g k s cycles (w, listener))" for g k cycles listener
  using renewal_lives [where st = "(w, listener)" for w] by unfold_locales simp

text \<open>C2: The trust anchor is never lost or swapped. Start from pins that the CA on disk satisfies (as enrolment leaves
  them); after any number of renewal cycles against any network, and however each of them ends, the CA on disk
  still shares a certificate with the pins on disk, and those pins descend from the first ones through
  pin sets that each share a certificate with the one before.\<close>

theorem renewals_keep_an_anchor:
  assumes "renewal_paths_distinct s" and "anchored k s pins (fst st)"
  shows "\<exists>pins'. anchored k s pins' (fst (renewal_loop g k s cycles st)) \<and> (\<lambda>a b. a \<inter> b \<noteq> {})\<^sup>*\<^sup>* pins pins'"
  using assms(2)
proof (induction cycles arbitrary: st pins)
  case (Cons c cycles)
  obtain seed now where c: "c = (seed, now)" by force
  obtain pins1 where 1: "anchored k s pins1 (fst (snd (renew_if_needed g k s seed now st)))" "pins \<inter> pins1 \<noteq> {}"
    using renew_keeps_anchor [OF assms(1) Cons.prems] by blast
  obtain pins2 where 2: "anchored k s pins2 (fst (renewal_loop g k s cycles (snd (renew_if_needed g k s seed now st))))"
    "(\<lambda>a b. a \<inter> b \<noteq> {})\<^sup>*\<^sup>* pins1 pins2"
    using Cons.IH [OF 1(1)] by blast
  have "(\<lambda>a b. a \<inter> b \<noteq> {})\<^sup>*\<^sup>* pins pins2"
    using 1(2) 2(2) by (rule converse_rtranclp_into_rtranclp)
  with 2(1) c show ?case by auto
qed auto


text \<open>C30: A renewal is never sent to a peer nobody authenticated: over any number of cycles each sends at most two requests,
  every one of them under a context that requires and verifies the gateway's certificate, unless the
  gateway's URL is not https. There is no opt-out here.\<close>

theorem renewal_requests_authenticated:
  "\<exists>ps. nw_posts (fst (renewal_loop g k s cycles st)) = nw_posts (fst st) @ ps \<and> length ps \<le> 2 * length cycles
     \<and> list_all (renewal_authenticated s) ps"
proof (induction cycles arbitrary: st)
  case (Cons c cycles)
  obtain seed now where c: "c = (seed, now)" by force
  let ?st = "snd (renew_if_needed g k s seed now st)"
  obtain ps where ps: "nw_posts (fst ?st) = nw_posts (fst st) @ ps" "length ps \<le> 2" "list_all (renewal_authenticated s) ps"
    using renew_if_needed_posts by blast
  obtain qs where "nw_posts (fst (renewal_loop g k s cycles ?st)) = nw_posts (fst ?st) @ qs"
    "length qs \<le> 2 * length cycles" "list_all (renewal_authenticated s) qs"
    using Cons.IH by blast
  with ps c show ?case by (intro exI [of _ "ps @ qs"]) simp
qed simp

lemma hot_reload_identity:
  assumes "disk (cert_path s) w = Some c" "disk (key_path s) w = Some p" "chain_ok lib c p"
  shows "cx_identity (hot_reload lib s (nw_files w) ctx) = Some (c, p)"
  using assms disk_read
  by (auto simp: hot_reload_def load_cert_chain_def load_cafile_def read_file_def split: sum.splits if_splits)

lemma install_renewed_identity:
  assumes "install_renewed k nk s data ca w = (Inr (), w')" and "renewal_paths_distinct s"
  shows "\<exists>cert. json_index data ''certificatePem'' = Inr (JStr cert)
    \<and> disk (key_path s) w' = Some (private_key_pem k nk) \<and> disk (cert_path s) w' = Some (utf8 cert)"
proof -
  obtain v c where v: "json_index data ''certificatePem'' = Inr v" "encode_text v = Inr c"
    using assms(1) unfolding install_renewed_def by (auto simp: andthen_Inr lift_result_def)
  then obtain cert where cert: "json_index data ''certificatePem'' = Inr (JStr cert)"
    by (cases v) (auto simp: encode_text_def)
  have "stored s w' = written (rotation_plan (ca_fingerprints (lib_certs k)) (private_key_pem k nk)
      (text_at data ''certificatePem'') (new_ca ca)) (stored s w)"
    using install_performs [OF assms(2), of k nk data ca w] assms(1) by (simp add: performs_def)
  then have "stored s w' Key = Some (private_key_pem k nk)" "stored s w' Cert = Some (utf8 cert)"
    using cert by (auto simp: rotation_plan_def pin_write_def text_at_def split: option.splits)
  with cert show ?thesis by (simp add: stored_def)
qed

lemma renew_effect:
  assumes "renew g k seed s sl (w, listener) = (Inr (), (w', listener'))" and "renewal_paths_distinct s"
  shows "\<exists>old current sig ps data cert.
      disk (key_path s) w = Some old \<and> lib_load_key k old = Inr current
    \<and> lib_sign k current (utf8 (build_csr_pem k (generate_keypair k seed))) = Inr sig
    \<and> nw_posts w' = nw_posts w @ ps
    \<and> list_all (\<lambda>p. po_json p = [(''slug'', JStr sl), (''csrPem'', JStr (build_csr_pem k (generate_keypair k seed))),
                                  (''signature'', JStr (b64encode sig))]) ps
    \<and> json_index data ''certificatePem'' = Inr (JStr cert)
    \<and> disk (key_path s) w' = Some (private_key_pem k (generate_keypair k seed))
    \<and> disk (cert_path s) w' = Some (utf8 cert)
    \<and> (chain_ok (gw_lib g) (utf8 cert) (private_key_pem k (generate_keypair k seed)) \<longrightarrow>
         map_option cx_identity listener'
           = map_option (\<lambda>_. Some (utf8 cert, private_key_pem k (generate_keypair k seed))) listener)"
proof -
  let ?nk = "generate_keypair k seed"
  have rot: "rotate g k ?nk s sl w = (Inr (), w')"
    and l: "listener' = map_option (hot_reload (gw_lib g) s (nw_files w')) listener"
    using assms(1) by (auto simp: renew_def split: prod.splits sum.splits)
  from rot obtain data ca pinned w1 payload where
    r: "renewal_request k ?nk s sl w = (Inr payload, w)" "post_renewal g s payload w = (Inr data, w1)"
    "install_renewed k ?nk s data ca w1 = (Inr (), w')"
    by (cases rule: rotate_cases) auto
  obtain old current sig where k: "disk (key_path s) w = Some old" "lib_load_key k old = Inr current"
    "lib_sign k current (utf8 (build_csr_pem k ?nk)) = Inr sig"
    "payload = [(''slug'', JStr sl), (''csrPem'', JStr (build_csr_pem k ?nk)), (''signature'', JStr (b64encode sig))]"
    using r(1) by (auto simp: renewal_request_def Let_def split: sum.splits dest!: read_disk)
  obtain cert where c: "json_index data ''certificatePem'' = Inr (JStr cert)"
    "disk (key_path s) w' = Some (private_key_pem k ?nk)" "disk (cert_path s) w' = Some (utf8 cert)"
    using install_renewed_identity [OF r(3) assms(2)] by blast
  obtain ps where ps: "nw_posts w1 = nw_posts w @ ps" "list_all (\<lambda>p. po_json p = payload) ps"
    using post_renewal_posts [of g s payload w] r(2) by auto
  have "nw_posts w' = nw_posts w1" using quiet_install [of k ?nk s data ca] r(3) by (metis quiet_def sndI)
  moreover have "chain_ok (gw_lib g) (utf8 cert) (private_key_pem k ?nk) \<longrightarrow>
    map_option cx_identity listener' = map_option (\<lambda>_. Some (utf8 cert, private_key_pem k ?nk)) listener"
    using hot_reload_identity [OF c(3,2)] l by (auto simp: option.map_comp comp_def)
  ultimately show ?thesis using k c ps
    by (intro exI [of _ old] exI [of _ current] exI [of _ sig] exI [of _ ps] exI [of _ data] exI [of _ cert]) simp
qed


lemma sample_paths [simp]:
  "key_path sample_settings = ''/certs/agent-key.pem''" "cert_path sample_settings = ''/certs/agent.pem''"
  "ca_cert_path sample_settings = ''/certs/ca.pem''" "ca_pins_path sample_settings = ''/certs/ca-pins.txt''"
  "slug_path sample_settings = ''/certs/agent-slug.txt''" "slug sample_settings = []" "scheduler_url sample_settings = ''http://gw''"
  by (simp_all add: sample_settings_def default_settings_def)

lemma sample_distinct: "renewal_paths_distinct sample_settings" by code_simp

lemma in_certs_text: "in_certs p \<Longrightarrow> path_text p = p"
  by (simp add: in_certs_def)

lemma sample_dir: "nw_files sample_enrolled ''/certs'' = Some Directory" by (simp add: sample_enrolled_def)

lemma atomic_write_in_certs:
  assumes "fs ''/certs'' = Some Directory" and "in_certs p" and "tmp_path p = Inr t" and "in_certs t"
    and "fs p \<noteq> Some Directory" and "fs t = None" and "t \<noteq> p" and "t \<noteq> ''/certs''"
  shows "atomic_write p c fs = (Inr (), fs(p \<mapsto> File c))"
proof -
  note P = in_certs_paths [where fs = fs and p = p, OF assms(1,2)]
  note T = in_certs_paths [where fs = fs and p = t, OF assms(1,4)]
  let ?fs = "fs(t \<mapsto> File c)"
  have d: "?fs ''/certs'' = Some Directory" using assms(1,8) by simp
  note Q = in_certs_paths [where fs = ?fs and p = p, OF d assms(2)]
  have "os_replace t p ?fs = (Inr (), ?fs(t := None, p \<mapsto> File c))"
    using Q(5,6) P(2) T(2) assms(5,7) by (simp add: os_replace_def)
  moreover have "?fs(t := None, p \<mapsto> File c) = fs(p \<mapsto> File c)" using assms(6) by (auto simp: fun_eq_iff)
  ultimately show ?thesis
    using P(1) T(3) assms(3,6) by (simp add: atomic_write_def andthen_def lift_result_def)
qed

lemma sample_tmp:
  "tmp_path ''/certs/agent-key.pem'' = Inr ''/certs/agent-key.pem.tmp''" "in_certs ''/certs/agent-key.pem.tmp''"
  "tmp_path ''/certs/agent.pem'' = Inr ''/certs/agent.pem.tmp''" "in_certs ''/certs/agent.pem.tmp''"
  "tmp_path ''/certs/ca.pem'' = Inr ''/certs/ca.pem.tmp''" "in_certs ''/certs/ca.pem.tmp''"
  by code_simp+

lemmas sample_writes =
  atomic_write_in_certs [OF _ default_in_certs(1) sample_tmp(1,2)]
  atomic_write_in_certs [OF _ default_in_certs(2) sample_tmp(3,4)]
  atomic_write_in_certs [OF _ default_in_certs(3) sample_tmp(5,6)]

lemma sample_anchored: "anchored sample_cas sample_settings {sha256_hex ''ca''} sample_enrolled"
proof -
  have "utf8 ''ca'' = ''ca''" by code_simp
  moreover have f: "ca_fingerprints (lib_certs sample_cas) ''ca'' = {sha256_hex ''ca''}"
    by (simp add: ca_fingerprints_def sample_cas_def calculation)
  moreover have "disk ''/certs/ca.pem'' sample_enrolled = Some ''ca''"
    "disk ''/certs/ca-pins.txt'' sample_enrolled = Some (utf8 (pins_text {sha256_hex ''ca''}))"
    using in_certs_text [OF default_in_certs(3)] in_certs_text [OF default_in_certs(4)]
    by (simp_all add: disk_file sample_enrolled_def)
  ultimately show ?thesis
    using ca_fingerprints_pins [of "lib_certs sample_cas" "''ca''"]
    by (auto simp: anchored_def intro!: exI [of _ "''ca''"])
qed

theorem renewals_keep_an_anchor_witness:
  "anchored sample_cas sample_settings {sha256_hex ''ca''} sample_enrolled
   \<and> (\<exists>pins'. anchored sample_cas sample_settings pins'
        (fst (renewal_loop (answering [(''certificatePem'', JStr ''new''), (''caRootPem'', JStr ''ca'')]) sample_cas
                sample_settings [(8, 0), (9, 3600000000)] (sample_enrolled, None)))
      \<and> (\<lambda>a b. a \<inter> b \<noteq> {})\<^sup>*\<^sup>* {sha256_hex ''ca''} pins')"
  using sample_anchored
    renewals_keep_an_anchor [OF sample_distinct, where st = "(sample_enrolled, None)" and k = sample_cas
      and pins = "{sha256_hex ''ca''}"] by (simp del: renewal_loop.simps)


lemma sample_request:
  "renewal_request sample_cas nk sample_settings sl sample_enrolled =
     (Inr [(''slug'', JStr sl), (''csrPem'', JStr (''csr '' @ nat_str 10 nk)),
           (''signature'', JStr (b64encode (utf8 (''csr '' @ nat_str 10 nk))))], sample_enrolled)"
  using in_certs_text [OF default_in_certs(1)]
  by (simp add: renewal_request_def read_bytes_def sample_enrolled_def sample_cas_def sample_keys_def build_csr_pem_def Let_def)

lemma sample_post:
  "post_renewal (answering d) sample_settings payload w =
     (Inr (JObj d), w\<lparr>nw_posts := nw_posts w @ [renewal_post sample_settings payload Unverified]\<rparr>)"
proof -
  have "\<not> startswith (lower ''http://gw'') ''https''" by code_simp
  then show ?thesis
    by (simp add: post_renewal_def renewal_verify_def plain_post_def send_post_def answering_def)
qed

lemma sample_rotate:
  "\<exists>payload. rotate (answering [(''certificatePem'', JStr t)]) sample_cas (generate_keypair sample_cas 8) sample_settings ''a1'' sample_enrolled
     = install_renewed sample_cas (generate_keypair sample_cas 8) sample_settings (JObj [(''certificatePem'', JStr t)]) JNull
         (sample_enrolled\<lparr>nw_posts := [renewal_post sample_settings payload Unverified]\<rparr>)"
proof -
  obtain payload where q: "renewal_request sample_cas (generate_keypair sample_cas 8) sample_settings ''a1'' sample_enrolled = (Inr payload, sample_enrolled)"
    using sample_request by blast
  have p: "read_pins ''/certs/ca-pins.txt'' (nw_files sample_enrolled) = Inr {sha256_hex ''ca''}"
    using anchored_pins [OF sample_anchored] by simp
  have "nw_posts sample_enrolled = []" by (simp add: sample_enrolled_def)
  then show ?thesis
    by (intro exI [of _ payload])
      (simp add: rotate_def andthen_def q sample_post p lift_result_def answer_ca_def dict_get_def)
qed

lemma sample_renew:
  "\<exists>w'. renew (answering [(''certificatePem'', JStr t)]) sample_cas 8 sample_settings ''a1'' (sample_enrolled, l)
       = (Inr (), (w', map_option (hot_reload sample_lib sample_settings (nw_files w')) l))
     \<and> length (nw_posts w') = 1"
proof -
  obtain payload where e: "rotate (answering [(''certificatePem'', JStr t)]) sample_cas (generate_keypair sample_cas 8) sample_settings ''a1'' sample_enrolled
     = install_renewed sample_cas (generate_keypair sample_cas 8) sample_settings (JObj [(''certificatePem'', JStr t)]) JNull
         (sample_enrolled\<lparr>nw_posts := [renewal_post sample_settings payload Unverified]\<rparr>)"
    using sample_rotate by blast
  let ?w = "sample_enrolled\<lparr>nw_posts := [renewal_post sample_settings payload Unverified]\<rparr>"
  have "\<exists>w'. install_renewed sample_cas (generate_keypair sample_cas 8) sample_settings (JObj [(''certificatePem'', JStr t)]) JNull ?w
     = (Inr (), w')"
    by (simp add: install_renewed_def andthen_def on_disk_def sample_writes sample_enrolled_def json_index_def dict_get_def
        lift_result_def encode_text_def ret_def)
  then obtain w' where i: "install_renewed sample_cas (generate_keypair sample_cas 8) sample_settings (JObj [(''certificatePem'', JStr t)]) JNull ?w
     = (Inr (), w')" by blast
  then have "nw_posts w' = nw_posts ?w" using quiet_install by (metis quiet_def sndI)
  moreover have "gw_lib (answering [(''certificatePem'', JStr t)]) = sample_lib" by (simp add: answering_def sample_gateway_def)
  ultimately show ?thesis by (intro exI [of _ w']) (simp add: renew_def e i)
qed


text \<open>The key and the certificate are not replaced together: an answer without a certificate makes the renewal fail, which
  \<open>renew_if_needed\<close> hides, after the key on disk was already replaced, so the pair on disk no longer belongs
  together.\<close>

theorem failed_renewal_can_split_the_pair:
  "\<exists>w'. renew_if_needed (answering []) sample_cas sample_settings 8 0 (sample_enrolled, None) = (Inr (), (w', None))
     \<and> disk ''/certs/agent-key.pem'' sample_enrolled = Some ''key 7'' \<and> disk ''/certs/agent-key.pem'' w' = Some ''key 8''
     \<and> disk ''/certs/agent.pem'' w' = disk ''/certs/agent.pem'' sample_enrolled"
proof -
  obtain payload where q: "renewal_request sample_cas (generate_keypair sample_cas 8) sample_settings ''a1'' sample_enrolled = (Inr payload, sample_enrolled)"
    using sample_request by blast
  let ?w = "sample_enrolled\<lparr>nw_posts := nw_posts sample_enrolled @ [renewal_post sample_settings payload Unverified]\<rparr>"
  have p: "read_pins ''/certs/ca-pins.txt'' (nw_files sample_enrolled) = Inr {sha256_hex ''ca''}"
    using anchored_pins [OF sample_anchored] by simp
  have pem: "private_key_pem sample_cas (generate_keypair sample_cas 8) = ''key 8''" by code_simp
  have wr: "atomic_write ''/certs/agent-key.pem'' c (nw_files sample_enrolled)
      = (Inr (), (nw_files sample_enrolled)(''/certs/agent-key.pem'' \<mapsto> File c))" for c
    by (rule sample_writes(1)) (simp_all add: sample_enrolled_def)
  let ?w' = "?w\<lparr>nw_files := (nw_files sample_enrolled)(''/certs/agent-key.pem'' \<mapsto> File ''key 8'')\<rparr>"
  have "rotate (answering []) sample_cas (generate_keypair sample_cas 8) sample_settings ''a1'' sample_enrolled =
     (Inl (KeyError ''certificatePem''), ?w')"
    by (simp add: rotate_def andthen_def q sample_post p lift_result_def answer_ca_def dict_get_def
        install_renewed_def on_disk_def wr json_index_def pem)
  moreover have "resolve_slug sample_settings (nw_files sample_enrolled) = Inr (Some ''a1'')"
  proof -
    have "strip ''a1'' = ''a1''" "utf8_decode ''a1'' = Some ''a1''" "universal_newlines ''a1'' = ''a1''" by code_simp+
    then show ?thesis
      using in_certs_text [OF default_in_certs(5)] in_certs_paths(4) [where fs = "nw_files sample_enrolled", OF sample_dir default_in_certs(5)]
      by (simp add: resolve_slug_def read_text_def read_bytes_def sample_enrolled_def)
  qed
  moreover have "cert_not_after sample_cas ''/certs/agent.pem'' (nw_files sample_enrolled) = Some 0"
    using in_certs_text [OF default_in_certs(2)]
    by (simp add: cert_not_after_def read_bytes_def sample_enrolled_def sample_cas_def sample_keys_def)
  moreover have "path_exists (nw_files sample_enrolled) ''/certs/agent.pem''" "path_exists (nw_files sample_enrolled) ''/certs/agent-key.pem''"
    using in_certs_paths(4) [where fs = "nw_files sample_enrolled", OF sample_dir default_in_certs(1)] in_certs_paths(4) [where fs = "nw_files sample_enrolled", OF sample_dir default_in_certs(2)]
    by (simp_all add: sample_enrolled_def)
  moreover have "\<not> not_due sample_settings 0 0" by code_simp
  ultimately have "renew_if_needed (answering []) sample_cas sample_settings 8 0 (sample_enrolled, None) = (Inr (), (?w', None))"
    by (simp add: renew_if_needed_def renew_def)
  moreover have "disk ''/certs/agent-key.pem'' ?w' = Some ''key 8''" "disk ''/certs/agent-key.pem'' sample_enrolled = Some ''key 7''"
    "disk ''/certs/agent.pem'' ?w' = disk ''/certs/agent.pem'' sample_enrolled"
    using in_certs_text [OF default_in_certs(1)] in_certs_text [OF default_in_certs(2)]
    by (simp_all add: disk_def file_at_def sample_enrolled_def)
  ultimately show ?thesis by blast
qed

end
