(* ===== verification/Egress_Guard.thy ===== *)
theory Egress_Guard
  imports Ip_Address
begin

text \<open>
  \<open>services/egress_guard.py\<close>: the target-egress policy enforced at the socket layer.
  The module's thread-local flag is the record \<open>guard_local\<close>; every routine that runs
  under it works on an extension of that record. The socket functions the module
  replaces (\<open>socket.getaddrinfo\<close>, \<open>socket.socket.connect\<close>) are the operating
  system's: they are the arguments \<open>orig\<close> of the guarded versions.
\<close>

section \<open>The policy\<close>

datatype network = Net4 ip4 nat | Net6 ip6 nat

definition blocked_host_suffixes :: "string list" where
  "blocked_host_suffixes = [''railway.internal'', ''localhost'']"

definition blocked_networks :: "network list" where
  "blocked_networks =
     [Net4 0x00000000 8,
      Net4 0x0A000000 8,
      Net4 0x64400000 10,
      Net4 0x7F000000 8,
      Net4 0xA9FE0000 16,
      Net4 0xAC100000 12,
      Net4 0xC0000000 24,
      Net4 0xC0A80000 16,
      Net4 0xC6120000 15,
      Net6 1 128,
      Net6 0 128,
      Net6 0xFC000000000000000000000000000000 7,
      Net6 0xFE800000000000000000000000000000 10]"

text \<open>\<open>addr.version == net.version and addr in net\<close>.\<close>

fun addr_in :: "ip_addr \<Rightarrow> network \<Rightarrow> bool" where
  "addr_in (V4 w) (Net4 net len) = in_net4 w net len"
| "addr_in (V6 w) (Net6 net len) = in_net6 w net len"
| "addr_in _ _ = False"

definition host_is_blocked :: "string \<Rightarrow> bool" where
  "host_is_blocked host =
     (let h = rstrip_by (\<lambda>c. c = CHR ''.'') (lower (strip host))
      in if h = [] then True
         else list_ex (\<lambda>suffix. h = suffix \<or> endswith h (CHR ''.'' # suffix)) blocked_host_suffixes)"

definition addr_is_blocked :: "ip_addr \<Rightarrow> bool" where
  "addr_is_blocked addr =
     (if is_loopback addr \<or> is_link_local addr \<or> is_multicast addr
         \<or> is_unspecified addr \<or> is_reserved addr
      then True
      else list_ex (addr_in addr) blocked_networks)"

definition ip_is_blocked :: "string \<Rightarrow> bool" where
  "ip_is_blocked ip =
     (let raw = fst (partition_at CHR ''%'' ip)
      in case ip_address raw of
           None \<Rightarrow> True
         | Some addr \<Rightarrow>
             (case ipv4_mapped addr of
                Some mapped \<Rightarrow> addr_is_blocked (V4 mapped)
              | None \<Rightarrow> addr_is_blocked addr))"

section \<open>Per-thread activation\<close>

record guard_local =
  guard_on :: bool

definition is_active :: "'a guard_local_scheme \<Rightarrow> bool" where
  "is_active s = guard_on s"

definition active :: "('a guard_local_scheme, 'r) proc \<Rightarrow> ('a guard_local_scheme, 'r) proc" where
  "active body = with_cell guard_on (\<lambda>v s. s\<lparr>guard_on := v\<rparr>) True body"

section \<open>Socket-layer interception\<close>

text \<open>
  What \<open>getaddrinfo\<close> returns, a list of five-tuples whose last component is the socket
  address, and what \<open>connect\<close> is handed: an \<open>(ip, port, ...)\<close> tuple, the empty tuple, or
  something that is no tuple (an AF_UNIX path), kept as its \<open>repr\<close>.
\<close>

record addrinfo =
  ai_family :: int
  ai_kind :: int
  ai_proto :: int
  ai_canonname :: string
  ai_ip :: string
  ai_port :: int

datatype address = InetAddr string "int list" | EmptyTuple | NonTuple string

fun repr_address :: "address \<Rightarrow> string" where
  "repr_address (InetAddr ip rest) = ''('' @ [CHR 0x27] @ ip @ [CHR 0x27] @ '', '' @ join '', '' (map int_str rest) @ '')''"
| "repr_address EmptyTuple = ''()''"
| "repr_address (NonTuple r) = r"

fun address_ip :: "address \<Rightarrow> string option" where
  "address_ip (InetAddr ip _) = Some ip"
| "address_ip EmptyTuple = None"
| "address_ip (NonTuple _) = None"

definition host_str :: "string option \<Rightarrow> string" where
  "host_str host = (case host of None \<Rightarrow> ''None'' | Some h \<Rightarrow> h)"

definition guarded_getaddrinfo ::
  "(string option \<Rightarrow> int \<Rightarrow> ('a guard_local_scheme, addrinfo list) proc)
     \<Rightarrow> string option \<Rightarrow> int \<Rightarrow> ('a guard_local_scheme, addrinfo list) proc" where
  "guarded_getaddrinfo orig host port =
     andthen (orig host port) (\<lambda>results s.
       if is_active s then
         (if host \<noteq> None \<and> host_is_blocked (host_str host)
          then raise (EgressBlocked (''egress refused: '' @ host_str host @ '' is a blocked internal host'')) s
          else (case find (\<lambda>r. ip_is_blocked (ai_ip r)) results of
                  Some r \<Rightarrow> raise (EgressBlocked (''egress refused: '' @ host_str host
                               @ '' resolves to blocked address '' @ ai_ip r)) s
                | None \<Rightarrow> ret results s))
       else ret results s)"

definition guarded_connect ::
  "(address \<Rightarrow> ('a guard_local_scheme, 'r) proc) \<Rightarrow> address \<Rightarrow> ('a guard_local_scheme, 'r) proc" where
  "guarded_connect orig addr s =
     (if is_active s
         \<and> (case address_ip addr of None \<Rightarrow> True | Some ip \<Rightarrow> ip_is_blocked ip)
      then raise (EgressBlocked (''egress refused: blocked connect target '' @ repr_address addr)) s
      else orig addr s)"

text \<open>
  Monkeypatching: a slot of the \<open>socket\<close> module is the list of wrappers around the
  system function, outermost first. \<open>install\<close> saves what it finds as the function to call
  through to, so it adds one wrapper around the present contents, and only once.
\<close>

datatype layer = GuardLayer | ProgressLayer

record socket_module =
  getaddrinfo_slot :: "layer list"
  connect_slot :: "layer list"
  guard_installed :: bool

definition guard_install :: "'a socket_module_scheme \<Rightarrow> 'a socket_module_scheme" where
  "guard_install m =
     (if guard_installed m then m
      else m\<lparr>getaddrinfo_slot := GuardLayer # getaddrinfo_slot m,
             connect_slot := GuardLayer # connect_slot m,
             guard_installed := True\<rparr>)"

section \<open>The reference policy\<close>

text \<open>The refused IPv4 values as intervals.\<close>

definition v4_blocked_range :: "int \<Rightarrow> bool" where
  "v4_blocked_range n \<longleftrightarrow>
     n < 0x01000000 \<or> 0x0A000000 \<le> n \<and> n < 0x0B000000 \<or> 0x64400000 \<le> n \<and> n < 0x64800000
     \<or> 0x7F000000 \<le> n \<and> n < 0x80000000 \<or> 0xA9FE0000 \<le> n \<and> n < 0xA9FF0000
     \<or> 0xAC100000 \<le> n \<and> n < 0xAC200000 \<or> 0xC0000000 \<le> n \<and> n < 0xC0000100
     \<or> 0xC0A80000 \<le> n \<and> n < 0xC0A90000 \<or> 0xC6120000 \<le> n \<and> n < 0xC6140000
     \<or> 0xE0000000 \<le> n"

section \<open>Lemmas\<close>

lemma in_net4_iff:
  assumes "uint net mod 2 ^ (32 - len) = 0"
  shows "in_net4 ip net len \<longleftrightarrow> uint net \<le> uint ip \<and> uint ip < uint net + 2 ^ (32 - len)"
  unfolding in_net4_def using assms by (rule in_net_interval)

lemma in_net6_iff:
  assumes "uint net mod 2 ^ (128 - len) = 0"
  shows "in_net6 ip net len \<longleftrightarrow> uint net \<le> uint ip \<and> uint ip < uint net + 2 ^ (128 - len)"
  unfolding in_net6_def using assms by (rule in_net_interval)

lemma v4_blocked: "addr_is_blocked (V4 w) = v4_blocked_range (uint w)"
proof -
  have u: "0 \<le> uint w" "uint w < 2 ^ 32" using uint_lt2p [of w] by simp_all
  have z: "w = 0 \<longleftrightarrow> uint w = 0" by (simp add: word_uint_eq_iff)
  show ?thesis
    using u
    by (simp add: addr_is_blocked_def blocked_networks_def in_net4_iff z v4_blocked_range_def) linarith
qed

lemma reserved_low: "list_ex (\<lambda>(net, len). in_net6 w net len) (take 6 reserved_networks6)
    \<longleftrightarrow> uint w < 0x20000000000000000000000000000000"
  using uint_lt2p [of w] by (simp add: reserved_networks6_def in_net6_iff) linarith

lemma reserved_mid: "list_ex (\<lambda>(net, len). in_net6 w net len) (take 8 (drop 6 reserved_networks6))
    \<longleftrightarrow> 0x40000000000000000000000000000000 \<le> uint w \<and> uint w < 0xFC000000000000000000000000000000"
  using uint_lt2p [of w] by (simp add: reserved_networks6_def in_net6_iff) linarith

lemma reserved_high: "list_ex (\<lambda>(net, len). in_net6 w net len) (drop 14 reserved_networks6)
    \<longleftrightarrow> 0xFE000000000000000000000000000000 \<le> uint w \<and> uint w < 0xFE800000000000000000000000000000"
  by (simp add: reserved_networks6_def in_net6_iff)

lemma reserved6: "is_reserved (V6 w) \<longleftrightarrow>
    uint w < 0x20000000000000000000000000000000
    \<or> 0x40000000000000000000000000000000 \<le> uint w \<and> uint w < 0xFC000000000000000000000000000000
    \<or> 0xFE000000000000000000000000000000 \<le> uint w \<and> uint w < 0xFE800000000000000000000000000000"
proof -
  have "reserved_networks6 = take 6 reserved_networks6 @ take 8 (drop 6 reserved_networks6) @ drop 14 reserved_networks6"
    by (simp add: reserved_networks6_def)
  then have "is_reserved (V6 w) = list_ex (\<lambda>(net, len). in_net6 w net len)
     (take 6 reserved_networks6 @ take 8 (drop 6 reserved_networks6) @ drop 14 reserved_networks6)"
    by simp
  then show ?thesis by (simp only: list_ex_append reserved_low reserved_mid reserved_high)
qed

lemma v6_blocked: "addr_is_blocked (V6 w) \<longleftrightarrow>
   \<not> (0x20000000000000000000000000000000 \<le> uint w \<and> uint w < 0x40000000000000000000000000000000
     \<or> 0xFEC00000000000000000000000000000 \<le> uint w \<and> uint w < 0xFF000000000000000000000000000000)"
proof -
  have z: "w = 0 \<longleftrightarrow> uint w = 0"  "w = 1 \<longleftrightarrow> uint w = 1" by (simp_all add: word_uint_eq_iff)
  show ?thesis
    using uint_lt2p [of w]
    by (simp add: addr_is_blocked_def blocked_networks_def in_net6_iff z reserved6 del: is_reserved.simps) linarith
qed

lemma host_labels:
  "h = s \<or> endswith h (CHR ''.'' # s) \<longleftrightarrow> suffix (split_on CHR ''.'' s) (split_on CHR ''.'' h)"
proof
  assume "h = s \<or> endswith h (CHR ''.'' # s)"
  then show "suffix (split_on CHR ''.'' s) (split_on CHR ''.'' h)"
    by (auto simp: endswith_iff split_on_append suffix_def)
next
  assume "suffix (split_on CHR ''.'' s) (split_on CHR ''.'' h)"
  then obtain ls where ls: "split_on CHR ''.'' h = ls @ split_on CHR ''.'' s" by (auto simp: suffix_def)
  then have h: "h = join ''.'' (ls @ split_on CHR ''.'' s)" by (metis join_split_on)
  show "h = s \<or> endswith h (CHR ''.'' # s)"
  proof (cases "ls = []")
    case False
    then have "h = join ''.'' ls @ ''.'' @ s" by (simp add: h join_append)
    then show ?thesis by (auto simp: endswith_iff)
  qed (simp add: h)
qed

lemma ip_is_blocked_v4_str: "ip_is_blocked (v4_str w) = addr_is_blocked (V4 w)"
  by (simp add: ip_is_blocked_def v4_str_chars ip_address_v4_str)

lemma ip_is_blocked_mapped: "ip_is_blocked (''::ffff:'' @ v4_str w) = addr_is_blocked (V4 w)"
  using ip_address_mapped [of w] mapped_unwraps [of w]
  by (simp add: ip_is_blocked_def v4_str_chars del: ipv4_mapped.simps)

section \<open>Properties\<close>

text \<open>C14: An IPv4 target, given as a dotted quad or as the IPv4-mapped IPv6 address, is refused exactly
  when its value lies in one of ten closed ranges: 0/8, 10/8, 100.64/10, 127/8, 169.254/16, 172.16/12,
  192.0.0/24, 192.168/16, 198.18/15 and everything from 224.0.0.0 up. The mapped spelling
  never slips past the IPv4 ranges.\<close>

theorem v4_policy_exact:
  "ip_is_blocked (v4_str w) = v4_blocked_range (uint w)
   \<and> ip_is_blocked (''::ffff:'' @ v4_str w) = v4_blocked_range (uint w)"
  by (simp only: ip_is_blocked_v4_str ip_is_blocked_mapped v4_blocked)

text \<open>C15: An IPv6 address that is not IPv4-mapped is let through exactly when it is global unicast (2000::/3)
  or site-local (fec0::/10); loopback, link-local, unique-local, multicast, unspecified and every
  other reserved block are refused.\<close>

theorem v6_policy_exact:
  "addr_is_blocked (V6 w) \<longleftrightarrow>
   \<not> (in_net6 w 0x20000000000000000000000000000000 3 \<or> in_net6 w 0xFEC00000000000000000000000000000 10)"
  by (simp add: v6_blocked in_net6_iff)

text \<open>C16: A host name is refused exactly when, after trimming, lower-casing and dropping trailing
  dots, nothing is left or its last DNS labels are those of a blocked suffix: the name itself or a
  subdomain of it, and never a mere textual tail such as \<open>notlocalhost\<close>.\<close>

theorem host_policy_by_labels:
  "host_is_blocked host \<longleftrightarrow>
   (let h = rstrip_by (\<lambda>c. c = CHR ''.'') (lower (strip host))
    in h = [] \<or> suffix [''railway'', ''internal''] (split_on CHR ''.'' h)
        \<or> suffix [''localhost''] (split_on CHR ''.'' h))"
proof -
  define h where "h = rstrip_by (\<lambda>c. c = CHR ''.'') (lower (strip host))"
  have "split_on CHR ''.'' ''railway.internal'' = [''railway'', ''internal'']"
    "split_on CHR ''.'' ''localhost'' = [''localhost'']"
    by (simp_all add: split_on_def)
  with host_labels [of h "''railway.internal''"] host_labels [of h "''localhost''"]
  show ?thesis
    unfolding host_is_blocked_def h_def [symmetric]
    by (simp add: blocked_host_suffixes_def Let_def)
qed

end
