(* ===== verification/Tcp_State.thy ===== *)
theory Tcp_State
  imports Egress_Guard
begin

text \<open>
  \<open>services/tcp_state.py\<close>: the layout of the kernel's \<open>struct tcp_info\<close>, decoding it from the
  bytes \<open>getsockopt\<close> returns, the loss test, the verdict drawn from it, and the witness \<open>reach\<close>.
  The kernel and the network are arguments: the result of duplicating a descriptor and of
  \<open>getsockopt\<close>, the outcome of resolving, connecting and shaking hands. Sizes and alignments
  are those of the 64-bit Linux ABIs; the byte order is the argument \<open>little\<close>.
\<close>

section \<open>The layout of struct tcp_info\<close>

datatype fmt = B | I | Q

fun fmt_size :: "fmt \<Rightarrow> nat" where
  "fmt_size B = 1"
| "fmt_size I = 4"
| "fmt_size Q = 8"

text \<open>\<open>struct.calcsize\<close> of a native format: each item aligned to its size, no padding at the end.\<close>

definition align_up :: "nat \<Rightarrow> nat \<Rightarrow> nat" where
  "align_up off a = (off + a - 1) div a * a"

definition calcsize :: "fmt list \<Rightarrow> nat" where
  "calcsize fs = foldl (\<lambda>off c. align_up off (fmt_size c) + fmt_size c) 0 fs"

definition tcp_fields :: "(string \<times> fmt) list" where
  "tcp_fields =
     map (\<lambda>n. (n, B))
       [''state'', ''ca_state'', ''retransmits'', ''probes'', ''backoff'', ''options'', ''wscale'', ''flags'']
     @ map (\<lambda>n. (n, I))
       [''rto'', ''ato'', ''snd_mss'', ''rcv_mss'', ''unacked'', ''sacked'', ''lost'', ''retrans'', ''fackets'',
        ''last_data_sent'', ''last_ack_sent'', ''last_data_recv'', ''last_ack_recv'',
        ''pmtu'', ''rcv_ssthresh'', ''rtt'', ''rttvar'', ''snd_ssthresh'', ''snd_cwnd'', ''advmss'', ''reordering'',
        ''rcv_rtt'', ''rcv_space'', ''total_retrans'']
     @ map (\<lambda>n. (n, Q)) [''pacing_rate'', ''max_pacing_rate'', ''bytes_acked'', ''bytes_received'']
     @ map (\<lambda>n. (n, I))
       [''segs_out'', ''segs_in'', ''notsent_bytes'', ''min_rtt'', ''data_segs_in'', ''data_segs_out'']
     @ map (\<lambda>n. (n, Q)) [''delivery_rate'', ''busy_time'', ''rwnd_limited'', ''sndbuf_limited'']
     @ map (\<lambda>n. (n, I)) [''delivered'', ''delivered_ce'']
     @ map (\<lambda>n. (n, Q)) [''bytes_sent'', ''bytes_retrans'']
     @ map (\<lambda>n. (n, I)) [''dsack_dups'', ''reord_seen'', ''rcv_ooopack'']"

fun offsets_from :: "fmt list \<Rightarrow> (string \<times> fmt) list \<Rightarrow> (string \<times> nat \<times> fmt) list" where
  "offsets_from fs [] = []"
| "offsets_from fs ((name, c) # rest) =
     (name, calcsize (fs @ [c]) - calcsize [c], c) # offsets_from (fs @ [c]) rest"

definition offsets :: "(string \<times> nat \<times> fmt) list" where
  "offsets = offsets_from [] tcp_fields"

definition tcp_info_size :: nat where
  "tcp_info_size = Max (set (map (\<lambda>(_, start, c). start + fmt_size c) offsets))"

section \<open>Decoding\<close>

type_synonym byte = "8 word"

definition unpack_int :: "bool \<Rightarrow> byte list \<Rightarrow> int" where
  "unpack_int little bs =
     foldr (\<lambda>b acc. uint b + 256 * acc) (if little then bs else rev bs) 0"

text \<open>\<open>struct.unpack_from\<close> of one field, or \<open>None\<close> where the kernel filled less.\<close>

definition field_at :: "bool \<Rightarrow> byte list \<Rightarrow> string \<Rightarrow> int option" where
  "field_at little raw name =
     (case map_of offsets name of
        None \<Rightarrow> None
      | Some (start, c) \<Rightarrow>
          if start + fmt_size c \<le> length raw
          then Some (unpack_int little (take (fmt_size c) (drop start raw)))
          else None)"

definition kept_fields :: "string list" where
  "kept_fields =
     [''state'', ''retransmits'', ''backoff'', ''unacked'', ''lost'', ''total_retrans'', ''rtt'', ''min_rtt'',
      ''last_data_recv'', ''last_ack_recv'', ''bytes_received'', ''data_segs_in'', ''rcv_ooopack'', ''dsack_dups'']"

definition microsecond_fields :: "string list" where
  "microsecond_fields = [''rtt'', ''min_rtt'']"

definition state_names :: "(int \<times> string) list" where
  "state_names =
     [(1, ''established''), (2, ''syn_sent''), (4, ''fin_wait1''), (7, ''close''), (8, ''close_wait'')]"

definition int_or_null :: "int option \<Rightarrow> json" where
  "int_or_null v = (case v of None \<Rightarrow> JNull | Some i \<Rightarrow> JInt i)"

definition decode_field :: "bool \<Rightarrow> byte list \<Rightarrow> string \<Rightarrow> json" where
  "decode_field little raw name =
     (let v = field_at little raw name;
          v = (if name \<in> set microsecond_fields then map_option (\<lambda>i. i div 1000) v else v)
      in if name = ''state''
         then (case v of
                 None \<Rightarrow> JNull
               | Some i \<Rightarrow> (case map_of state_names i of Some n \<Rightarrow> JStr n | None \<Rightarrow> JInt i))
         else int_or_null v)"

definition decode :: "bool \<Rightarrow> byte list \<Rightarrow> dict" where
  "decode little raw = map (\<lambda>name. (name, decode_field little raw name)) kept_fields"

text \<open>
  \<open>read(fd)\<close>: \<open>available\<close> says whether the platform has \<open>TCP_INFO\<close>; \<open>fromfd\<close> and \<open>getsockopt\<close> are
  the system calls, \<open>None\<close> for \<open>OSError\<close>.
\<close>

definition tcp_read ::
  "bool \<Rightarrow> bool \<Rightarrow> (int \<Rightarrow> int option) \<Rightarrow> (int \<Rightarrow> nat \<Rightarrow> byte list option) \<Rightarrow> int \<Rightarrow> dict option" where
  "tcp_read available little fromfd getsockopt fd =
     (if \<not> available \<or> fd < 0 then None
      else (case fromfd fd of
              None \<Rightarrow> None
            | Some dup \<Rightarrow>
                (case getsockopt dup tcp_info_size of
                   None \<Rightarrow> None
                 | Some raw \<Rightarrow> Some (decode little raw))))"

section \<open>Loss and verdict\<close>

definition get_count :: "dict \<Rightarrow> string \<Rightarrow> int" where
  "get_count tcp k = (case dict_get tcp k of Some (JInt i) \<Rightarrow> i | _ \<Rightarrow> 0)"

definition get_optional :: "dict \<Rightarrow> string \<Rightarrow> int option" where
  "get_optional tcp k = (case dict_get tcp k of Some (JInt i) \<Rightarrow> Some i | _ \<Rightarrow> None)"

definition ooo_min :: int where
  "ooo_min = 2"

text \<open>
  \<open>ooo >= segs * 0.01\<close>: one percent, in exact arithmetic. (For counters of at most 32 bits the
  rounded product decides the same way.)
\<close>

definition lossy :: "dict \<Rightarrow> bool option" where
  "lossy tcp =
     (if 0 < get_count tcp ''total_retrans'' \<or> 0 < get_count tcp ''retransmits'' then Some True
      else (case get_optional tcp ''rcv_ooopack'' of
              None \<Rightarrow> None
            | Some ooo \<Rightarrow>
                let segs = get_count tcp ''data_segs_in''
                in Some (ooo_min \<le> ooo \<and> segs \<le> 100 * ooo)))"

datatype phase =
    Starting | Between_requests | Resolving | Connecting | Tls_handshake
  | Sending | Awaiting_response | Receiving | Storing_bodies

fun phase_name :: "phase \<Rightarrow> string" where
  "phase_name Starting = ''starting''"
| "phase_name Between_requests = ''between_requests''"
| "phase_name Resolving = ''resolving''"
| "phase_name Connecting = ''connecting''"
| "phase_name Tls_handshake = ''tls_handshake''"
| "phase_name Sending = ''sending''"
| "phase_name Awaiting_response = ''awaiting_response''"
| "phase_name Receiving = ''receiving''"
| "phase_name Storing_bodies = ''storing_bodies''"

definition wire_phases :: "phase list" where
  "wire_phases = [Connecting, Tls_handshake, Sending, Awaiting_response, Receiving]"

definition agent_phases :: "phase list" where
  "agent_phases = [Between_requests, Storing_bodies]"

datatype verdict = Endpoint | Unknown | Network | Agent

fun verdict_name :: "verdict \<Rightarrow> string" where
  "verdict_name Endpoint = ''endpoint''"
| "verdict_name Unknown = ''unknown''"
| "verdict_name Network = ''network''"
| "verdict_name Agent = ''agent''"

definition judge :: "phase \<Rightarrow> dict option \<Rightarrow> verdict \<times> string" where
  "judge ph tcp =
     (if ph \<in> set agent_phases then (Agent, ''the run was in the agent's own work, outside any request'')
      else if ph = Resolving then (Network, ''the name did not resolve'')
      else (case tcp of
              None \<Rightarrow> (Unknown, ''no connection state to judge by'')
            | Some t \<Rightarrow>
                if ph \<notin> set wire_phases then (Unknown, ''no connection state to judge by'')
                else if ph = Connecting \<or> dict_get t ''state'' = Some (JStr ''syn_sent'')
                then (Network, ''the connection was never accepted'')
                else if lossy t = Some True then (Network, ''the path was losing packets'')
                else if lossy t = None then (Unknown, ''this kernel does not report receive-side loss'')
                else if 0 < get_count t ''unacked''
                then (Unknown, ''the last data sent was not yet acknowledged'')
                else (Endpoint, ''the endpoint acknowledged everything sent and the path lost nothing'')))"

section \<open>The witness: reach\<close>

text \<open>
  What \<open>reach\<close> asks of the system: resolving, one socket's connect and TLS handshake, the TCP
  state of the socket it holds, closing it, and the clock. \<open>'s\<close> is the state of that world.
\<close>

record 's reach_ops =
  op_resolve :: "string \<Rightarrow> int \<Rightarrow> ('s, addrinfo list) proc"
  op_socket :: "addrinfo \<Rightarrow> 's \<Rightarrow> 's"
  op_connect :: "addrinfo \<Rightarrow> ('s, unit) proc"
  op_handshake :: "string \<Rightarrow> ('s, unit) proc"
  op_tcp :: "'s \<Rightarrow> dict option"
  op_close :: "'s \<Rightarrow> 's"
  op_clock :: "'s \<Rightarrow> int"

record attempt =
  at_connect_ms :: "int option"
  at_tls_ms :: "int option"
  at_tcp :: "dict option"
  at_error :: "string option"

datatype path = Clean | Lossy | Unreachable | Refused

fun path_name :: "path \<Rightarrow> string" where
  "path_name Clean = ''clean''"
| "path_name Lossy = ''lossy''"
| "path_name Unreachable = ''unreachable''"
| "path_name Refused = ''refused''"

definition blank_attempt :: attempt where
  "blank_attempt = \<lparr>at_connect_ms = None, at_tls_ms = None, at_tcp = None, at_error = None\<rparr>"

definition error_text :: "py_exn \<Rightarrow> string" where
  "error_text e = (if exn_text e = [] then exn_name e else exn_text e)"

text \<open>
  One pass of the loop body. \<open>Inl\<close> is an exception that leaves the loop (\<open>EgressBlocked\<close> among
  them, handled by the caller), \<open>Inr (path, attempt)\<close> the new value of \<open>path\<close> and the attempt's
  record. \<open>finally\<close> closes the socket on every way out. A failed handshake has already detached
  the descriptor from \<open>sock\<close>, so its \<open>fileno()\<close> is -1 and no state can be read.
\<close>

definition failed_attempt ::
  "'s reach_ops \<Rightarrow> attempt \<Rightarrow> dict option \<Rightarrow> py_exn \<Rightarrow> ('s, path \<times> attempt) proc" where
  "failed_attempt ops att tcp e s =
     (case e of
        EgressBlocked m \<Rightarrow> (Inl e, op_close ops s)
      | _ \<Rightarrow>
          if is_os_error e
          then (Inr (Unreachable, att\<lparr>at_error := Some (error_text e), at_tcp := tcp\<rparr>), op_close ops s)
          else (Inl e, op_close ops s))"

definition finish_attempt :: "'s reach_ops \<Rightarrow> path \<Rightarrow> attempt \<Rightarrow> ('s, path \<times> attempt) proc" where
  "finish_attempt ops path att s =
     (let tcp = op_tcp ops s;
          path' = (case tcp of
                     None \<Rightarrow> path
                   | Some t \<Rightarrow> if lossy t = Some True then Lossy else path)
      in (Inr (path', att\<lparr>at_tcp := tcp\<rparr>), op_close ops s))"

definition reach_attempt ::
  "'s reach_ops \<Rightarrow> string \<Rightarrow> bool \<Rightarrow> addrinfo \<Rightarrow> path \<Rightarrow> ('s, path \<times> attempt) proc" where
  "reach_attempt ops host use_tls info path s =
     (let s0 = op_socket ops info s in
      case op_connect ops info s0 of
        (Inl e, s1) \<Rightarrow> failed_attempt ops blank_attempt (op_tcp ops s1) e s1
      | (Inr _, s1) \<Rightarrow>
          (let att = blank_attempt\<lparr>at_connect_ms := Some (ms_between (op_clock ops s0) (op_clock ops s1))\<rparr> in
           if use_tls
           then (case op_handshake ops host s1 of
                   (Inl e, s2) \<Rightarrow> failed_attempt ops att None e s2
                 | (Inr _, s2) \<Rightarrow>
                     finish_attempt ops path
                       (att\<lparr>at_tls_ms := Some (ms_between (op_clock ops s1) (op_clock ops s2))\<rparr>) s2)
           else finish_attempt ops path att s1))"

fun reach_loop ::
  "'s reach_ops \<Rightarrow> string \<Rightarrow> bool \<Rightarrow> addrinfo \<Rightarrow> nat \<Rightarrow> path \<Rightarrow> attempt list
     \<Rightarrow> 's \<Rightarrow> ((py_exn \<times> attempt list) + (path \<times> attempt list)) \<times> 's" where
  "reach_loop ops host use_tls info 0 path results s = (Inr (path, results), s)"
| "reach_loop ops host use_tls info (Suc n) path results s =
     (case reach_attempt ops host use_tls info path s of
        (Inl e, s') \<Rightarrow> (Inl (e, results), s')
      | (Inr (path', att), s') \<Rightarrow>
          if path' = Unreachable then (Inr (path', results @ [att]), s')
          else reach_loop ops host use_tls info n path' (results @ [att]) s')"

fun opt_field :: "string \<Rightarrow> int option \<Rightarrow> dict" where
  "opt_field k None = []"
| "opt_field k (Some i) = [(k, JInt i)]"

definition dict_or_null :: "dict option \<Rightarrow> json" where
  "dict_or_null d = (case d of None \<Rightarrow> JNull | Some d \<Rightarrow> JObj d)"

definition attempt_json :: "attempt \<Rightarrow> json" where
  "attempt_json a =
     JObj (opt_field ''connectMs'' (at_connect_ms a) @ opt_field ''tlsMs'' (at_tls_ms a)
           @ (case at_error a of None \<Rightarrow> [] | Some e \<Rightarrow> [(''error'', JStr e)])
           @ [(''tcp'', dict_or_null (at_tcp a))])"

definition refused_answer :: "string \<Rightarrow> attempt list \<Rightarrow> dict" where
  "refused_answer m atts =
     [(''path'', JStr (path_name Refused)), (''error'', JStr m), (''attempts'', JList (map attempt_json atts))]"

definition reach ::
  "'s reach_ops \<Rightarrow> nat \<Rightarrow> string \<Rightarrow> int \<Rightarrow> bool \<Rightarrow> ('s, dict) proc" where
  "reach ops attempts host port use_tls s =
     (case op_resolve ops host port s of
        (Inl (EgressBlocked m), s1) \<Rightarrow> (Inr (refused_answer m []), s1)
      | (Inl e, s1) \<Rightarrow>
          if is_os_error e
          then (Inr [(''path'', JStr (path_name Unreachable)),
                     (''error'', JStr (''name did not resolve: '' @ exn_text e)), (''attempts'', JList [])], s1)
          else (Inl e, s1)
      | (Inr [], s1) \<Rightarrow> (Inl (IndexError ''list index out of range''), s1)
      | (Inr (info # _), s1) \<Rightarrow>
          (case reach_loop ops host use_tls info attempts Clean [] s1 of
             (Inl (EgressBlocked m, results), s2) \<Rightarrow> (Inr (refused_answer m results), s2)
           | (Inl (e, _), s2) \<Rightarrow> (Inl e, s2)
           | (Inr (path, results), s2) \<Rightarrow>
               (Inr [(''path'', JStr (path_name path)), (''address'', JStr (ai_ip info)),
                     (''dnsMs'', JInt (ms_between (op_clock ops s) (op_clock ops s1))),
                     (''attempts'', JList (map attempt_json results))], s2)))"

section \<open>Reference definitions\<close>

text \<open>A kernel structure filled from field values, each at its width.\<close>

fun int_bytes :: "nat \<Rightarrow> int \<Rightarrow> byte list" where
  "int_bytes 0 v = []"
| "int_bytes (Suc n) v = word_of_int v # int_bytes n (v div 256)"

definition field_bytes :: "bool \<Rightarrow> (string \<Rightarrow> int) \<Rightarrow> string \<times> fmt \<Rightarrow> byte list" where
  "field_bytes little vals f =
     (let bs = int_bytes (fmt_size (snd f)) (vals (fst f)) in if little then bs else rev bs)"

definition kernel_bytes :: "bool \<Rightarrow> (string \<Rightarrow> int) \<Rightarrow> byte list" where
  "kernel_bytes little vals = concat (map (field_bytes little vals) tcp_fields)"

text \<open>Fields one after the other with no padding, from offset \<open>k\<close>.\<close>

fun dense_layout :: "nat \<Rightarrow> (string \<times> fmt) list \<Rightarrow> (string \<times> nat \<times> fmt) list" where
  "dense_layout k [] = []"
| "dense_layout k ((name, c) # rest) = (name, k, c) # dense_layout (k + fmt_size c) rest"

text \<open>What a list of attempts says of the path, with no loop and no flag.\<close>

definition path_of :: "attempt list \<Rightarrow> path" where
  "path_of atts =
     (if \<exists>a \<in> set atts. at_error a \<noteq> None then Unreachable
      else if \<exists>a \<in> set atts. \<exists>t. at_tcp a = Some t \<and> lossy t = Some True then Lossy
      else Clean)"

lemma offsets_eq: "offsets =
    [(''state'', 0, B), (''ca_state'', 1, B), (''retransmits'', 2, B), (''probes'', 3, B),
     (''backoff'', 4, B), (''options'', 5, B), (''wscale'', 6, B), (''flags'', 7, B),
     (''rto'', 8, I), (''ato'', 12, I), (''snd_mss'', 16, I), (''rcv_mss'', 20, I),
     (''unacked'', 24, I), (''sacked'', 28, I), (''lost'', 32, I), (''retrans'', 36, I),
     (''fackets'', 40, I), (''last_data_sent'', 44, I), (''last_ack_sent'', 48, I),
     (''last_data_recv'', 52, I), (''last_ack_recv'', 56, I), (''pmtu'', 60, I),
     (''rcv_ssthresh'', 64, I), (''rtt'', 68, I), (''rttvar'', 72, I), (''snd_ssthresh'', 76, I),
     (''snd_cwnd'', 80, I), (''advmss'', 84, I), (''reordering'', 88, I), (''rcv_rtt'', 92, I),
     (''rcv_space'', 96, I), (''total_retrans'', 100, I), (''pacing_rate'', 104, Q),
     (''max_pacing_rate'', 112, Q), (''bytes_acked'', 120, Q), (''bytes_received'', 128, Q),
     (''segs_out'', 136, I), (''segs_in'', 140, I), (''notsent_bytes'', 144, I),
     (''min_rtt'', 148, I), (''data_segs_in'', 152, I), (''data_segs_out'', 156, I),
     (''delivery_rate'', 160, Q), (''busy_time'', 168, Q), (''rwnd_limited'', 176, Q),
     (''sndbuf_limited'', 184, Q), (''delivered'', 192, I), (''delivered_ce'', 196, I),
     (''bytes_sent'', 200, Q), (''bytes_retrans'', 208, Q), (''dsack_dups'', 216, I),
     (''reord_seen'', 220, I), (''rcv_ooopack'', 224, I)]"
  by (simp add: offsets_def tcp_fields_def calcsize_def align_up_def)

lemma tcp_info_size_eq: "tcp_info_size = 228"
  by (simp add: tcp_info_size_def offsets_eq)

lemma length_int_bytes [simp]: "length (int_bytes n v) = n"
  by (induction n arbitrary: v) auto

lemma unpack_int_bytes:
  "foldr (\<lambda>b acc. uint b + 256 * acc) (int_bytes n v) 0 = v mod 256 ^ n"
proof (induction n arbitrary: v)
  case (Suc n)
  have "v mod (256 * 256 ^ n) = 256 * (v div 256 mod 256 ^ n) + v mod 256"
    by (rule zmod_zmult2_eq) simp
  then show ?case using Suc by (simp add: uint_word_of_int)
qed simp

lemma offsets_dense: "offsets = dense_layout 0 tcp_fields"
  by (simp add: offsets_eq tcp_fields_def)

lemma length_field_bytes [simp]: "length (field_bytes little vals f) = fmt_size (snd f)"
  by (simp add: field_bytes_def Let_def)

lemma dense_field:
  "map_of (dense_layout k fs) name = Some (start, c) \<Longrightarrow>
   k \<le> start \<and> start + fmt_size c \<le> k + length (concat (map (field_bytes little vals) fs))
   \<and> take (fmt_size c) (drop (start - k) (concat (map (field_bytes little vals) fs)))
     = field_bytes little vals (name, c)"
proof (induction fs arbitrary: k)
  case (Cons f fs)
  obtain n c' where f: "f = (n, c')" by (cases f)
  show ?case
  proof (cases "n = name")
    case True
    with Cons.prems f show ?thesis by simp
  next
    case False
    with Cons.prems f have "map_of (dense_layout (k + fmt_size c') fs) name = Some (start, c)" by simp
    from Cons.IH [OF this] f show ?thesis by (auto simp: drop_Cons' )
  qed
qed simp

lemma length_kernel_bytes: "length (kernel_bytes little vals) = 228"
  by (simp add: kernel_bytes_def tcp_fields_def length_concat)

lemma unpack_field_bytes:
  "unpack_int little (field_bytes little vals (name, c)) = vals name mod 256 ^ fmt_size c"
  by (simp add: unpack_int_def field_bytes_def unpack_int_bytes Let_def)

section \<open>Properties\<close>

text \<open>Decoding is exact for every kernel. From a structure filled with any field values and cut
  at any length \<open>n\<close> (an older kernel returns a shorter one), a field that fits is read back as its
  value at its width, in either byte order, and a field past the end as absent.\<close>

theorem field_at_truncated:
  "field_at little (take n (kernel_bytes little vals)) name =
     (case map_of offsets name of
        None \<Rightarrow> None
      | Some (start, c) \<Rightarrow>
          if start + fmt_size c \<le> n then Some (vals name mod 256 ^ fmt_size c) else None)"
proof (cases "map_of offsets name")
  case None
  then show ?thesis by (simp add: field_at_def)
next
  case (Some sc)
  obtain start c where sc: "sc = (start, c)" by (cases sc)
  from Some sc have d: "start + fmt_size c \<le> 228"
    "take (fmt_size c) (drop start (kernel_bytes little vals)) = field_bytes little vals (name, c)"
    using dense_field [of 0 tcp_fields name start c little vals] length_kernel_bytes [of little vals]
    by (simp_all add: offsets_dense kernel_bytes_def)
  show ?thesis
  proof (cases "start + fmt_size c \<le> n")
    case True
    then have "take (fmt_size c) (drop start (take n (kernel_bytes little vals)))
        = take (fmt_size c) (drop start (kernel_bytes little vals))"
      by (simp add: drop_take min_def)
    also have "\<dots> = field_bytes little vals (name, c)" by (rule d(2))
    finally have "take (fmt_size c) (drop start (take n (kernel_bytes little vals)))
        = field_bytes little vals (name, c)" .
    with True d(1) Some sc show ?thesis
      by (simp add: field_at_def length_kernel_bytes unpack_field_bytes del: prod.case)
  next
    case False
    with Some sc show ?thesis by (simp add: field_at_def length_kernel_bytes)
  qed
qed

text \<open>C17: Who a stall is put down to, completely: the agent exactly in its own phases; the network exactly
  when the name did not resolve, or a reading exists on the wire and the connection was never
  accepted or shows loss; the endpoint exactly when a reading exists past the connect, nothing was
  retransmitted, at most one segment or under one percent arrived out of order, and nothing sent
  is unacknowledged. Without a reading the endpoint is never blamed.\<close>

theorem verdict_exact:
  "(fst (judge ph tcp) = Agent \<longleftrightarrow> ph = Between_requests \<or> ph = Storing_bodies)
   \<and> (fst (judge ph tcp) = Network \<longleftrightarrow> ph = Resolving \<or>
        (\<exists>t. tcp = Some t \<and> ph \<in> {Connecting, Tls_handshake, Sending, Awaiting_response, Receiving}
           \<and> (ph = Connecting \<or> dict_get t ''state'' = Some (JStr ''syn_sent'') \<or> lossy t = Some True)))
   \<and> (fst (judge ph tcp) = Endpoint \<longleftrightarrow>
        (\<exists>t ooo. tcp = Some t \<and> ph \<in> {Tls_handshake, Sending, Awaiting_response, Receiving}
           \<and> dict_get t ''state'' \<noteq> Some (JStr ''syn_sent'')
           \<and> get_count t ''total_retrans'' \<le> 0 \<and> get_count t ''retransmits'' \<le> 0
           \<and> get_optional t ''rcv_ooopack'' = Some ooo
           \<and> (ooo < 2 \<or> 100 * ooo < get_count t ''data_segs_in'')
           \<and> get_count t ''unacked'' \<le> 0))"
  by (cases ph; cases tcp)
     (auto simp: judge_def agent_phases_def wire_phases_def lossy_def ooo_min_def Let_def
        split: if_splits option.splits)

lemma reach_attempt_cases:
  "reach_attempt ops host use_tls info path s = (Inr (path', att), s') \<Longrightarrow>
     at_error att \<noteq> None \<and> path' = Unreachable
     \<or> at_error att = None \<and>
        path' = (if \<exists>t. at_tcp att = Some t \<and> lossy t = Some True then Lossy else path)"
  by (auto simp: reach_attempt_def failed_attempt_def finish_attempt_def blank_attempt_def Let_def
      split: prod.splits sum.splits if_splits py_exn.splits option.splits)

lemma path_of_snoc:
  "path_of (atts @ [a]) =
     (if at_error a \<noteq> None then Unreachable
      else if path_of atts = Unreachable then Unreachable
      else if \<exists>t. at_tcp a = Some t \<and> lossy t = Some True then Lossy else path_of atts)"
  by (auto simp: path_of_def)

lemma reach_loop_invariant:
  assumes "path = path_of results" and "path \<noteq> Unreachable"
  shows "case reach_loop ops host use_tls info n path results s of
      (Inr (p, atts), _) \<Rightarrow> p = path_of atts \<and> length atts \<le> length results + n
                          \<and> (p = Unreachable \<or> length atts = length results + n)
    | (Inl (e, atts), _) \<Rightarrow> path_of atts \<noteq> Unreachable \<and> length atts < length results + n"
  using assms
proof (induction n arbitrary: path results s)
  case (Suc n)
  obtain r s1 where a: "reach_attempt ops host use_tls info path s = (r, s1)" by fastforce
  show ?case
  proof (cases r)
    case (Inl e)
    with a Suc.prems show ?thesis by simp
  next
    case (Inr pa)
    obtain p1 att where pa: "pa = (p1, att)" by (cases pa)
    have p1: "p1 = path_of (results @ [att])"
      using reach_attempt_cases [OF a [unfolded Inr pa]] Suc.prems by (auto simp: path_of_snoc)
    show ?thesis
    proof (cases "p1 = Unreachable")
      case True
      with a Inr pa p1 show ?thesis by simp
    next
      case False
      from Suc.IH [OF p1 False, of s1] a Inr pa False show ?thesis
        by (auto split: prod.splits sum.splits)
    qed
  qed
qed simp


text \<open>
  With no reading at all (no \<open>TCP_INFO\<close> on the platform, or an unreadable descriptor) the flag
  stays \<open>Clean\<close>: the answer is the one that \<open>clears\<close> the endpoint, on no evidence about loss.
\<close>

lemma reach_blind_is_clean:
  "\<exists>ops :: unit reach_ops. (\<forall>s. op_tcp ops s = None) \<and>
     fst (reach_loop ops ''example.com'' True info 3 Clean [] ()) =
       Inr (Clean, replicate 3 \<lparr>at_connect_ms = Some 0, at_tls_ms = Some 0, at_tcp = None, at_error = None\<rparr>)"
proof (intro exI conjI allI)
  let ?ops = "\<lparr>op_resolve = (\<lambda>_ _. ret []), op_socket = (\<lambda>_ s. s), op_connect = (\<lambda>_. ret ()),
    op_handshake = (\<lambda>_. ret ()), op_tcp = (\<lambda>_. None), op_close = (\<lambda>s. s), op_clock = (\<lambda>_. 0)\<rparr> :: unit reach_ops"
  show "fst (reach_loop ?ops ''example.com'' True info 3 Clean [] ()) =
       Inr (Clean, replicate 3 \<lparr>at_connect_ms = Some 0, at_tls_ms = Some 0, at_tcp = None, at_error = None\<rparr>)"
    by (simp add: numeral_3_eq_3 reach_attempt_def finish_attempt_def blank_attempt_def ret_def ms_between_def)
qed simp

end
