(* ===== verification/Run_Progress.thy ===== *)
theory Run_Progress
  imports Tcp_State
begin

text \<open>
  \<open>services/run_progress.py\<close>: how far a probe run has got. The objects the module shares
  between threads live in a heap (\<open>requests\<close>, \<open>records\<close>, addressed by number), because the hooks
  hold on to a request across the call they wrap and the budget's thread reads the same
  object; the thread-locals are \<open>current\<close> and \<open>assigned_rec\<close>. A hook takes the function it wraps as
  the argument \<open>orig\<close>, a routine on the same world, as the module's closures do.
\<close>

section \<open>State\<close>

record http_request =
  rq_conn_id :: nat
  rq_method :: string
  rq_url :: string
  rq_host :: string
  rq_name :: string
  rq_port :: int
  rq_tls :: bool
  rq_fd :: int
  rq_timed_out :: bool
  rq_started :: int
  rq_dns_ms :: "int option"
  rq_connect_ms :: "int option"
  rq_tls_ms :: "int option"
  rq_first_byte_ms :: "int option"
  rq_bytes_received :: int

record target =
  tg_host :: string
  tg_port :: int
  tg_tls :: bool

record timeout_entry =
  to_at :: int
  to_phase :: phase
  to_verdict :: verdict
  to_reason :: string
  to_method :: string
  to_url :: string
  to_target :: target
  to_tcp :: "dict option"

record run_progress =
  rp_phase :: phase
  rp_phase_since :: int
  rp_requests_completed :: int
  rp_request :: "nat option"
  rp_ingress :: int
  rp_egress :: int
  rp_timeouts :: "timeout_entry list"

text \<open>
  The world a probe thread runs in: the guard's thread-local (inherited), the monotonic and
  the wall clock, the bytes of \<open>tcp_info\<close> the kernel holds for each open descriptor, the two
  heaps with their allocation counters, and the module's two thread-locals.
\<close>

record probe_world = guard_local +
  mono :: int
  wall :: int
  kernel_info :: "int \<Rightarrow> byte list option"
  requests :: "nat \<Rightarrow> http_request"
  next_request :: nat
  records :: "nat \<Rightarrow> run_progress"
  next_record :: nat
  current :: "nat option"
  assigned_rec :: "nat option"

text \<open>\<open>tcp_state.read\<close> in this world (64-bit little-endian Linux).\<close>

definition read_fd :: "'a probe_world_scheme \<Rightarrow> int \<Rightarrow> dict option" where
  "read_fd s fd =
     tcp_read True True
       (\<lambda>fd. if kernel_info s fd = None then None else Some fd)
       (\<lambda>fd n. map_option (take n) (kernel_info s fd)) fd"

definition upd_request ::
  "nat \<Rightarrow> (http_request \<Rightarrow> http_request) \<Rightarrow> 'a probe_world_scheme \<Rightarrow> 'a probe_world_scheme" where
  "upd_request r f s = s\<lparr>requests := (requests s)(r := f (requests s r))\<rparr>"

definition upd_record ::
  "nat \<Rightarrow> (run_progress \<Rightarrow> run_progress) \<Rightarrow> 'a probe_world_scheme \<Rightarrow> 'a probe_world_scheme" where
  "upd_record p f s = s\<lparr>records := (records s)(p := f (records s p))\<rparr>"

section \<open>The record of one run\<close>

definition fresh_progress :: "int \<Rightarrow> run_progress" where
  "fresh_progress now =
     \<lparr>rp_phase = Starting, rp_phase_since = now, rp_requests_completed = 0, rp_request = None,
      rp_ingress = 0, rp_egress = 0, rp_timeouts = []\<rparr>"

text \<open>\<open>RunProgress()\<close>: allocates a record, returns its reference.\<close>

definition new_progress :: "('a probe_world_scheme, nat) proc" where
  "new_progress s =
     (Inr (next_record s),
      s\<lparr>records := (records s)(next_record s := fresh_progress (mono s)),
        next_record := Suc (next_record s)\<rparr>)"

definition enter :: "phase \<Rightarrow> nat \<Rightarrow> 'a probe_world_scheme \<Rightarrow> 'a probe_world_scheme" where
  "enter ph p s =
     (if ph \<noteq> rp_phase (records s p)
      then upd_record p (\<lambda>rp. rp\<lparr>rp_phase := ph, rp_phase_since := mono s\<rparr>) s
      else s)"

definition target_of :: "http_request \<Rightarrow> target" where
  "target_of q = \<lparr>tg_host = rq_name q, tg_port = rq_port q, tg_tls = rq_tls q\<rparr>"

text \<open>What \<open>snapshot\<close> returns, before it is rendered as a dictionary.\<close>

record stall_request =
  sr_target :: target
  sr_tcp :: "dict option"
  sr_method :: string
  sr_url :: string
  sr_elapsed_ms :: int
  sr_dns_ms :: "int option"
  sr_connect_ms :: "int option"
  sr_tls_ms :: "int option"
  sr_ttfb_ms :: "int option"
  sr_bytes_received :: int

record stall =
  st_phase :: phase
  st_phase_ms :: int
  st_requests_completed :: int
  st_verdict :: verdict
  st_reason :: string
  st_request :: "stall_request option"

text \<open>
  The reader runs on another thread, so each attribute is read from the world of its own
  moment: \<open>s_now\<close> the clock, \<open>s_phase\<close>, \<open>s_since\<close>, \<open>s_req\<close> the three attributes, \<open>s_done\<close> the
  completed count, \<open>s_tcp\<close> the kernel's reading, \<open>s_again\<close> the second look at the request,
  \<open>s_late\<close> the request's fields.
\<close>

definition snapshot_at ::
  "nat \<Rightarrow> 'a probe_world_scheme \<Rightarrow> 'a probe_world_scheme \<Rightarrow> 'a probe_world_scheme
     \<Rightarrow> 'a probe_world_scheme \<Rightarrow> 'a probe_world_scheme \<Rightarrow> 'a probe_world_scheme
     \<Rightarrow> 'a probe_world_scheme \<Rightarrow> 'a probe_world_scheme \<Rightarrow> stall option" where
  "snapshot_at p s_now s_phase s_since s_req s_done s_tcp s_again s_late =
     (let now = mono s_now;
          ph = rp_phase (records s_phase p);
          since = rp_phase_since (records s_since p);
          request = rp_request (records s_req p);
          completed = rp_requests_completed (records s_done p)
      in if ph = Starting \<and> completed = 0 then None
         else
           let tcp0 = (case request of None \<Rightarrow> None
                       | Some r \<Rightarrow> read_fd s_tcp (rq_fd (requests s_tcp r)));
               tcp = (if request \<noteq> None \<and> rp_request (records s_again p) \<noteq> request then None else tcp0);
               (v, reason) = judge ph tcp
           in Some \<lparr>st_phase = ph, st_phase_ms = ms_between since now,
                    st_requests_completed = completed, st_verdict = v, st_reason = reason,
                    st_request =
                      map_option (\<lambda>r. let q = requests s_late r in
                        \<lparr>sr_target = target_of q, sr_tcp = tcp,
                         sr_method = rq_method q, sr_url = rq_url q,
                         sr_elapsed_ms = ms_between (rq_started q) now,
                         sr_dns_ms = rq_dns_ms q, sr_connect_ms = rq_connect_ms q,
                         sr_tls_ms = rq_tls_ms q, sr_ttfb_ms = rq_first_byte_ms q,
                         sr_bytes_received = rq_bytes_received q\<rparr>) request\<rparr>)"

text \<open>A snapshot of a run that is not moving.\<close>

definition snapshot :: "nat \<Rightarrow> 'a probe_world_scheme \<Rightarrow> stall option" where
  "snapshot p s = snapshot_at p s s s s s s s s"

section \<open>Timeouts\<close>

definition on_timeout :: "'a probe_world_scheme \<Rightarrow> 'a probe_world_scheme" where
  "on_timeout s =
     (case current s of
        None \<Rightarrow> s
      | Some p \<Rightarrow>
          (case rp_request (records s p) of
             None \<Rightarrow> s
           | Some r \<Rightarrow>
               (if rq_timed_out (requests s r) then s
                else
                  let s1 = upd_request r (\<lambda>q. q\<lparr>rq_timed_out := True\<rparr>) s;
                      q = requests s1 r;
                      tcp = read_fd s1 (rq_fd q);
                      (v, reason) = judge (rp_phase (records s1 p)) tcp
                  in upd_record p (\<lambda>rp. rp\<lparr>rp_timeouts := rp_timeouts rp @
                       [\<lparr>to_at = wall s1, to_phase = rp_phase rp, to_verdict = v, to_reason = reason,
                         to_method = rq_method q, to_url = rq_url q, to_target = target_of q,
                         to_tcp = tcp\<rparr>]\<rparr>) s1)))"

section \<open>Describing a stall\<close>

definition describe :: "stall \<Rightarrow> string" where
  "describe st =
     (case st_request st of
        None \<Rightarrow>
          (let n = st_requests_completed st;
               after = ''after '' @ int_str n @ '' completed request'' @ (if n = 1 then [] else ''s'')
           in if st_phase st = Storing_bodies then ''storing response bodies, '' @ after
              else ''between requests, '' @ after)
      | Some rq \<Rightarrow>
          (let what = ''request '' @ int_str (st_requests_completed st + 1)
                 @ '' ('' @ sr_method rq @ '' '' @ sr_url rq @ '')'';
               waited = int_str (st_phase_ms st) @ ''ms'';
               host = (if contains (sr_url rq) ''//'' then split_on CHR ''/'' (sr_url rq) ! 2 else sr_url rq)
           in case st_phase st of
                Resolving \<Rightarrow> what @ '' was still resolving '' @ host @ '' after '' @ waited
              | Connecting \<Rightarrow> what @ '' was still connecting after '' @ waited
              | Tls_handshake \<Rightarrow> what @ '' was still in the TLS handshake after '' @ waited
              | Sending \<Rightarrow> what @ '' was still being sent after '' @ waited
              | Receiving \<Rightarrow> what @ '' was still receiving its response: ''
                             @ int_str (sr_bytes_received rq) @ '' bytes in '' @ waited
              | _ \<Rightarrow> what @ '' had no response after '' @ waited))"

section \<open>Thread-locals\<close>

definition assign :: "nat \<Rightarrow> ('a probe_world_scheme, 'r) proc \<Rightarrow> ('a probe_world_scheme, 'r) proc" where
  "assign p body = with_cell assigned_rec (\<lambda>v s. s\<lparr>assigned_rec := v\<rparr>) (Some p) body"

definition track :: "nat \<Rightarrow> ('a probe_world_scheme, 'r) proc \<Rightarrow> ('a probe_world_scheme, 'r) proc" where
  "track p body = with_cell current (\<lambda>v s. s\<lparr>current := v\<rparr>) (Some p) body"

section \<open>Byte counters\<close>

definition on_sent :: "int \<Rightarrow> 'a probe_world_scheme \<Rightarrow> 'a probe_world_scheme" where
  "on_sent count s =
     (case current s of
        None \<Rightarrow> s
      | Some p \<Rightarrow>
          (let s1 = upd_record p (\<lambda>rp. rp\<lparr>rp_egress := rp_egress rp + count\<rparr>) s
           in if rp_request (records s1 p) \<noteq> None then enter Sending p s1 else s1))"

definition on_received :: "int \<Rightarrow> 'a probe_world_scheme \<Rightarrow> 'a probe_world_scheme" where
  "on_received count s =
     (case current s of
        None \<Rightarrow> s
      | Some p \<Rightarrow>
          (let s1 = upd_record p (\<lambda>rp. rp\<lparr>rp_ingress := rp_ingress rp + count\<rparr>) s
           in case rp_request (records s1 p) of
                None \<Rightarrow> s1
              | Some r \<Rightarrow>
                  enter Receiving p
                    (upd_request r (\<lambda>q. q\<lparr>
                       rq_first_byte_ms :=
                         (if rq_first_byte_ms q = None then Some (ms_between (rq_started q) (mono s1))
                          else rq_first_byte_ms q),
                       rq_bytes_received := rq_bytes_received q + count\<rparr>) s1)))"

section \<open>Hooks\<close>

text \<open>The record and the request the current thread is working on.\<close>

definition tracked :: "'a probe_world_scheme \<Rightarrow> (nat \<times> nat) option" where
  "tracked s =
     (case current s of
        None \<Rightarrow> None
      | Some p \<Rightarrow> map_option (\<lambda>r. (p, r)) (rp_request (records s p)))"

definition hook_getaddrinfo ::
  "('a probe_world_scheme, 'r) proc \<Rightarrow> ('a probe_world_scheme, 'r) proc" where
  "hook_getaddrinfo orig s =
     (case tracked s of
        None \<Rightarrow> orig s
      | Some (p, r) \<Rightarrow>
          (let s1 = enter Resolving p s; t0 = mono s1
           in finally_do orig
                (\<lambda>s2. upd_request r (\<lambda>q. q\<lparr>rq_dns_ms := Some (ms_between t0 (mono s2))\<rparr>) s2) s1))"

fun is_timeout :: "py_exn \<Rightarrow> bool" where
  "is_timeout (TimeoutError _) = True"
| "is_timeout _ = False"

text \<open>The common shape of the connect and handshake hooks after the phase is entered.\<close>

definition timed_call ::
  "nat \<Rightarrow> (int \<Rightarrow> http_request \<Rightarrow> http_request) \<Rightarrow> ('a probe_world_scheme, 'r) proc
     \<Rightarrow> ('a probe_world_scheme, 'r) proc" where
  "timed_call r put_ms orig s1 =
     (let t0 = mono s1
      in case orig s1 of
           (Inl e, s2) \<Rightarrow> (Inl e, if is_timeout e then on_timeout s2 else s2)
         | (Inr a, s2) \<Rightarrow> (Inr a, upd_request r (put_ms (ms_between t0 (mono s2))) s2))"

definition hook_connect ::
  "int \<Rightarrow> ('a probe_world_scheme, 'r) proc \<Rightarrow> ('a probe_world_scheme, 'r) proc" where
  "hook_connect fileno orig s =
     (case tracked s of
        None \<Rightarrow> orig s
      | Some (p, r) \<Rightarrow>
          timed_call r (\<lambda>ms q. q\<lparr>rq_connect_ms := Some ms\<rparr>) orig
            (upd_request r (\<lambda>q. q\<lparr>rq_fd := fileno\<rparr>) (enter Connecting p s)))"

definition hook_wrap_socket ::
  "('a probe_world_scheme, 'r) proc \<Rightarrow> ('a probe_world_scheme, 'r) proc" where
  "hook_wrap_socket orig s =
     (case tracked s of
        None \<Rightarrow> orig s
      | Some (p, r) \<Rightarrow>
          timed_call r (\<lambda>ms q. q\<lparr>rq_tls_ms := Some ms\<rparr>) orig (enter Tls_handshake p s))"

text \<open>The \<open>http.client\<close> connection object, as far as the hooks read it.\<close>

record http_connection =
  cn_id :: nat
  cn_host :: string
  cn_port :: int
  cn_https :: bool

definition host_header :: "http_connection \<Rightarrow> string" where
  "host_header c =
     (if cn_port c = (if cn_https c then 443 else 80) then cn_host c
      else cn_host c @ '':'' @ int_str (cn_port c))"

definition request_of :: "http_connection \<Rightarrow> string \<Rightarrow> string \<Rightarrow> int \<Rightarrow> http_request" where
  "request_of c method url now =
     \<lparr>rq_conn_id = cn_id c, rq_method = method,
      rq_url = (if cn_https c then ''https'' else ''http'') @ ''://'' @ host_header c @ url,
      rq_host = host_header c, rq_name = cn_host c, rq_port = cn_port c, rq_tls = cn_https c,
      rq_fd = -1, rq_timed_out = False, rq_started = now, rq_dns_ms = None, rq_connect_ms = None,
      rq_tls_ms = None, rq_first_byte_ms = None, rq_bytes_received = 0\<rparr>"

definition begin_request ::
  "nat \<Rightarrow> http_connection \<Rightarrow> string \<Rightarrow> string \<Rightarrow> 'a probe_world_scheme \<Rightarrow> 'a probe_world_scheme" where
  "begin_request p c method url s =
     upd_record p (\<lambda>rp. rp\<lparr>rp_request := Some (next_request s)\<rparr>)
       (s\<lparr>requests := (requests s)(next_request s := request_of c method url (mono s)),
          next_request := Suc (next_request s)\<rparr>)"

definition hook_request ::
  "http_connection \<Rightarrow> string \<Rightarrow> string \<Rightarrow> ('a probe_world_scheme, unit) proc
     \<Rightarrow> ('a probe_world_scheme, unit) proc" where
  "hook_request c method url orig s =
     (case current s of
        None \<Rightarrow> orig s
      | Some p \<Rightarrow>
          andthen orig (\<lambda>_ s2. (Inr (), enter Awaiting_response p s2)) (begin_request p c method url s))"

definition hook_close ::
  "http_connection \<Rightarrow> ('a probe_world_scheme, 'r) proc \<Rightarrow> ('a probe_world_scheme, 'r) proc" where
  "hook_close c orig s =
     orig
       (case tracked s of
          Some (p, r) \<Rightarrow>
            if rq_conn_id (requests s r) = cn_id c
            then enter Between_requests p
                   (upd_record p (\<lambda>rp. rp\<lparr>rp_request := None,
                      rp_requests_completed := rp_requests_completed rp + 1\<rparr>) s)
            else s
        | None \<Rightarrow> s)"

section \<open>Installing the hooks\<close>

record hook_module = socket_module +
  wrap_slot :: nat
  request_slot :: nat
  close_slot :: nat
  progress_installed :: bool

definition progress_install :: "'a hook_module_scheme \<Rightarrow> 'a hook_module_scheme" where
  "progress_install m =
     (if progress_installed m then m
      else m\<lparr>getaddrinfo_slot := ProgressLayer # getaddrinfo_slot m,
             connect_slot := ProgressLayer # connect_slot m,
             wrap_slot := Suc (wrap_slot m), request_slot := Suc (request_slot m),
             close_slot := Suc (close_slot m), progress_installed := True\<rparr>)"

end
