(* ===== verification/Wire_Metrics.thy ===== *)
theory Wire_Metrics
  imports Run_Progress Storage
begin

text \<open>
  \<open>services/wire_metrics.py\<close>: counting the HTTP-layer bytes of a probe. The thread's counter is
  three fields added to the probe world (an unset counter reads as inactive and zero). The
  methods of the counting reader and the patched \<open>send\<close> take the function they wrap as
  \<open>orig\<close>. Two more fields complete the world a run lives in: \<open>files\<close>, the file system, and \<open>dialled\<close>, a log for the specification only: the addresses that reached the
  system's own \<open>connect\<close>, newest first.
\<close>

record wire_world = probe_world +
  cnt_active :: bool
  cnt_ingress :: int
  cnt_egress :: int
  dialled :: "address list"
  files :: fs

definition timeout_seen :: "py_exn \<Rightarrow> 'a probe_world_scheme \<Rightarrow> 'a probe_world_scheme" where
  "timeout_seen e s = (if is_timeout e then on_timeout s else s)"

text \<open>Every \<open>n > 0\<close> bytes read: first the run's record, then the counter.\<close>

definition count_in :: "int \<Rightarrow> 'a wire_world_scheme \<Rightarrow> 'a wire_world_scheme" where
  "count_in n s =
     (let s1 = on_received n s
      in if cnt_active s1 then s1\<lparr>cnt_ingress := cnt_ingress s1 + n\<rparr> else s1)"

definition reader_read ::
  "('a wire_world_scheme, string) proc \<Rightarrow> ('a wire_world_scheme, string) proc" where
  "reader_read orig s =
     (case orig s of
        (Inl e, s1) \<Rightarrow> (Inl e, timeout_seen e s1)
      | (Inr data, s1) \<Rightarrow>
          (Inr data, if data \<noteq> [] then count_in (int (length data)) s1 else s1))"

definition reader_readline ::
  "('a wire_world_scheme, string) proc \<Rightarrow> ('a wire_world_scheme, string) proc" where
  "reader_readline orig s =
     (case orig s of
        (Inl e, s1) \<Rightarrow> (Inl e, timeout_seen e s1)
      | (Inr data, s1) \<Rightarrow>
          (Inr data, if data \<noteq> [] then count_in (int (length data)) s1 else s1))"

definition reader_readinto ::
  "('a wire_world_scheme, nat) proc \<Rightarrow> ('a wire_world_scheme, nat) proc" where
  "reader_readinto orig s =
     (case orig s of
        (Inl e, s1) \<Rightarrow> (Inl e, timeout_seen e s1)
      | (Inr n, s1) \<Rightarrow> (Inr n, if n \<noteq> 0 then count_in (int n) s1 else s1))"

text \<open>\<open>patched_send\<close>: \<open>Some n\<close> is a \<open>bytes\<close> or \<open>bytearray\<close> of length \<open>n\<close>, \<open>None\<close> anything else.\<close>

definition patched_send ::
  "nat option \<Rightarrow> ('a wire_world_scheme, unit) proc \<Rightarrow> ('a wire_world_scheme, unit) proc" where
  "patched_send data orig s =
     (let s1 = (case data of
                  Some n \<Rightarrow>
                    if cnt_active s
                    then on_sent (int n) (s\<lparr>cnt_egress := cnt_egress s + int n\<rparr>)
                    else s
                | None \<Rightarrow> s)
      in case orig s1 of
           (Inl e, s2) \<Rightarrow> (Inl e, timeout_seen e s2)
         | (Inr a, s2) \<Rightarrow> (Inr a, s2))"

text \<open>
  \<open>patched_resp_init\<close>: after the original initialiser, the response's file object is replaced
  by the counting reader when counting is on and there is one. The result says whether it was.
\<close>

definition patched_resp_init ::
  "('a wire_world_scheme, unit) proc \<Rightarrow> ('a wire_world_scheme \<Rightarrow> bool) \<Rightarrow> ('a wire_world_scheme, bool) proc" where
  "patched_resp_init orig has_fp s =
     andthen orig (\<lambda>_ s1. (Inr (cnt_active s1 \<and> has_fp s1), s1)) s"

record metrics_module = hook_module +
  send_slot :: nat
  resp_init_slot :: nat
  metrics_installed :: bool

definition metrics_install :: "'a metrics_module_scheme \<Rightarrow> 'a metrics_module_scheme" where
  "metrics_install m =
     (if metrics_installed m then m
      else m\<lparr>send_slot := Suc (send_slot m), resp_init_slot := Suc (resp_init_slot m),
             metrics_installed := True\<rparr>)"

text \<open>
  \<open>measure()\<close>: count from zero for the block, read the totals in \<open>finally\<close>, restore whatever
  measurement encloses it. The result pairs the block's outcome with the totals.
\<close>

definition get_counter :: "'a wire_world_scheme \<Rightarrow> bool \<times> int \<times> int" where
  "get_counter s = (cnt_active s, cnt_ingress s, cnt_egress s)"

definition put_counter :: "bool \<times> int \<times> int \<Rightarrow> 'a wire_world_scheme \<Rightarrow> 'a wire_world_scheme" where
  "put_counter c s =
     (case c of (a, i, e) \<Rightarrow> s\<lparr>cnt_active := a, cnt_ingress := i, cnt_egress := e\<rparr>)"

definition measure_wire ::
  "('a wire_world_scheme, 'r) proc \<Rightarrow> 'a wire_world_scheme
     \<Rightarrow> ((py_exn + 'r) \<times> int \<times> int) \<times> 'a wire_world_scheme" where
  "measure_wire body s =
     (case with_cell get_counter put_counter (True, 0, 0)
             (\<lambda>s. case body s of (r, s1) \<Rightarrow> (Inr (r, cnt_ingress s1, cnt_egress s1), s1)) s of
        (Inr x, s2) \<Rightarrow> (x, s2)
      | (Inl e, s2) \<Rightarrow> ((Inl e, 0, 0), s2))"

section \<open>Scopes\<close>

text \<open>
  The agent's four scopes are instances of one contract: the guard's flag, the record assigned
  to the thread, the record being tracked, and the byte counter.
\<close>

interpretation guard_scope: scoped_cell guard_on "\<lambda>v s. s\<lparr>guard_on := v\<rparr> :: 'a guard_local_scheme"
  by unfold_locales simp_all

interpretation assign_scope: scoped_cell assigned_rec "\<lambda>v s. s\<lparr>assigned_rec := v\<rparr> :: 'a probe_world_scheme"
  by unfold_locales simp_all

interpretation track_scope: scoped_cell current "\<lambda>v s. s\<lparr>current := v\<rparr> :: 'a probe_world_scheme"
  by unfold_locales simp_all

interpretation counter_scope: scoped_cell get_counter "put_counter :: _ \<Rightarrow> 'a wire_world_scheme \<Rightarrow> _"
  by unfold_locales (auto simp: get_counter_def put_counter_def split: prod.splits)

end
