(* ===== verification/Probe_Activity.thy ===== *)
theory Probe_Activity
  imports Wire_Metrics
begin

text \<open>
  What an executor run can do to the agent's bookkeeping. The Lace executor is not part of the
  repository; all the agent relies on is that its HTTP goes through the patched functions of
  \<open>socket\<close>, \<open>ssl\<close> and \<open>http.client\<close>. The relation \<open>activity\<close> is exactly that: any sequence and
  any nesting of the hooks, with any outcome of the wrapped calls, any passage of time and any
  change of the kernel's connection state. A property of every run is a relation closed under
  the hooks' primitive updates: the locale \<open>activity_relation\<close> lists them once, and each
  interpretation gives one family of facts (byte counters, vetted dials, inertness, timeout
  records, monotonicity).
\<close>

section \<open>The patched functions as stacks of layers\<close>

fun stacked_connect ::
  "layer list \<Rightarrow> int \<Rightarrow> (address \<Rightarrow> ('a probe_world_scheme, unit) proc)
     \<Rightarrow> address \<Rightarrow> ('a probe_world_scheme, unit) proc" where
  "stacked_connect [] fd sys = sys"
| "stacked_connect (GuardLayer # ls) fd sys = guarded_connect (stacked_connect ls fd sys)"
| "stacked_connect (ProgressLayer # ls) fd sys = (\<lambda>a. hook_connect fd (stacked_connect ls fd sys a))"

fun stacked_getaddrinfo ::
  "layer list \<Rightarrow> (string option \<Rightarrow> int \<Rightarrow> ('a probe_world_scheme, addrinfo list) proc)
     \<Rightarrow> string option \<Rightarrow> int \<Rightarrow> ('a probe_world_scheme, addrinfo list) proc" where
  "stacked_getaddrinfo [] sys = sys"
| "stacked_getaddrinfo (GuardLayer # ls) sys = guarded_getaddrinfo (stacked_getaddrinfo ls sys)"
| "stacked_getaddrinfo (ProgressLayer # ls) sys =
     (\<lambda>host port. hook_getaddrinfo (stacked_getaddrinfo ls sys host port))"

section \<open>Runs\<close>

text \<open>
  Time passes, the wall clock is read anew, connections change state in the kernel, files
  are written.
\<close>

definition environment :: "wire_world \<Rightarrow> wire_world \<Rightarrow> bool" where
  "environment s t \<longleftrightarrow>
     (\<exists>d w k f. 0 \<le> d \<and> t = s\<lparr>mono := mono s + d, wall := w, kernel_info := k, files := f\<rparr>)"

text \<open>The system's own \<open>connect\<close>: it dials the address (the log says so), whatever comes of it.\<close>

definition log_dial :: "address \<Rightarrow> wire_world \<Rightarrow> wire_world" where
  "log_dial a s = s\<lparr>dialled := a # dialled s\<rparr>"

definition system_connect :: "(address \<Rightarrow> (wire_world, unit) proc) \<Rightarrow> bool" where
  "system_connect sys \<longleftrightarrow> (\<forall>a u. environment (log_dial a u) (snd (sys a u)))"

definition system_resolve :: "(string option \<Rightarrow> int \<Rightarrow> (wire_world, addrinfo list) proc) \<Rightarrow> bool" where
  "system_resolve sys \<longleftrightarrow> (\<forall>host port u. environment u (snd (sys host port u)))"

inductive activity :: "layer list \<Rightarrow> layer list \<Rightarrow> wire_world \<Rightarrow> wire_world \<Rightarrow> bool" for gs cs where
  idle: "activity gs cs s s"
| seq: "activity gs cs s t \<Longrightarrow> activity gs cs t u \<Longrightarrow> activity gs cs s u"
| env: "environment s t \<Longrightarrow> activity gs cs s t"
| resolve: "system_resolve sys \<Longrightarrow>
    activity gs cs s (snd (stacked_getaddrinfo gs sys host port s))"
| connect: "system_connect sys \<Longrightarrow> activity gs cs s (snd (stacked_connect cs fd sys a s))"
| handshake: "(\<And>u. activity gs cs u (snd (orig u))) \<Longrightarrow>
    activity gs cs s (snd (hook_wrap_socket (orig :: (wire_world, unit) proc) s))"
| request: "(\<And>u. activity gs cs u (snd (orig u))) \<Longrightarrow>
    activity gs cs s (snd (hook_request c method url orig s))"
| close: "(\<And>u. activity gs cs u (snd (orig u))) \<Longrightarrow>
    activity gs cs s (snd (hook_close c (orig :: (wire_world, unit) proc) s))"
| send: "(\<And>u. activity gs cs u (snd (orig u))) \<Longrightarrow>
    activity gs cs s (snd (patched_send data orig s))"
| read: "(\<And>u. activity gs cs u (snd (orig u))) \<Longrightarrow>
    activity gs cs s (snd (reader_read orig s))"
| readline: "(\<And>u. activity gs cs u (snd (orig u))) \<Longrightarrow>
    activity gs cs s (snd (reader_readline orig s))"
| readinto: "(\<And>u. activity gs cs u (snd (orig u))) \<Longrightarrow>
    activity gs cs s (snd (reader_readinto orig s))"
| resp_init: "(\<And>u. activity gs cs u (snd (orig u))) \<Longrightarrow>
    activity gs cs s (snd (patched_resp_init orig has_fp s))"

text \<open>A body that does nothing but such things, in whatever state it is started.\<close>

definition executor_body :: "layer list \<Rightarrow> layer list \<Rightarrow> (wire_world, 'r) proc \<Rightarrow> bool" where
  "executor_body gs cs body \<longleftrightarrow> (\<forall>u. activity gs cs u (snd (body u)))"

definition vetted :: "address \<Rightarrow> bool" where
  "vetted a \<longleftrightarrow> (case address_ip a of None \<Rightarrow> False | Some ip \<Rightarrow> \<not> ip_is_blocked ip)"

section \<open>Relations kept by every run\<close>

text \<open>A hook's note on a request leaves its start, its byte count and its timeout flag alone.\<close>

definition annotates :: "(http_request \<Rightarrow> http_request) \<Rightarrow> bool" where
  "annotates f \<longleftrightarrow> (\<forall>q. rq_timed_out (f q) = rq_timed_out q \<and> rq_started (f q) = rq_started q
     \<and> rq_bytes_received (f q) = rq_bytes_received q)"

locale activity_relation =
  fixes cs :: "layer list"
    and R :: "wire_world \<Rightarrow> wire_world \<Rightarrow> bool"
  assumes refl: "R s s"
    and trans: "R s t \<Longrightarrow> R t u \<Longrightarrow> R s u"
    and keeps_current: "R s t \<Longrightarrow> current t = current s"
    and environment: "environment s t \<Longrightarrow> R s t"
    and entering: "current s = Some p \<Longrightarrow> ph \<noteq> Starting \<Longrightarrow> R s (enter ph p s)"
    and touching: "current s = Some p \<Longrightarrow> annotates f \<Longrightarrow> R s (upd_request r f s)"
    and timing_out: "R s (on_timeout s)"
    and receiving: "0 < n \<Longrightarrow> R s (count_in n s)"
    and sending: "0 \<le> n \<Longrightarrow> cnt_active s \<Longrightarrow> R s (on_sent n (s\<lparr>cnt_egress := cnt_egress s + n\<rparr>))"
    and beginning: "current s = Some p \<Longrightarrow> R s (begin_request p c method url s)"
    and closing: "tracked s = Some (p, r) \<Longrightarrow>
        R s (upd_record p (\<lambda>rp. rp\<lparr>rp_request := None,
               rp_requests_completed := rp_requests_completed rp + 1\<rparr>) s)"
    and dialling: "(GuardLayer \<in> set cs \<and> guard_on s \<longrightarrow> vetted a) \<Longrightarrow> R s (log_dial a s)"
begin

lemma tracked_current: "tracked s = Some (p, r) \<Longrightarrow> current s = Some p"
  by (auto simp: tracked_def split: option.splits)

lemma seen: "R s (timeout_seen e s)"
  by (simp add: timeout_seen_def refl timing_out)

lemma timed:
  assumes "R s (snd (orig s))" and "current s = Some p"
    and "\<And>ms. annotates (f ms)"
  shows "R s (snd (timed_call r f orig s))"
proof -
  obtain x t where o: "orig s = (x, t)" by fastforce
  have st: "R s t" using assms(1) o by simp
  then have "current t = Some p" using keeps_current assms(2) by simp
  then have "R t (upd_request r (f ms) t)" for ms
    by (rule touching) (rule assms(3))
  with st have "R s (upd_request r (f ms) t)" for ms
    by (blast intro: trans)
  moreover have "R s (on_timeout t)" using st timing_out by (blast intro: trans)
  ultimately show ?thesis
    using o st by (auto simp: timed_call_def Let_def split: sum.splits)
qed

lemma resolving:
  assumes "system_resolve sys"
  shows "R s (snd (stacked_getaddrinfo ls sys host port s))"
proof (induction ls arbitrary: s)
  case Nil
  with assms show ?case by (auto simp: system_resolve_def intro: environment)
next
  case (Cons l ls)
  show ?case
  proof (cases l)
    case GuardLayer
    then show ?thesis
      using Cons [of s]
      by (auto simp: guarded_getaddrinfo_def andthen_def raise_def ret_def
          split: prod.splits sum.splits option.splits)
  next
    case ProgressLayer
    show ?thesis
    proof (cases "tracked s")
      case None
      with ProgressLayer Cons [of s] show ?thesis by (simp add: hook_getaddrinfo_def)
    next
      case (Some pr)
      obtain p r where pr: "pr = (p, r)" by (cases pr)
      let ?s1 = "enter Resolving p s"
      let ?s2 = "snd (stacked_getaddrinfo ls sys host port ?s1)"
      have c: "current s = Some p" using Some pr tracked_current by simp
      have 1: "R s ?s1" using c by (rule entering) simp
      have 2: "R ?s1 ?s2" by (rule Cons)
      have "current ?s2 = Some p" using keeps_current [OF 1] keeps_current [OF 2] c by simp
      then have "R ?s2 (upd_request r (\<lambda>q. q\<lparr>rq_dns_ms := Some (ms_between (mono ?s1) (mono ?s2))\<rparr>) ?s2)"
        by (rule touching) (simp add: annotates_def)
      with 1 2 have "R s (upd_request r (\<lambda>q. q\<lparr>rq_dns_ms := Some (ms_between (mono ?s1) (mono ?s2))\<rparr>) ?s2)"
        by (blast intro: trans)
      with ProgressLayer Some pr show ?thesis by (simp add: hook_getaddrinfo_def Let_def)
    qed
  qed
qed

lemma hooked_connecting:
  assumes "\<And>u. guard_on u = guard_on s \<Longrightarrow> R u (snd (orig u))"
  shows "R s (snd (hook_connect fd orig s))"
proof (cases "tracked s")
  case None
  with assms show ?thesis by (simp add: hook_connect_def)
next
  case (Some pr)
  obtain p r where pr: "pr = (p, r)" by (cases pr)
  let ?s1 = "enter Connecting p s"
  let ?s2 = "upd_request r (\<lambda>q. q\<lparr>rq_fd := fd\<rparr>) ?s1"
  have c: "current s = Some p" using Some pr tracked_current by simp
  have 1: "R s ?s1" using c by (rule entering) simp
  have c1: "current ?s1 = Some p" using keeps_current [OF 1] c by simp
  have 2: "R ?s1 ?s2" using c1 by (rule touching) (simp add: annotates_def)
  have c2: "current ?s2 = Some p" using keeps_current [OF 2] c1 by simp
  have 3: "R ?s2 (snd (orig ?s2))" by (rule assms) (simp add: enter_def upd_record_def upd_request_def)
  have 4: "R ?s2 (snd (timed_call r (\<lambda>ms q. q\<lparr>rq_connect_ms := Some ms\<rparr>) orig ?s2))"
    using 3 c2 by (rule timed) (simp add: annotates_def)
  from trans [OF trans [OF 1 2] 4] show ?thesis using Some pr by (simp add: hook_connect_def)
qed

lemma connecting:
  assumes "system_connect sys"
    and "GuardLayer \<in> set cs \<and> guard_on s \<longrightarrow> GuardLayer \<in> set ls \<or> vetted a"
  shows "R s (snd (stacked_connect ls fd sys a s))"
  using assms(2)
proof (induction ls arbitrary: s)
  case Nil
  then have "R s (log_dial a s)" by (intro dialling) auto
  moreover have "environment (log_dial a s) (snd (sys a s))"
    using assms(1) by (simp add: system_connect_def)
  ultimately show ?case by (auto intro: trans environment)
next
  case (Cons l ls)
  show ?case
  proof (cases l)
    case GuardLayer
    have "R s (snd (stacked_connect ls fd sys a s))" if "\<not> (is_active s \<and> \<not> vetted a)"
      using that by (intro Cons.IH) (auto simp: is_active_def)
    with GuardLayer show ?thesis
      by (auto simp: guarded_connect_def vetted_def raise_def refl split: option.splits)
  next
    case ProgressLayer
    have "R u (snd (stacked_connect ls fd sys a u))" if "guard_on u = guard_on s" for u
      using Cons.prems that ProgressLayer by (intro Cons.IH) auto
    then have "R s (snd (hook_connect fd (stacked_connect ls fd sys a) s))" by (rule hooked_connecting)
    with ProgressLayer show ?thesis by simp
  qed
qed

lemma shaking_hands:
  assumes "\<And>u. R u (snd (orig u))"
  shows "R s (snd (hook_wrap_socket orig s))"
proof (cases "tracked s")
  case None
  with assms show ?thesis by (simp add: hook_wrap_socket_def)
next
  case (Some pr)
  obtain p r where pr: "pr = (p, r)" by (cases pr)
  let ?s1 = "enter Tls_handshake p s"
  have c: "current s = Some p" using Some pr tracked_current by simp
  have 1: "R s ?s1" using c by (rule entering) simp
  have c1: "current ?s1 = Some p" using keeps_current [OF 1] c by simp
  have "R ?s1 (snd (timed_call r (\<lambda>ms q. q\<lparr>rq_tls_ms := Some ms\<rparr>) orig ?s1))"
    using assms c1 by (rule timed) (simp add: annotates_def)
  with 1 Some pr show ?thesis by (auto simp: hook_wrap_socket_def intro: trans)
qed

lemma requesting:
  assumes "\<And>u. R u (snd (orig u))"
  shows "R s (snd (hook_request c method url orig s))"
proof (cases "current s")
  case None
  with assms show ?thesis by (simp add: hook_request_def)
next
  case (Some p)
  let ?s1 = "begin_request p c method url s"
  obtain x t where o: "orig ?s1 = (x, t)" by fastforce
  have 1: "R s ?s1" using Some by (rule beginning)
  have 2: "R ?s1 t" using assms [of ?s1] o by simp
  have "current t = Some p" using keeps_current [OF 1] keeps_current [OF 2] Some by simp
  then have "R t (enter Awaiting_response p t)" by (rule entering) simp
  with 1 2 have "R s t" "R s (enter Awaiting_response p t)" by (blast intro: trans)+
  with Some o show ?thesis by (simp add: hook_request_def andthen_def split: sum.splits)
qed

lemma closing_connection:
  assumes "\<And>u. R u (snd (orig u))"
  shows "R s (snd (hook_close c orig s))"
proof (cases "\<exists>p r. tracked s = Some (p, r) \<and> rq_conn_id (requests s r) = cn_id c")
  case True
  then obtain p r where t: "tracked s = Some (p, r)" "rq_conn_id (requests s r) = cn_id c" by blast
  let ?s1 = "upd_record p (\<lambda>rp. rp\<lparr>rp_request := None,
               rp_requests_completed := rp_requests_completed rp + 1\<rparr>) s"
  have 1: "R s ?s1" using t(1) by (rule closing)
  have "current ?s1 = Some p" using keeps_current [OF 1] tracked_current [OF t(1)] by simp
  then have "R ?s1 (enter Between_requests p ?s1)" by (rule entering) simp
  with 1 have "R s (enter Between_requests p ?s1)" by (blast intro: trans)
  with t assms show ?thesis by (auto simp: hook_close_def intro: trans)
next
  case False
  then have "hook_close c orig s = orig s" by (auto simp: hook_close_def split: option.splits)
  with assms show ?thesis by simp
qed

lemma sending_data:
  assumes "\<And>u. R u (snd (orig u))"
  shows "R s (snd (patched_send data orig s))"
proof -
  let ?s1 = "case data of Some n \<Rightarrow> if cnt_active s then on_sent (int n) (s\<lparr>cnt_egress := cnt_egress s + int n\<rparr>) else s
                  | None \<Rightarrow> s"
  have "R s ?s1" by (cases data) (simp_all add: refl sending)
  moreover obtain x t where o: "orig ?s1 = (x, t)" by fastforce
  ultimately have st: "R s t" using assms [of ?s1] by (auto intro: trans)
  then have "R s (timeout_seen e t)" for e using seen by (blast intro: trans)
  with st o show ?thesis by (simp add: patched_send_def Let_def split: sum.splits)
qed

lemma reading:
  assumes "\<And>u. R u (snd (orig u))"
  shows "R s (snd (reader_read orig s))" and "R s (snd (reader_readline orig s))"
proof -
  obtain x t where o: "orig s = (x, t)" by fastforce
  have st: "R s t" using assms [of s] o by simp
  have "R s (timeout_seen e t)" for e using st seen by (blast intro: trans)
  moreover have "R s (count_in n t)" if "0 < n" for n using st receiving [OF that] by (blast intro: trans)
  ultimately show "R s (snd (reader_read orig s))" "R s (snd (reader_readline orig s))"
    using o st by (simp_all add: reader_read_def reader_readline_def split: sum.splits)
qed

lemma reading_into:
  assumes "\<And>u. R u (snd (orig u))"
  shows "R s (snd (reader_readinto orig s))"
proof -
  obtain x t where o: "orig s = (x, t)" by fastforce
  have st: "R s t" using assms [of s] o by simp
  have "R s (timeout_seen e t)" for e using st seen by (blast intro: trans)
  moreover have "R s (count_in n t)" if "0 < n" for n using st receiving [OF that] by (blast intro: trans)
  ultimately show ?thesis
    using o st by (simp add: reader_readinto_def split: sum.splits)
qed

lemma initialising:
  assumes "\<And>u. R u (snd (orig u))"
  shows "R s (snd (patched_resp_init orig has_fp s))"
  using assms [of s] by (auto simp: patched_resp_init_def andthen_def split: prod.splits sum.splits)

theorem every_run: "activity gs cs s t \<Longrightarrow> R s t"
  by (induction rule: activity.induct)
     (auto intro: refl trans environment resolving connecting shaking_hands requesting
        closing_connection sending_data reading reading_into initialising)

end

end
