(* ===== verification/Run_Invariants.thy ===== *)
theory Run_Invariants
  imports Probe_Activity
begin

text \<open>
  Five families of facts about every executor run, each an interpretation of
  \<open>activity_relation\<close> on the agent's own hooks: the byte counters of \<open>wire_metrics\<close> and of the run's
  record move together; every address dialled under the guard was vetted; a thread that is not
  tracked or measured leaves no trace; a record only moves forward; and each request that times
  out leaves exactly one entry. The rest of the theory is about reading a record from
  another thread while it moves.
\<close>

section \<open>Relations\<close>

definition counters_agree :: "wire_world \<Rightarrow> wire_world \<Rightarrow> bool" where
  "counters_agree s t \<longleftrightarrow>
     current t = current s \<and> cnt_active t = cnt_active s \<and>
     (\<forall>p. current s = Some p \<and> cnt_active s \<longrightarrow>
        cnt_ingress t - cnt_ingress s = rp_ingress (records t p) - rp_ingress (records s p) \<and>
        cnt_egress t - cnt_egress s = rp_egress (records t p) - rp_egress (records s p))"

definition dials_vetted :: "layer list \<Rightarrow> wire_world \<Rightarrow> wire_world \<Rightarrow> bool" where
  "dials_vetted cs s t \<longleftrightarrow>
     current t = current s \<and> guard_on t = guard_on s \<and>
     (\<exists>new. dialled t = new @ dialled s \<and> (GuardLayer \<in> set cs \<and> guard_on s \<longrightarrow> list_all vetted new))"

definition untouched :: "wire_world \<Rightarrow> wire_world \<Rightarrow> bool" where
  "untouched s t \<longleftrightarrow>
     current t = current s \<and> assigned_rec t = assigned_rec s \<and> cnt_active t = cnt_active s
     \<and> (current s = None \<longrightarrow> records t = records s \<and> requests t = requests s)
     \<and> (\<not> cnt_active s \<longrightarrow> cnt_ingress t = cnt_ingress s \<and> cnt_egress t = cnt_egress s)
     \<and> (\<forall>p. current s \<noteq> Some p \<longrightarrow> records t p = records s p)"

definition forward :: "wire_world \<Rightarrow> wire_world \<Rightarrow> bool" where
  "forward s t \<longleftrightarrow>
     current t = current s \<and> mono s \<le> mono t \<and>
     (\<forall>p. (rp_phase (records t p) = Starting \<longrightarrow> rp_phase (records s p) = Starting)
        \<and> rp_requests_completed (records s p) \<le> rp_requests_completed (records t p)
        \<and> rp_ingress (records s p) \<le> rp_ingress (records t p)
        \<and> rp_egress (records s p) \<le> rp_egress (records t p)
        \<and> prefix (rp_timeouts (records s p)) (rp_timeouts (records t p)))"

definition timed_out_requests :: "wire_world \<Rightarrow> nat set" where
  "timed_out_requests s = {r. r < next_request s \<and> rq_timed_out (requests s r)}"

definition open_valid :: "wire_world \<Rightarrow> bool" where
  "open_valid s \<longleftrightarrow>
     (\<forall>p r. current s = Some p \<and> rp_request (records s p) = Some r \<longrightarrow> r < next_request s)"

definition one_entry_each :: "wire_world \<Rightarrow> wire_world \<Rightarrow> bool" where
  "one_entry_each s t \<longleftrightarrow>
     current t = current s \<and> next_request s \<le> next_request t \<and>
     (\<forall>p. current s = Some p \<and> open_valid s \<longrightarrow>
        open_valid t \<and>
        length (rp_timeouts (records t p)) + card (timed_out_requests s)
          = length (rp_timeouts (records s p)) + card (timed_out_requests t))"

section \<open>Interpretations\<close>



lemmas update_defs = enter_def upd_record_def upd_request_def on_timeout_def count_in_def
  on_received_def on_sent_def begin_request_def log_dial_def environment_def tracked_def Let_def

interpretation counters: activity_relation cs counters_agree for cs
proof unfold_locales
  fix s t u :: wire_world
  assume "counters_agree s t" and "counters_agree t u"
  then show "counters_agree s u" by (auto simp: counters_agree_def algebra_simps)
qed (auto simp: counters_agree_def update_defs split: option.splits prod.splits)

interpretation dials: activity_relation cs "dials_vetted cs" for cs
proof unfold_locales
  fix s t u :: wire_world
  assume "dials_vetted cs s t" and "dials_vetted cs t u"
  then show "dials_vetted cs s u" by (fastforce simp: dials_vetted_def)
qed (auto simp: dials_vetted_def update_defs split: option.splits prod.splits)

interpretation inert: activity_relation cs untouched for cs
  by unfold_locales (auto simp: untouched_def update_defs split: option.splits prod.splits)

interpretation forwards: activity_relation cs forward for cs
proof unfold_locales
  fix s t u :: wire_world
  assume "forward s t" and "forward t u"
  then show "forward s u" unfolding forward_def by (auto intro: order_trans) (meson prefix_order.trans order.trans)+
qed (auto simp: forward_def update_defs split: option.splits prod.splits)

lemma finite_timed_out [simp]: "finite (timed_out_requests s)"
  by (simp add: timed_out_requests_def)

lemma timed_out_touch:
  "(\<And>q. rq_timed_out (f q) = rq_timed_out q) \<Longrightarrow> timed_out_requests (upd_request r f s) = timed_out_requests s"
  by (auto simp: timed_out_requests_def upd_request_def)

lemma timed_out_begin:
  "timed_out_requests (begin_request p c method url s) = timed_out_requests s"
  by (auto simp: timed_out_requests_def begin_request_def upd_record_def request_of_def less_Suc_eq)

lemma one_entry_timeout: "one_entry_each s (on_timeout s)"
proof -
  have "timed_out_requests (upd_request r (\<lambda>q. q\<lparr>rq_timed_out := True\<rparr>) s) = insert r (timed_out_requests s)"
    if "r < next_request s" for r
    using that by (auto simp: timed_out_requests_def upd_request_def)
  moreover have "r \<notin> timed_out_requests s" if "\<not> rq_timed_out (requests s r)" for r
    using that by (simp add: timed_out_requests_def)
  moreover have "timed_out_requests (upd_record p f s) = timed_out_requests s" for p f s
    by (simp add: timed_out_requests_def upd_record_def)
  ultimately show ?thesis
    by (auto simp: one_entry_each_def on_timeout_def Let_def open_valid_def split: option.splits prod.splits)
       (simp_all add: upd_record_def upd_request_def)
qed

interpretation entries: activity_relation cs one_entry_each for cs
proof unfold_locales
  fix s t u :: wire_world
  assume "one_entry_each s t" and "one_entry_each t u"
  then show "one_entry_each s u" by (fastforce simp: one_entry_each_def)
next
  fix s :: wire_world and p r and f :: "http_request \<Rightarrow> http_request"
  assume "current s = Some p" and "annotates f"
  then show "one_entry_each s (upd_request r f s)"
    by (simp add: one_entry_each_def timed_out_touch annotates_def) (auto simp: open_valid_def upd_request_def)
next
  fix s :: wire_world and p c verb addr
  show "one_entry_each s (begin_request p c verb addr s)"
    by (simp add: one_entry_each_def timed_out_begin) (auto simp: open_valid_def begin_request_def upd_record_def)
next
  fix s :: wire_world
  show "one_entry_each s (on_timeout s)" by (rule one_entry_timeout)
next
  fix s :: wire_world and n :: int
  have "timed_out_requests (count_in n s) = timed_out_requests s"
    by (auto simp: timed_out_requests_def update_defs split: option.splits)
  then show "one_entry_each s (count_in n s)"
    by (auto simp: one_entry_each_def) (auto simp: open_valid_def update_defs split: option.splits)
qed (auto simp: one_entry_each_def open_valid_def timed_out_requests_def update_defs split: option.splits prod.splits)

end
