(* ===== verification/Probe_Run.thy ===== *)
theory Probe_Run
  imports Run_Invariants
begin

text \<open>
  The three scopes \<open>executor._run_sync\<close> puts around the Lace executor (byte counting, egress guard,
  progress tracking) and what they guarantee of every run: the properties rest on the
  interpretations of \<open>Run_Invariants\<close>. The rest of the theory is about reading a record from
  another thread while it moves.
\<close>

section \<open>The scopes of a probe run\<close>

text \<open>
  \<open>with measure() as wire, guard_ctx, track(progress)\<close> of \<open>executor._run_sync\<close>: the outcome of
  the block, the two totals of \<open>wire\<close>, and the world afterwards.
\<close>

definition probe_scopes ::
  "bool \<Rightarrow> nat \<Rightarrow> (wire_world, 'r) proc \<Rightarrow> wire_world \<Rightarrow> ((py_exn + 'r) \<times> int \<times> int) \<times> wire_world" where
  "probe_scopes egress_enabled p body =
     measure_wire (if egress_enabled then active (track p body) else track p body)"

definition scoped_world :: "bool \<Rightarrow> nat \<Rightarrow> wire_world \<Rightarrow> wire_world" where
  "scoped_world egress_enabled p s =
     s\<lparr>cnt_active := True, cnt_ingress := 0, cnt_egress := 0,
       guard_on := egress_enabled \<or> guard_on s, current := Some p\<rparr>"

definition unscoped_world :: "wire_world \<Rightarrow> wire_world \<Rightarrow> wire_world" where
  "unscoped_world s t =
     t\<lparr>cnt_active := cnt_active s, cnt_ingress := cnt_ingress s, cnt_egress := cnt_egress s,
       current := current s\<rparr>"

text \<open>A concrete run: one HTTPS call that resolves, is refused by the guard or times out
  connecting, and is closed.\<close>

definition sample_conn :: http_connection where
  "sample_conn = \<lparr>cn_id = 7, cn_host = ''example.com'', cn_port = 443, cn_https = True\<rparr>"

definition sample_world :: wire_world where
  "sample_world =
     \<lparr>guard_on = False, mono = 0, wall = 1000000, kernel_info = (\<lambda>_. None),
      requests = (\<lambda>_. request_of sample_conn ''GET'' ''/'' 0), next_request = 0,
      records = (\<lambda>_. fresh_progress 0), next_record = 1, current = None, assigned_rec = None,
      cnt_active = False, cnt_ingress = 0, cnt_egress = 0, dialled = [], files = (\<lambda>_. None)\<rparr>"

definition sample_resolve :: "string option \<Rightarrow> int \<Rightarrow> (wire_world, addrinfo list) proc" where
  "sample_resolve host port s =
     (Inr [\<lparr>ai_family = 2, ai_kind = 1, ai_proto = 6, ai_canonname = [], ai_ip = ''8.8.8.8'', ai_port = port\<rparr>],
      s\<lparr>mono := mono s + 4000\<rparr>)"

definition sample_connect :: "address \<Rightarrow> (wire_world, unit) proc" where
  "sample_connect a s = (Inl (TimeoutError ''timed out''), (log_dial a s)\<lparr>mono := mono s + 3000000\<rparr>)"

definition sample_body :: "layer list \<Rightarrow> layer list \<Rightarrow> (wire_world, string) proc" where
  "sample_body gs cs =
     andthen
       (hook_request sample_conn ''GET'' ''/''
          (andthen (patched_send (Some 40) (\<lambda>s. (Inr (), s)))
             (\<lambda>_. andthen (stacked_getaddrinfo gs sample_resolve (Some ''example.com'') 443)
                (\<lambda>_. stacked_connect cs 3 sample_connect (InetAddr ''8.8.8.8'' [443])))))
       (\<lambda>_. reader_readline (\<lambda>s. (Inr ''HTTP/1.1 200 OK'', s)))"

text \<open>Reading a record while it moves. The worlds a reader can see while the run's thread executes \<open>enter\<close> or the body of the \<open>close\<close>
  hook: one after each attribute write.
\<close>

definition enter_steps :: "phase \<Rightarrow> nat \<Rightarrow> 'a probe_world_scheme \<Rightarrow> 'a probe_world_scheme list" where
  "enter_steps ph p s =
     (if ph \<noteq> rp_phase (records s p)
      then let s1 = upd_record p (\<lambda>rp. rp\<lparr>rp_phase := ph\<rparr>) s
           in [s1, upd_record p (\<lambda>rp. rp\<lparr>rp_phase_since := mono s1\<rparr>) s1]
      else [])"

definition close_steps :: "nat \<Rightarrow> 'a probe_world_scheme \<Rightarrow> 'a probe_world_scheme list" where
  "close_steps p s =
     (let s1 = upd_record p (\<lambda>rp. rp\<lparr>rp_request := None\<rparr>) s;
          s2 = upd_record p (\<lambda>rp. rp\<lparr>rp_requests_completed := rp_requests_completed rp + 1\<rparr>) s1
      in [s1, s2] @ enter_steps Between_requests p s2)"

section \<open>Lemmas\<close>

lemma probe_scopes_unfold:
  "probe_scopes egress p body s =
     (let (r, t) = body (scoped_world egress p s)
      in ((r, cnt_ingress t, cnt_egress t),
          (unscoped_world s t)\<lparr>guard_on := if egress then guard_on s else guard_on t\<rparr>))"
  by (cases "body (scoped_world egress p s)"; cases egress)
     (auto simp: probe_scopes_def measure_wire_def with_cell_def finally_do_def active_def track_def
       Let_def get_counter_def put_counter_def scoped_world_def unscoped_world_def split: prod.splits)

lemma activity_andthen:
  assumes "\<And>u. activity gs cs u (snd (m u))" and "\<And>a u. activity gs cs u (snd (f a u))"
  shows "activity gs cs s (snd (andthen m f s))"
  using assms(1) [of s] assms(2)
  by (auto simp: andthen_def split: prod.splits sum.splits intro: activity.seq)

lemma environmentI:
  "0 \<le> d \<Longrightarrow> t = s\<lparr>mono := mono s + d\<rparr> \<Longrightarrow> environment s t"
  unfolding environment_def
  by (intro exI [of _ d] exI [of _ "wall s"] exI [of _ "kernel_info s"] exI [of _ "files s"]) simp

lemma sample_system: "system_resolve sample_resolve" "system_connect sample_connect"
proof -
  have "environment (log_dial a u) (snd (sample_connect a u))" for a u
    by (rule environmentI [of 3000000]) (simp_all add: sample_connect_def log_dial_def)
  then show "system_connect sample_connect" by (simp add: system_connect_def)
  show "system_resolve sample_resolve"
    by (auto simp: system_resolve_def sample_resolve_def intro: environmentI [of 4000])
qed

lemma sample_executor_body: "executor_body gs cs (sample_body gs cs)"
proof -
  have "activity gs cs u (snd ((\<lambda>s. (Inr (), s)) u))"
    "activity gs cs u (snd ((\<lambda>s. (Inr ''HTTP/1.1 200 OK'', s)) u))" for u
    by (simp_all add: activity.idle)
  with sample_system show ?thesis
    unfolding executor_body_def sample_body_def
    by (intro allI activity_andthen activity.request activity.send activity.resolve activity.connect
        activity.readline)
qed

lemma scoped_sim [simp]:
  "current (scoped_world g p s) = Some p" "cnt_active (scoped_world g p s)"
  "cnt_ingress (scoped_world g p s) = 0" "cnt_egress (scoped_world g p s) = 0"
  "records (scoped_world g p s) = records s" "requests (scoped_world g p s) = requests s"
  "next_request (scoped_world g p s) = next_request s" "dialled (scoped_world g p s) = dialled s"
  "guard_on (scoped_world g p s) \<longleftrightarrow> g \<or> guard_on s" "mono (scoped_world g p s) = mono s"
  "assigned_rec (scoped_world g p s) = assigned_rec s"
  by (simp_all add: scoped_world_def)

lemma unscoped_sim [simp]:
  "records (unscoped_world s t) = records t" "requests (unscoped_world s t) = requests t"
  "next_request (unscoped_world s t) = next_request t" "dialled (unscoped_world s t) = dialled t"
  "current (unscoped_world s t) = current s" "mono (unscoped_world s t) = mono t"
  "get_counter (unscoped_world s t) = get_counter s" "assigned_rec (unscoped_world s t) = assigned_rec t"
  "timed_out_requests (unscoped_world s t) = timed_out_requests t"
  by (simp_all add: unscoped_world_def get_counter_def timed_out_requests_def)

lemma timed_out_cong [simp]:
  "timed_out_requests (s\<lparr>guard_on := b\<rparr>) = timed_out_requests s"
  "timed_out_requests (scoped_world g p s) = timed_out_requests s"
  by (simp_all add: timed_out_requests_def)

lemma probe_scopes_activity:
  assumes "executor_body gs cs body" and "probe_scopes egress p body s = ((r, i, e), t)"
  obtains u where "activity gs cs (scoped_world egress p s) u"
    "i = cnt_ingress u" "e = cnt_egress u"
    "t = (unscoped_world s u)\<lparr>guard_on := if egress then guard_on s else guard_on u\<rparr>"
proof -
  obtain x u where b: "body (scoped_world egress p s) = (x, u)" by fastforce
  have "activity gs cs (scoped_world egress p s) (snd (body (scoped_world egress p s)))"
    using assms(1) by (simp add: executor_body_def)
  with b assms(2) show thesis by (intro that [of u]) (auto simp: probe_scopes_unfold)
qed

lemma enter_steps_last: "last (s # enter_steps ph p s) = enter ph p s"
  by (simp add: enter_steps_def enter_def upd_record_def Let_def)

lemma close_steps_last:
  "last (s # close_steps p s) = enter Between_requests p
     (upd_record p (\<lambda>rp. rp\<lparr>rp_request := None, rp_requests_completed := rp_requests_completed rp + 1\<rparr>) s)"
  by (simp add: close_steps_def enter_steps_def enter_def upd_record_def Let_def)

lemma snapshot_none_iff:
  "snapshot p s = None \<longleftrightarrow> rp_phase (records s p) = Starting \<and> rp_requests_completed (records s p) = 0"
  by (simp add: snapshot_def snapshot_at_def Let_def split: prod.splits)

lemma snapshot_completed:
  "snapshot p s = Some st \<Longrightarrow> st_requests_completed st = rp_requests_completed (records s p)"
  by (auto simp: snapshot_def snapshot_at_def Let_def split: prod.splits if_splits)

text \<open>The bytes of a chunk are counted before the connection they would leave by is opened: a
  chunk that is never sent is in the totals all the same.\<close>

lemma unsent_bytes_counted:
  assumes "cnt_active s" and "\<And>u. orig u = (Inl e, u)"
  shows "cnt_egress (snd (patched_send (Some n) orig s)) = cnt_egress s + int n"
  using assms
  by (auto simp: patched_send_def timeout_seen_def on_timeout_def on_sent_def enter_def upd_record_def
      upd_request_def Let_def split: option.splits prod.splits)

section \<open>Properties\<close>

text \<open>C19: For any run, whatever its outcome, the two byte totals read from \<open>measure()\<close> are exactly what the
  run's own record gained during it, and neither is negative: the totals in a finished result and
  those in a stand-in result (which reads the record) count the same bytes.\<close>

theorem wire_totals_match_record:
  assumes "executor_body gs cs body" and "probe_scopes egress p body s = ((r, i, e), t)"
  shows "i = rp_ingress (records t p) - rp_ingress (records s p)
       \<and> e = rp_egress (records t p) - rp_egress (records s p)
       \<and> 0 \<le> i \<and> 0 \<le> e"
  using assms
proof (rule probe_scopes_activity)
  fix u
  assume a: "activity gs cs (scoped_world egress p s) u" and t: "i = cnt_ingress u" "e = cnt_egress u"
    "t = (unscoped_world s u)\<lparr>guard_on := if egress then guard_on s else guard_on u\<rparr>"
  have "counters_agree (scoped_world egress p s) u" by (rule counters.every_run [OF a])
  moreover have "forward (scoped_world egress p s) u" by (rule forwards.every_run [OF a])
  ultimately show ?thesis using t by (force simp: counters_agree_def forward_def)
qed

theorem wire_totals_match_record_witness:
  "\<exists>r i e t. probe_scopes True 0 (sample_body [GuardLayer] [GuardLayer]) sample_world = ((r, i, e), t)
     \<and> i = rp_ingress (records t 0) - 0 \<and> e = rp_egress (records t 0) - 0"
proof -
  obtain r i e t where x: "probe_scopes True 0 (sample_body [GuardLayer] [GuardLayer]) sample_world = ((r, i, e), t)"
    by (metis prod.collapse)
  have "rp_ingress (records sample_world 0) = 0" "rp_egress (records sample_world 0) = 0"
    by (simp_all add: sample_world_def fresh_progress_def)
  with wire_totals_match_record [OF sample_executor_body x] x show ?thesis by auto
qed

text \<open>C10: Whichever of the guard and the progress hooks is installed first, every address a guarded
  run hands to the system's \<open>connect\<close>, redirects and retries included, is an address tuple whose IP the
  policy lets through.\<close>

theorem guarded_run_dials_vetted_only:
  assumes "\<not> guard_installed m"
    and "m' \<in> {progress_install (guard_install m), guard_install (progress_install m)}"
    and "executor_body gs (connect_slot m') body"
    and "probe_scopes True p body s = ((r, i, e), t)"
  shows "\<exists>new. dialled t = new @ dialled s \<and> list_all vetted new"
  using assms(3,4)
proof (rule probe_scopes_activity)
  fix u
  assume a: "activity gs (connect_slot m') (scoped_world True p s) u"
    "t = (unscoped_world s u)\<lparr>guard_on := if True then guard_on s else guard_on u\<rparr>"
  have "GuardLayer \<in> set (connect_slot m')"
    using assms(1,2) by (auto simp: progress_install_def guard_install_def)
  with dials.every_run [OF a(1)] a(2) show ?thesis by (auto simp: dials_vetted_def)
qed

theorem guarded_run_dials_vetted_only_witness:
  "\<exists>r i e t new. probe_scopes True 0 (sample_body [GuardLayer, ProgressLayer] [GuardLayer, ProgressLayer]) sample_world
      = ((r, i, e), t) \<and> dialled t = new @ [] \<and> list_all vetted new"
proof -
  define m where "m = \<lparr>getaddrinfo_slot = [], connect_slot = [], guard_installed = False, wrap_slot = 0,
    request_slot = 0, close_slot = 0, progress_installed = False\<rparr>"
  define m' where "m' = guard_install (progress_install m)"
  have c: "connect_slot m' = [GuardLayer, ProgressLayer]" "\<not> guard_installed m"
    by (simp_all add: m_def m'_def guard_install_def progress_install_def)
  have b: "executor_body [GuardLayer, ProgressLayer] (connect_slot m')
      (sample_body [GuardLayer, ProgressLayer] [GuardLayer, ProgressLayer])"
    unfolding c by (rule sample_executor_body)
  obtain r i e t where x: "probe_scopes True 0 (sample_body [GuardLayer, ProgressLayer] [GuardLayer, ProgressLayer]) sample_world
      = ((r, i, e), t)" by (metis prod.collapse)
  have "dialled sample_world = []" by (simp add: sample_world_def)
  with guarded_run_dials_vetted_only [OF c(2) _ b x] x show ?thesis by (auto simp: m'_def)
qed



text \<open>A probe run leaves the worker thread as it found it, whether the executor returns or raises: the
  guard off again, no record tracked, the enclosing byte counter and assigned record restored.\<close>

theorem probe_scopes_restore:
  "guard_on (snd (probe_scopes True p body s)) = guard_on s
   \<and> current (snd (probe_scopes egress p body s)) = current s
   \<and> get_counter (snd (probe_scopes egress p body s)) = get_counter s
   \<and> assigned_rec (snd (assign p work s)) = assigned_rec s"
  by (simp add: probe_scopes_unfold assign_def assign_scope.restores split: prod.splits)
     (auto simp: get_counter_def unscoped_world_def)

text \<open>On a thread that is neither tracked nor measured (the health challenge, bootstrap, renewal) the
  installed hooks change no record, no request and no counter.\<close>

theorem untracked_traffic_leaves_no_trace:
  assumes "executor_body gs cs body" and "current s = None" and "\<not> cnt_active s"
  shows "records (snd (body s)) = records s \<and> requests (snd (body s)) = requests s
    \<and> get_counter (snd (body s)) = get_counter s \<and> current (snd (body s)) = None"
proof -
  have "activity gs cs s (snd (body s))" using assms(1) by (simp add: executor_body_def)
  from inert.every_run [OF this] assms(2,3) show ?thesis by (auto simp: untouched_def get_counter_def)
qed


theorem untracked_traffic_leaves_no_trace_witness:
  "records (snd (sample_body [ProgressLayer] [ProgressLayer] sample_world)) = records sample_world"
  using untracked_traffic_leaves_no_trace [OF sample_executor_body, of sample_world]
  by (simp add: sample_world_def)

text \<open>Once a run can be said to be somewhere, it stays so: a record with a snapshot still has one after any
  further activity, and its count of completed requests never goes down.\<close>

theorem snapshot_stays_and_grows:
  assumes "executor_body gs cs body" and "probe_scopes egress p body s = ((r, i, e), t)"
    and "snapshot p s = Some st" and "0 \<le> rp_requests_completed (records s p)"
  shows "\<exists>st'. snapshot p t = Some st' \<and> st_requests_completed st \<le> st_requests_completed st'"
  using assms(1,2)
proof (rule probe_scopes_activity)
  fix u
  assume a: "activity gs cs (scoped_world egress p s) u"
    "t = (unscoped_world s u)\<lparr>guard_on := if egress then guard_on s else guard_on u\<rparr>"
  have "forward (scoped_world egress p s) u" by (rule forwards.every_run [OF a(1)])
  with a(2) have f: "rp_phase (records t p) = Starting \<Longrightarrow> rp_phase (records s p) = Starting"
     "rp_requests_completed (records s p) \<le> rp_requests_completed (records t p)"
    by (simp_all add: forward_def)
  have "\<not> (rp_phase (records s p) = Starting \<and> rp_requests_completed (records s p) = 0)"
    using assms(3) snapshot_none_iff [of p s] by simp
  with f assms(4) have "\<not> (rp_phase (records t p) = Starting \<and> rp_requests_completed (records t p) = 0)"
    by auto
  then obtain st' where t: "snapshot p t = Some st'" using snapshot_none_iff [of p t] by auto
  with f(2) show ?thesis using snapshot_completed [OF assms(3)] snapshot_completed [OF t] by simp
qed

theorem snapshot_stays_and_grows_witness:
  "\<exists>r i e t st'. probe_scopes True 0 (sample_body [ProgressLayer] [ProgressLayer]) (enter Between_requests 0 sample_world)
       = ((r, i, e), t) \<and> snapshot 0 t = Some st' \<and> 0 \<le> st_requests_completed st'"
proof -
  let ?s = "enter Between_requests 0 sample_world"
  obtain r i e t where x: "probe_scopes True 0 (sample_body [ProgressLayer] [ProgressLayer]) ?s = ((r, i, e), t)"
    by (metis prod.collapse)
  have n: "rp_requests_completed (records ?s 0) = 0" "rp_phase (records ?s 0) = Between_requests"
    by (simp_all add: enter_def upd_record_def sample_world_def fresh_progress_def)
  then obtain st where st: "snapshot 0 ?s = Some st" using snapshot_none_iff [of 0 ?s] by auto
  with n have "st_requests_completed st = 0" by (simp add: snapshot_completed)
  with snapshot_stays_and_grows [OF sample_executor_body x st] x n show ?thesis by auto
qed

text \<open>A reader that comes between the two writes of \<open>enter\<close> sees the new phase with the old phase's start: it
  reports the run to have been in the new phase for as long as it was in the old one. The writes
  are per attribute, so a snapshot can mix two states.\<close>

theorem snapshot_between_writes:
  assumes "enter_steps ph p s = [mid, after]" and "0 < ms_between (rp_phase_since (records s p)) (mono s)"
    and "ph \<noteq> Starting"
  shows "map_option (\<lambda>st. (st_phase st, st_phase_ms st)) (snapshot p mid)
           = Some (ph, ms_between (rp_phase_since (records s p)) (mono s))
       \<and> map_option (\<lambda>st. (st_phase st, st_phase_ms st)) (snapshot p after) = Some (ph, 0)
       \<and> after = enter ph p s \<and> snapshot p mid \<noteq> snapshot p after \<and> snapshot p mid \<noteq> snapshot p s"
proof -
  have e: "mid = upd_record p (\<lambda>rp. rp\<lparr>rp_phase := ph\<rparr>) s" "ph \<noteq> rp_phase (records s p)"
    using assms(1) by (auto simp: enter_steps_def Let_def split: if_splits)
  have a: "after = enter ph p s" using enter_steps_last [of s ph p] assms(1) by simp
  have m: "map_option (\<lambda>st. (st_phase st, st_phase_ms st)) (snapshot p mid)
           = Some (ph, ms_between (rp_phase_since (records s p)) (mono s))"
    using assms(3) e by (simp add: snapshot_def snapshot_at_def Let_def upd_record_def split: prod.splits)
  moreover have "map_option (\<lambda>st. (st_phase st, st_phase_ms st)) (snapshot p after) = Some (ph, 0)"
    using assms(3) e a
    by (simp add: snapshot_def snapshot_at_def Let_def upd_record_def enter_def ms_between_def split: prod.splits)
  moreover have "map_option st_phase (snapshot p s) \<noteq> Some ph"
    using e by (simp add: snapshot_def snapshot_at_def Let_def split: prod.splits)
  ultimately show ?thesis using a assms(2) by fastforce
qed

theorem snapshot_between_writes_witness:
  "snapshot 0 (sample_world\<lparr>mono := 30000000, records := (records sample_world)(0 := (fresh_progress 0)\<lparr>rp_phase := Awaiting_response\<rparr>)\<rparr>)
    \<noteq> snapshot 0 (sample_world\<lparr>mono := 30000000, records := (records sample_world)(0 := (fresh_progress 30000000)\<lparr>rp_phase := Awaiting_response\<rparr>)\<rparr>)"
proof -
  let ?s = "sample_world\<lparr>mono := 30000000, records := (records sample_world)(0 := (fresh_progress 0)\<lparr>rp_phase := Sending\<rparr>)\<rparr>"
  let ?mid = "sample_world\<lparr>mono := 30000000, records := (records sample_world)(0 := (fresh_progress 0)\<lparr>rp_phase := Awaiting_response\<rparr>)\<rparr>"
  let ?after = "sample_world\<lparr>mono := 30000000, records := (records sample_world)(0 := (fresh_progress 30000000)\<lparr>rp_phase := Awaiting_response\<rparr>)\<rparr>"
  have "enter_steps Awaiting_response 0 ?s = [?mid, ?after]"
    by (simp add: enter_steps_def upd_record_def fresh_progress_def)
  moreover have "0 < ms_between (rp_phase_since (records ?s 0)) (mono ?s)"
    by (simp add: ms_between_def fresh_progress_def)
  moreover have "Awaiting_response \<noteq> Starting" by simp
  ultimately have "snapshot 0 ?mid \<noteq> snapshot 0 ?after"
    using snapshot_between_writes [of Awaiting_response 0 ?s ?mid ?after] by blast
  then show ?thesis .
qed

end
