(* ===== verification/Iso_Time.thy ===== *)
theory Iso_Time
  imports PyStr
begin

text \<open>
  The two clock formats of \<open>services/executor.py\<close>: \<open>_now_iso\<close>, the stamp of a result, and
  \<open>_parse_iso\<close>, which reads the stamps of a call. Instants are whole microseconds since
  1970-01-01T00:00Z. The calendar is the proleptic Gregorian one of \<open>datetime\<close>, computed the
  way that module does (\<open>_ord2ymd\<close>, \<open>_ymd2ord\<close>). Of \<open>fromisoformat\<close> the model reads the extended
  formats (\<open>YYYY-MM-DD\<close>, then any one separator and \<open>HH[:MM[:SS[.f+]]]\<close> with an optional zone); a text in
  the basic or week formats, which neither the agent nor the Lace executor writes, reads as no
  instant. A text without a zone is taken to be UTC, the zone of the container.
\<close>

section \<open>Calendar\<close>

definition is_leap :: "int \<Rightarrow> bool" where
  "is_leap y = (y mod 4 = 0 \<and> (y mod 100 \<noteq> 0 \<or> y mod 400 = 0))"

definition days_in_month :: "bool \<Rightarrow> nat \<Rightarrow> int" where
  "days_in_month leap m =
     (if m = 2 then (if leap then 29 else 28) else if m \<in> {4, 6, 9, 11} then 30 else 31)"

fun days_before_month :: "bool \<Rightarrow> nat \<Rightarrow> int" where
  "days_before_month leap 0 = 0"
| "days_before_month leap (Suc m) = (if m = 0 then 0 else days_before_month leap m + days_in_month leap m)"

definition days_before_year :: "int \<Rightarrow> int" where
  "days_before_year y = (let x = y - 1 in x * 365 + x div 4 - x div 100 + x div 400)"

definition ymd2ord :: "int \<Rightarrow> nat \<Rightarrow> int \<Rightarrow> int" where
  "ymd2ord y m d = days_before_year y + days_before_month (is_leap y) m + d"

definition year_len :: "bool \<Rightarrow> int" where
  "year_len leap = (if leap then 366 else 365)"

text \<open>Which month day \<open>n\<close> of a year (from 0) is in: the estimate \<open>(n + 50) >> 5\<close>, corrected.\<close>

definition month_of :: "bool \<Rightarrow> int \<Rightarrow> nat \<times> int" where
  "month_of leap n =
     (let m = nat ((n + 50) div 32);
          m' = (if n < days_before_month leap m then m - 1 else m)
      in (m', n - days_before_month leap m' + 1))"

definition ord2ymd :: "int \<Rightarrow> int \<times> nat \<times> int" where
  "ord2ymd ordinal =
     (let n = ordinal - 1;
          n400 = n div 146097; r400 = n mod 146097;
          n100 = r400 div 36524; r100 = r400 mod 36524;
          n4 = r100 div 1461; r4 = r100 mod 1461;
          n1 = r4 div 365; r1 = r4 mod 365;
          y = n400 * 400 + 1 + n100 * 100 + n4 * 4 + n1
      in if n1 = 4 \<or> n100 = 4 then (y - 1, 12, 31)
         else let leap = (n1 = 3 \<and> (n4 \<noteq> 24 \<or> n100 = 3)); (m, d) = month_of leap r1 in (y, m, d))"

definition epoch_ord :: int where
  "epoch_ord = 719163"

section \<open>Writing\<close>

definition pad :: "nat \<Rightarrow> nat \<Rightarrow> string" where
  "pad k n = (let s = nat_str 10 n in replicate (k - length s) CHR ''0'' @ s)"

text \<open>\<open>isoformat(timespec="milliseconds")\<close> of an aware UTC datetime, and \<open>_now_iso\<close>.\<close>

definition isoformat_ms :: "int \<Rightarrow> string" where
  "isoformat_ms t =
     (let (y, m, d) = ord2ymd (t div 86400000000 + epoch_ord); us = nat (t mod 86400000000)
      in pad 4 (nat y) @ ''-'' @ pad 2 m @ ''-'' @ pad 2 (nat d) @ ''T''
         @ pad 2 (us div 3600000000) @ '':'' @ pad 2 (us div 60000000 mod 60) @ '':''
         @ pad 2 (us div 1000000 mod 60) @ ''.'' @ pad 3 (us div 1000 mod 1000) @ ''+00:00'')"

definition now_iso :: "int \<Rightarrow> string" where
  "now_iso t = replace_all ''+00:00'' ''Z'' (isoformat_ms t)"

section \<open>Reading\<close>

definition parse_digits :: "nat \<Rightarrow> string \<Rightarrow> (nat \<times> string) option" where
  "parse_digits k s =
     (if k \<le> length s \<and> list_all is_digit (take k s)
      then Some (digits_val 10 (take k s), drop k s) else None)"

text \<open>\<open>YYYY-MM-DD\<close>, checked the way the \<open>datetime\<close> constructor does.\<close>

definition parse_date :: "string \<Rightarrow> (int \<times> string) option" where
  "parse_date s =
     (case parse_digits 4 s of
        Some (y, CHR ''-'' # s1) \<Rightarrow>
          (case parse_digits 2 s1 of
             Some (m, CHR ''-'' # s2) \<Rightarrow>
               (case parse_digits 2 s2 of
                  Some (d, s3) \<Rightarrow>
                    if 1 \<le> y \<and> 1 \<le> m \<and> m \<le> 12 \<and> 1 \<le> d \<and> int d \<le> days_in_month (is_leap (int y)) m
                    then Some (ymd2ord (int y) m (int d), s3) else None
                | None \<Rightarrow> None)
           | _ \<Rightarrow> None)
      | _ \<Rightarrow> None)"

text \<open>A fraction of a second: the first six digits, the rest (digits too) is dropped.\<close>

definition parse_fraction :: "string \<Rightarrow> nat option" where
  "parse_fraction s =
     (if s \<noteq> [] \<and> list_all is_digit s
      then Some (digits_val 10 (take 6 (s @ replicate 5 CHR ''0'')))
      else None)"

text \<open>\<open>HH[:MM[:SS[.f+]]]\<close>, in hours, minutes, seconds and microseconds.\<close>

definition parse_hms :: "string \<Rightarrow> (nat \<times> nat \<times> nat \<times> nat) option" where
  "parse_hms s =
     (case parse_digits 2 s of
        None \<Rightarrow> None
      | Some (h, []) \<Rightarrow> Some (h, 0, 0, 0)
      | Some (h, c # s1) \<Rightarrow>
          (if c \<noteq> CHR '':'' then None
           else (case parse_digits 2 s1 of
                   None \<Rightarrow> None
                 | Some (m, []) \<Rightarrow> Some (h, m, 0, 0)
                 | Some (m, c # s2) \<Rightarrow>
                     (if c \<noteq> CHR '':'' then None
                      else (case parse_digits 2 s2 of
                              None \<Rightarrow> None
                            | Some (sec, []) \<Rightarrow> Some (h, m, sec, 0)
                            | Some (sec, c # f) \<Rightarrow>
                                (if c \<in> {CHR ''.'', CHR '',''}
                                 then map_option (\<lambda>us. (h, m, sec, us)) (parse_fraction f) else None))))))"

definition us_of_hms :: "nat \<times> nat \<times> nat \<times> nat \<Rightarrow> int" where
  "us_of_hms x = (case x of (h, m, s, us) \<Rightarrow> ((int h * 60 + int m) * 60 + int s) * 1000000 + int us)"

text \<open>The first \<open>-\<close>, else the first \<open>+\<close>, else the first \<open>Z\<close> splits off the zone.\<close>

definition split_zone :: "string \<Rightarrow> string \<times> char option \<times> string" where
  "split_zone s =
     (case find (\<lambda>c. c \<in> set s) [CHR ''-'', CHR ''+'', CHR ''Z''] of
        None \<Rightarrow> (s, None, [])
      | Some c \<Rightarrow> (case partition_at c s of (u, _, v) \<Rightarrow> (u, Some c, v)))"

definition parse_zone :: "char option \<Rightarrow> string \<Rightarrow> int option" where
  "parse_zone c s =
     (case c of
        None \<Rightarrow> Some 0
      | Some c \<Rightarrow>
          if c = CHR ''Z'' \<and> s = [] then Some 0
          else (case parse_hms s of
                  None \<Rightarrow> None
                | Some x \<Rightarrow>
                    if us_of_hms x < 86400000000
                    then Some (if c = CHR ''-'' then - us_of_hms x else us_of_hms x) else None))"

definition fromisoformat_ts :: "string \<Rightarrow> int option" where
  "fromisoformat_ts s =
     (case parse_date s of
        None \<Rightarrow> None
      | Some (ordinal, rest) \<Rightarrow>
          (let day = (ordinal - epoch_ord) * 86400000000; tstr = drop 1 rest
           in if rest = [] then Some day
              else (case split_zone tstr of
                      (hms, c, z) \<Rightarrow>
                        (case (parse_hms hms, parse_zone c z) of
                           (Some (h, m, sec, us), Some off) \<Rightarrow>
                             if h < 24 \<and> m < 60 \<and> sec < 60
                             then Some (day + us_of_hms (h, m, sec, us) - off) else None
                         | _ \<Rightarrow> None))))"

text \<open>
  \<open>_parse_iso\<close>: \<open>str(value)\<close> of anything but a string or a number is no instant (the shapes
  below are too short or start with a bracket); an integer reads like its digits, too few or in
  the basic format.
\<close>

definition parse_iso :: "json option \<Rightarrow> int option" where
  "parse_iso v = (case v of Some (JStr s) \<Rightarrow> fromisoformat_ts s | _ \<Rightarrow> None)"

section \<open>Lemmas\<close>

lemma days_before_month_table:
  "days_before_month l (Suc 0) = 0" "days_before_month l 2 = 31" "days_before_month l 3 = 59 + of_bool l"
  "days_before_month l 4 = 90 + of_bool l" "days_before_month l 5 = 120 + of_bool l"
  "days_before_month l 6 = 151 + of_bool l" "days_before_month l 7 = 181 + of_bool l"
  "days_before_month l 8 = 212 + of_bool l" "days_before_month l 9 = 243 + of_bool l"
  "days_before_month l 10 = 273 + of_bool l" "days_before_month l 11 = 304 + of_bool l"
  "days_before_month l 12 = 334 + of_bool l"
  by (cases l; simp add: eval_nat_numeral days_in_month_def)+

lemma month_of_correct:
  assumes "month_of l n = (m, d)" and "0 \<le> n" and "n < year_len l"
  shows "1 \<le> m \<and> m \<le> 12 \<and> 1 \<le> d \<and> d \<le> days_in_month l m \<and> days_before_month l m + d = n + 1"
proof -
  define k where "k = (n + 50) div 32"
  have k: "32 * k \<le> n + 50" "n + 50 < 32 * k + 32" by (simp_all add: k_def)
  have "n < 366" using assms(3) by (simp add: year_len_def split: if_splits)
  then have "k \<in> {1..12}" using k assms(2) by auto
  then have "k = 1 \<or> k = 2 \<or> k = 3 \<or> k = 4 \<or> k = 5 \<or> k = 6 \<or> k = 7 \<or> k = 8 \<or> k = 9 \<or> k = 10 \<or> k = 11 \<or> k = 12"
    by simp presburger
  moreover have "month_of l n = (let m = nat k; m' = (if n < days_before_month l m then m - 1 else m)
      in (m', n - days_before_month l m' + 1))"
    by (simp add: month_of_def k_def)
  ultimately show ?thesis
    using assms k by (elim disjE; cases l) (auto simp: days_before_month_table days_in_month_def year_len_def Let_def split: if_splits)
qed


lemma cycle_end:
  fixes x :: int
  assumes "0 < x" and "x \<le> m"
  shows "(m * q + x) mod m = 0 \<longleftrightarrow> x = m"
proof (cases "x = m")
  case False
  then have "x mod m = x" using assms by (intro mod_pos_pos_trivial) auto
  with False assms(1) show ?thesis by simp
qed simp

lemma days_before_cycles:
  assumes "0 \<le> b" "b \<le> 3" "0 \<le> c" "c \<le> 24" "0 \<le> d" "d \<le> 3"
  shows "days_before_year (400 * a + 100 * b + 4 * c + d + 1) = 146097 * a + 36524 * b + 1461 * c + 365 * d"
    and "is_leap (400 * a + 100 * b + 4 * c + d + 1) \<longleftrightarrow> d = 3 \<and> (c \<noteq> 24 \<or> b = 3)"
proof -
  let ?x = "400 * a + 100 * b + 4 * c + d"
  have q: "?x div 4 = 100 * a + 25 * b + c" "?x div 100 = 4 * a + b" "?x div 400 = a"
    using assms
    by (auto intro: int_div_pos_eq [where r = d] int_div_pos_eq [where r = "4 * c + d"]
        int_div_pos_eq [where r = "100 * b + 4 * c + d"])
  show "days_before_year (?x + 1) = 146097 * a + 36524 * b + 1461 * c + 365 * d"
    using q by (simp add: days_before_year_def)
  show "is_leap (?x + 1) \<longleftrightarrow> d = 3 \<and> (c \<noteq> 24 \<or> b = 3)"
  proof -
    have "(?x + 1) mod 4 = 0 \<longleftrightarrow> d + 1 = 4"
      using cycle_end [of "d + 1" 4 "100 * a + 25 * b + c"] assms by (simp add: algebra_simps)
    moreover have "(?x + 1) mod 100 = 0 \<longleftrightarrow> 4 * c + d + 1 = 100"
      using cycle_end [of "4 * c + d + 1" 100 "4 * a + b"] assms by (simp add: algebra_simps)
    moreover have "(?x + 1) mod 400 = 0 \<longleftrightarrow> 100 * b + 4 * c + d + 1 = 400"
      using cycle_end [of "100 * b + 4 * c + d + 1" 400 a] assms by (simp add: algebra_simps)
    ultimately show ?thesis using assms by (auto simp: is_leap_def)
  qed
qed

text \<open>An ordinal's digits: whole cycles of 400, 100, 4 and 1 years, and the day in the year.\<close>

lemma ord2ymd_digits:
  assumes "1 \<le> n" and "n \<le> 3652059"
  obtains n400 n100 n4 n1 r1 where
    "n = 146097 * n400 + 36524 * n100 + 1461 * n4 + 365 * n1 + r1 + 1"
    "0 \<le> n400" "n400 \<le> 24" "0 \<le> n100" "n100 \<le> 4" "0 \<le> n4" "n4 \<le> 24" "0 \<le> n1" "n1 \<le> 4" "0 \<le> r1" "r1 < 365"
    "36524 * n100 + 1461 * n4 + 365 * n1 + r1 < 146097" "1461 * n4 + 365 * n1 + r1 < 36524" "365 * n1 + r1 < 1461"
    "ord2ymd n =
     (if n1 = 4 \<or> n100 = 4 then (400 * n400 + 100 * n100 + 4 * n4 + n1, 12, 31)
      else let leap = (n1 = 3 \<and> (n4 \<noteq> 24 \<or> n100 = 3)); (m, d) = month_of leap r1
           in (400 * n400 + 100 * n100 + 4 * n4 + n1 + 1, m, d))"
proof -
  define n400 r400 where "n400 = (n - 1) div 146097" and "r400 = (n - 1) mod 146097"
  define n100 r100 where "n100 = r400 div 36524" and "r100 = r400 mod 36524"
  define n4 r4 where "n4 = r100 div 1461" and "r4 = r100 mod 1461"
  define n1 r1 where "n1 = r4 div 365" and "r1 = r4 mod 365"
  note defs = n400_def r400_def n100_def r100_def n4_def r4_def n1_def r1_def
  have n: "n - 1 = 146097 * n400 + r400" "0 \<le> r400" "r400 < 146097" "0 \<le> n400" "n400 \<le> 24"
    "r400 = 36524 * n100 + r100" "0 \<le> r100" "r100 < 36524" "0 \<le> n100" "n100 \<le> 4"
    "r100 = 1461 * n4 + r4" "0 \<le> r4" "r4 < 1461" "0 \<le> n4" "n4 \<le> 24"
    "r4 = 365 * n1 + r1" "0 \<le> r1" "r1 < 365" "0 \<le> n1" "n1 \<le> 4"
    using assms unfolding defs by auto
  have "ord2ymd n =
     (if n1 = 4 \<or> n100 = 4 then (n400 * 400 + 1 + n100 * 100 + n4 * 4 + n1 - 1, 12, 31)
      else let leap = (n1 = 3 \<and> (n4 \<noteq> 24 \<or> n100 = 3)); (m, d) = month_of leap r1
           in (n400 * 400 + 1 + n100 * 100 + n4 * 4 + n1, m, d))"
    by (simp only: ord2ymd_def Let_def defs)
  moreover have "n400 * 400 + 1 + n100 * 100 + n4 * 4 + n1 = 400 * n400 + 100 * n100 + 4 * n4 + n1 + 1"
    "n400 * 400 + 1 + n100 * 100 + n4 * 4 + n1 - 1 = 400 * n400 + 100 * n100 + 4 * n4 + n1" by simp_all
  ultimately have o: "ord2ymd n =
     (if n1 = 4 \<or> n100 = 4 then (400 * n400 + 100 * n100 + 4 * n4 + n1, 12, 31)
      else let leap = (n1 = 3 \<and> (n4 \<noteq> 24 \<or> n100 = 3)); (m, d) = month_of leap r1
           in (400 * n400 + 100 * n100 + 4 * n4 + n1 + 1, m, d))"
    by (simp only:)
  show thesis
    by (rule that [OF _ n(4,5,9,10,14,15,19,20,17,18) _ _ _ o]) (use n in linarith)+
qed

text \<open>The last day of a leap cycle, where the digits overflow.\<close>

lemma ord2ymd_last_day:
  assumes "0 \<le> n100" "n100 \<le> 3" "0 \<le> n4" "n4 \<le> 24" "n4 \<noteq> 24 \<or> n100 = 3"
  shows "ymd2ord (400 * n400 + 100 * n100 + 4 * n4 + 3 + 1) 12 31 = 146097 * n400 + 36524 * n100 + 1461 * n4 + 1461"
  using days_before_cycles [of n100 n4 3 n400] assms
  by (simp add: ymd2ord_def days_before_month_table)

lemma ord2ymd_correct:
  assumes "1 \<le> n" and "n \<le> 3652059" and "ord2ymd n = (y, m, d)"
  shows "1 \<le> y \<and> y \<le> 9999 \<and> 1 \<le> m \<and> m \<le> 12 \<and> 1 \<le> d \<and> d \<le> days_in_month (is_leap y) m
    \<and> ymd2ord y m d = n"
proof -
  obtain n400 n100 n4 n1 r1 where n: "n = 146097 * n400 + 36524 * n100 + 1461 * n4 + 365 * n1 + r1 + 1"
    "0 \<le> n400" "n400 \<le> 24" "0 \<le> n100" "n100 \<le> 4" "0 \<le> n4" "n4 \<le> 24" "0 \<le> n1" "n1 \<le> 4" "0 \<le> r1" "r1 < 365"
    "36524 * n100 + 1461 * n4 + 365 * n1 + r1 < 146097" "1461 * n4 + 365 * n1 + r1 < 36524" "365 * n1 + r1 < 1461"
    and o: "ord2ymd n =
     (if n1 = 4 \<or> n100 = 4 then (400 * n400 + 100 * n100 + 4 * n4 + n1, 12, 31)
      else let leap = (n1 = 3 \<and> (n4 \<noteq> 24 \<or> n100 = 3)); (m, d) = month_of leap r1
           in (400 * n400 + 100 * n100 + 4 * n4 + n1 + 1, m, d))"
    by (rule ord2ymd_digits [OF assms(1,2)]) (rule that)
  let ?y = "400 * n400 + 100 * n100 + 4 * n4 + n1 + 1"
  show ?thesis
  proof (cases "n1 = 4 \<or> n100 = 4")
    case True
    then have r: "y = ?y - 1" "m = 12" "d = 31" using o assms(3) by auto
    consider "n100 = 4" "r1 = 0" "n4 = 0" "n1 = 0" | "n1 = 4" "r1 = 0" "n100 \<le> 3" "n4 \<noteq> 24 \<or> n100 = 3"
      using True n by linarith
    then show ?thesis
    proof cases
      case 1
      then have y: "y = 400 * n400 + 100 * 3 + 4 * 24 + 3 + 1" using r by simp
      have "n = 146097 * n400 + 36524 * 3 + 1461 * 24 + 1461" using n 1 by linarith
      moreover have "1 \<le> y" "y \<le> 9999" using y n(2,3) calculation assms(2) by linarith+
      ultimately show ?thesis
        unfolding r(2,3) y using ord2ymd_last_day [of 3 24 n400] by (simp add: days_in_month_def)
    next
      case 2
      then have y: "y = 400 * n400 + 100 * n100 + 4 * n4 + 3 + 1" using r by simp
      have "n = 146097 * n400 + 36524 * n100 + 1461 * n4 + 1461" using n 2 by linarith
      moreover have "1 \<le> y" "y \<le> 9999" using y n 2 assms(2) by linarith+
      ultimately show ?thesis
        unfolding r(2,3) y using ord2ymd_last_day [OF n(4) 2(3) n(6,7) 2(4), of n400] by (simp add: days_in_month_def)
    qed
  next
    case False
    then have r: "n1 \<le> 3" "n100 \<le> 3" using n by auto
    have l: "is_leap ?y \<longleftrightarrow> n1 = 3 \<and> (n4 \<noteq> 24 \<or> n100 = 3)"
      and b: "days_before_year ?y = 146097 * n400 + 36524 * n100 + 1461 * n4 + 365 * n1"
      using days_before_cycles [of n100 n4 n1 n400] r n by auto
    have md: "month_of (is_leap ?y) r1 = (m, d)" and y: "y = ?y"
      using o False assms(3) l by (auto simp: Let_def split: prod.splits if_splits)
    have "r1 < year_len (is_leap ?y)" using n by (simp add: year_len_def)
    from month_of_correct [OF md n(10) this] have c: "1 \<le> m \<and> m \<le> 12 \<and> 1 \<le> d \<and> d \<le> days_in_month (is_leap ?y) m
      \<and> days_before_month (is_leap ?y) m + d = r1 + 1" .
    have "ymd2ord y m d = n" using c b y n by (simp add: ymd2ord_def)
    moreover have "1 \<le> y" "y \<le> 9999" using y n r assms(2) by linarith+
    ultimately show ?thesis using c y by blast
  qed
qed

lemma digit_char_digit: "n < 10 \<Longrightarrow> is_digit (digit_char n)"
  by (simp add: is_digit_def digit_char_def)

lemma digits_val_zeros: "digits_val 10 (replicate k CHR ''0'' @ s) = digits_val 10 s"
proof (induction k)
  case (Suc k)
  have "digits_val 10 (CHR ''0'' # t) = digits_val 10 t" for t
    by (simp add: digits_val_def digit_val_def code_def)
  with Suc show ?case by simp
qed simp

lemma pad_props:
  assumes "n < 10 ^ k" and "1 \<le> k"
  shows "length (pad k n) = k" and "list_all is_digit (pad k n)" and "digits_val 10 (pad k n) = n"
proof -
  have "length (nat_str 10 n) \<le> k" using assms by (intro length_nat_str) auto
  then show "length (pad k n) = k" by (simp add: pad_def Let_def)
  show "list_all is_digit (pad k n)"
    by (auto simp: pad_def Let_def list_all_iff dest: nat_str_10_digit) (simp add: is_digit_def code_def)
  show "digits_val 10 (pad k n) = n"
    by (simp add: pad_def Let_def digits_val_zeros digits_val_nat_str)
qed

lemma parse_digits_pad: "n < 10 ^ k \<Longrightarrow> 1 \<le> k \<Longrightarrow> parse_digits k (pad k n @ s) = Some (n, s)"
  by (simp add: parse_digits_def pad_props)

lemma pad_chars: "c \<in> set (pad k n) \<Longrightarrow> is_digit c"
  by (auto simp: pad_def Let_def dest: nat_str_10_digit split: if_splits) (simp add: is_digit_def code_def)

lemma replace_at_end:
  "c \<notin> set u \<Longrightarrow> replace_all (c # p) new (u @ c # p) = u @ new"
  by (induction u) (auto simp: startswith_iff [of "p" p])

lemma find_zone:
  "c = CHR ''Z'' \<Longrightarrow> \<forall>x \<in> set u. is_digit x \<or> x = CHR '':'' \<or> x = CHR ''.'' \<Longrightarrow> split_zone (u @ [c]) = (u, Some c, [])"
proof -
  assume c: "c = CHR ''Z''" and u: "\<forall>x \<in> set u. is_digit x \<or> x = CHR '':'' \<or> x = CHR ''.''"
  have "CHR ''Z'' \<notin> set u" "CHR ''+'' \<notin> set u" "CHR ''-'' \<notin> set u"
    using u by (auto simp: is_digit_def code_def)
  then show ?thesis using c by (simp add: split_zone_def)
qed

lemma parse_fraction_ms: "n < 1000 \<Longrightarrow> parse_fraction (pad 3 n) = Some (n * 1000)"
proof -
  assume n: "n < 1000"
  have p: "length (pad 3 n) = 3" "list_all is_digit (pad 3 n)" "digits_val 10 (pad 3 n) = n"
    using pad_props [of n 3] n by simp_all
  have "take 6 (pad 3 n @ replicate 5 CHR ''0'') = pad 3 n @ ''000''"
    using p(1) by (simp add: numeral_eq_Suc)
  moreover have "digits_val 10 (pad 3 n @ ''000'') = n * 1000"
    using p(3) digits_val_snoc [of 10 "pad 3 n @ ''00''" "CHR ''0''"] digits_val_snoc [of 10 "pad 3 n @ ''0''" "CHR ''0''"]
      digits_val_snoc [of 10 "pad 3 n" "CHR ''0''"]
    by (simp add: digit_val_def code_def)
  moreover have "pad 3 n \<noteq> []" using p(1) by auto
  ultimately show ?thesis using p(2) by (simp add: parse_fraction_def)
qed

lemma parse_hms_pad:
  assumes "h < 100" "m < 100" "s < 100" "ms < 1000"
  shows "parse_hms (pad 2 h @ '':'' @ pad 2 m @ '':'' @ pad 2 s @ ''.'' @ pad 3 ms) = Some (h, m, s, ms * 1000)"
  using assms by (simp add: parse_hms_def parse_digits_pad parse_fraction_ms)

lemma parse_date_pad:
  assumes "1 \<le> y" "y \<le> 9999" "1 \<le> m" "m \<le> 12" "1 \<le> d" "d \<le> days_in_month (is_leap y) m"
  shows "parse_date (pad 4 (nat y) @ ''-'' @ pad 2 m @ ''-'' @ pad 2 (nat d) @ rest) = Some (ymd2ord y m d, rest)"
proof -
  have "d \<le> 31" using assms(6) by (auto simp: days_in_month_def split: if_splits)
  with assms show ?thesis by (simp add: parse_date_def parse_digits_pad Suc_le_eq)
qed

lemma clock_fields:
  fixes us :: nat
  shows "us div 1000 = ((us div 3600000000 * 60 + us div 60000000 mod 60) * 60 + us div 1000000 mod 60) * 1000
           + us div 1000 mod 1000"
proof -
  have "us div 1000000 = us div 1000 div 1000" "us div 60000000 = us div 1000 div 1000 div 60"
    "us div 3600000000 = us div 1000 div 1000 div 60 div 60"
    by (simp_all add: div_mult2_eq [symmetric])
  then show ?thesis
    by (metis (no_types) div_mult_mod_eq)
qed

lemma thousand_div:
  fixes t :: int
  assumes "t = q * 86400000000 + r"
  shows "t div 1000 = q * 86400000 + r div 1000"
proof -
  have "t = 1000 * (q * 86400000) + r" using assms by simp
  also have "\<dots> div 1000 = q * 86400000 + r div 1000" by (rule div_mult_self4) simp
  finally show ?thesis .
qed

lemma stamp_reads_back:
  assumes "-62135596800000000 \<le> t" and "t < 253402300800000000"
  shows "parse_iso (Some (JStr (now_iso t))) = Some (t div 1000 * 1000)"
proof -
  define n where "n = t div 86400000000 + epoch_ord"
  define us where "us = nat (t mod 86400000000)"
  obtain y m d where o: "ord2ymd n = (y, m, d)" by (cases "ord2ymd n") auto
  have "1 \<le> n" "n \<le> 3652059" using assms unfolding n_def epoch_ord_def by auto
  from ord2ymd_correct [OF this o] have v: "1 \<le> y" "y \<le> 9999" "1 \<le> m" "m \<le> 12" "1 \<le> d"
    "d \<le> days_in_month (is_leap y) m" "ymd2ord y m d = n" by auto
  define h mi s ms where "h = us div 3600000000" and "mi = us div 60000000 mod 60"
    and "s = us div 1000000 mod 60" and "ms = us div 1000 mod 1000"
  note q = h_def mi_def s_def ms_def
  have us: "us < 86400000000" by (simp add: us_def nat_less_iff)
  then have b: "h < 24" "mi < 60" "s < 60" "ms < 1000" unfolding q by auto
  define clock where "clock = pad 2 h @ '':'' @ pad 2 mi @ '':'' @ pad 2 s @ ''.'' @ pad 3 ms"
  define day where "day = pad 4 (nat y) @ ''-'' @ pad 2 m @ ''-'' @ pad 2 (nat d)"
  have iso: "isoformat_ms t = (day @ ''T'' @ clock) @ ''+00:00''"
    using o by (simp add: isoformat_ms_def n_def us_def q clock_def day_def Let_def)
  have plus: "CHR ''+'' \<notin> set (day @ ''T'' @ clock)"
    by (auto simp: day_def clock_def dest!: pad_chars) (auto simp: is_digit_def code_def)
  have now: "now_iso t = (day @ ''T'' @ clock) @ ''Z''"
    unfolding now_iso_def iso by (rule replace_at_end [OF plus])
  have "split_zone (clock @ ''Z'') = (clock, Some CHR ''Z'', [])"
    by (rule find_zone) (auto simp: clock_def dest: pad_chars)
  moreover have "parse_date (now_iso t) = Some (n, ''T'' @ clock @ ''Z'')"
    using parse_date_pad [OF v(1-6), of "''T'' @ clock @ ''Z''"] v(7) now by (simp add: day_def)
  moreover have "parse_hms clock = Some (h, mi, s, ms * 1000)"
    unfolding clock_def using b by (intro parse_hms_pad) auto
  ultimately have "fromisoformat_ts (now_iso t) = Some ((n - epoch_ord) * 86400000000 + us_of_hms (h, mi, s, ms * 1000))"
    using b by (simp add: fromisoformat_ts_def parse_zone_def)
  moreover have "us_of_hms (h, mi, s, ms * 1000) = int (us div 1000 * 1000)"
  proof -
    have "us div 1000 = ((h * 60 + mi) * 60 + s) * 1000 + ms" 
      using clock_fields [of us] us unfolding q by simp
    then show ?thesis by (simp add: us_of_hms_def algebra_simps)
  qed
  moreover have "(n - epoch_ord) * 86400000000 + int (us div 1000 * 1000) = t div 1000 * 1000"
  proof -
    have "int (us div 1000) = (t mod 86400000000) div 1000"
      by (simp add: us_def zdiv_int)
    moreover have "t div 1000 = (n - epoch_ord) * 86400000 + (t mod 86400000000) div 1000"
      by (rule thousand_div) (simp add: n_def)
    ultimately show ?thesis by simp
  qed
  ultimately show ?thesis by (simp add: parse_iso_def)
qed

section \<open>Property\<close>

text \<open>C39: A stamp the agent writes reads back as the instant it was taken at, cut to the millisecond, for every
  instant of the years 1 to 9999: calendar, padding and zone included.\<close>

theorem stamp_roundtrip:
  assumes "-62135596800000000 \<le> t" and "t < 253402300800000000"
  shows "parse_iso (Some (JStr (now_iso t))) = Some (t div 1000 * 1000)"
  using assms by (rule stamp_reads_back)

theorem stamp_roundtrip_witness:
  "parse_iso (Some (JStr (now_iso 1735689600123456))) = Some 1735689600123000"
  using stamp_roundtrip [of 1735689600123456] by simp

end
