(* ===== verification/Attribution.thy ===== *)
theory Attribution
  imports Run_Progress Iso_Time
begin

text \<open>
  Whose fault a timeout was: \<open>executor._attribute_call_timeouts\<close> for the calls of a finished run, and
  \<open>executor._run_budget_timeout\<close>, the result that stands in for a run that outlived its budget.
  A verdict is ordered by \<open>_VERDICT_ORDER\<close>, so a run's verdict is the least of its calls'.
\<close>

section \<open>Verdict order\<close>

fun verdict_rank :: "verdict \<Rightarrow> nat" where
  "verdict_rank Endpoint = 0"
| "verdict_rank Unknown = 1"
| "verdict_rank Network = 2"
| "verdict_rank Agent = 3"

definition verdict_order :: "verdict list" where
  "verdict_order = [Endpoint, Unknown, Network, Agent]"

instantiation verdict :: linorder
begin

definition less_eq_verdict :: "verdict \<Rightarrow> verdict \<Rightarrow> bool" where
  "less_eq_verdict v w = (verdict_rank v \<le> verdict_rank w)"

definition less_verdict :: "verdict \<Rightarrow> verdict \<Rightarrow> bool" where
  "less_verdict v w = (verdict_rank v < verdict_rank w)"

instance
proof
  fix v w :: verdict
  assume "v \<le> w" "w \<le> v"
  then show "v = w" by (cases v; cases w) (simp_all add: less_eq_verdict_def)
qed (auto simp: less_eq_verdict_def less_verdict_def)

end

section \<open>Calls of a finished run\<close>

text \<open>\<open>result.get("calls") or []\<close>, iterated, each item answering \<open>.get\<close>.\<close>

fun as_dicts :: "json list \<Rightarrow> py_exn + dict list" where
  "as_dicts [] = Inr []"
| "as_dicts (JObj d # vs) = (case as_dicts vs of Inl e \<Rightarrow> Inl e | Inr ds \<Rightarrow> Inr (d # ds))"
| "as_dicts (_ # vs) = Inl (AttributeError ''object has no attribute get'')"

definition calls_of :: "dict \<Rightarrow> py_exn + dict list" where
  "calls_of result =
     (case dict_get result ''calls'' of
        None \<Rightarrow> Inr []
      | Some v \<Rightarrow>
          if \<not> truthy v then Inr []
          else (case v of
                  JList vs \<Rightarrow> as_dicts vs
                | JObj _ \<Rightarrow> Inl (AttributeError ''object has no attribute get'')
                | JStr _ \<Rightarrow> Inl (AttributeError ''object has no attribute get'')
                | _ \<Rightarrow> Inl (TypeError ''object is not iterable'')))"

definition timed_out_calls :: "dict list \<Rightarrow> dict list" where
  "timed_out_calls calls = filter (\<lambda>c. dict_get c ''outcome'' = Some (JStr ''timeout'')) calls"

text \<open>
  The timeouts recorded within a call's time, 10 ms of slack on each side.
\<close>

definition own_timeouts :: "timeout_entry list \<Rightarrow> dict \<Rightarrow> timeout_entry list" where
  "own_timeouts timeouts call =
     (case (parse_iso (dict_get call ''startedAt''), parse_iso (dict_get call ''endedAt'')) of
        (Some started, Some ended) \<Rightarrow>
          filter (\<lambda>t. started - 10000 \<le> to_at t \<and> to_at t \<le> ended + 10000) timeouts
      | _ \<Rightarrow> [])"

record judged =
  jd_index :: json
  jd_verdict :: verdict
  jd_entry :: "timeout_entry option"

definition judge_call :: "timeout_entry list \<Rightarrow> dict \<Rightarrow> judged" where
  "judge_call timeouts call =
     (let index = (case dict_get call ''index'' of None \<Rightarrow> JNull | Some v \<Rightarrow> v);
          own = own_timeouts timeouts call
      in if own \<noteq> []
         then \<lparr>jd_index = index, jd_verdict = to_verdict (last own), jd_entry = Some (last own)\<rparr>
         else \<lparr>jd_index = index, jd_verdict = Unknown, jd_entry = None\<rparr>)"

record attribution =
  an_verdict :: verdict
  an_calls :: "judged list"
  an_target :: "target option"

definition attribute_call_timeouts ::
  "dict \<Rightarrow> timeout_entry list \<Rightarrow> py_exn + attribution option" where
  "attribute_call_timeouts result timeouts =
     (case calls_of result of
        Inl e \<Rightarrow> Inl e
      | Inr calls \<Rightarrow>
          (let timed = timed_out_calls calls in
           if timed = [] then Inr None
           else
             let judged = map (judge_call timeouts) timed;
                 verdicts = map jd_verdict judged;
                 run_verdict = the (find (\<lambda>v. v \<in> set verdicts) verdict_order);
                 hit = find (\<lambda>j. jd_verdict j = Network \<and> jd_entry j \<noteq> None) judged;
                 tgt = map_option (\<lambda>j. to_target (the (jd_entry j))) hit
             in Inr (Some \<lparr>an_verdict = run_verdict, an_calls = judged,
                           an_target = (if run_verdict = Network then tgt else None)\<rparr>)))"

section \<open>As JSON\<close>

definition target_json :: "target \<Rightarrow> json" where
  "target_json t =
     JObj [(''host'', JStr (tg_host t)), (''port'', JInt (tg_port t)), (''tls'', JBool (tg_tls t))]"

text \<open>A timeout entry without its \<open>at\<close>.\<close>

definition entry_fields :: "timeout_entry \<Rightarrow> dict" where
  "entry_fields t =
     [(''phase'', JStr (phase_name (to_phase t))), (''verdict'', JStr (verdict_name (to_verdict t))),
      (''reason'', JStr (to_reason t)),
      (''request'', JObj [(''method'', JStr (to_method t)), (''url'', JStr (to_url t))]),
      (''target'', target_json (to_target t)), (''tcp'', dict_or_null (to_tcp t))]"

definition judged_json :: "judged \<Rightarrow> json" where
  "judged_json j =
     JObj ((''callIndex'', jd_index j) #
       (case jd_entry j of
          Some t \<Rightarrow> entry_fields t
        | None \<Rightarrow> [(''verdict'', JStr ''unknown''),
                   (''reason'', JStr ''the timeout was not observed on a connection'')]))"

definition attribution_json :: "attribution \<Rightarrow> json" where
  "attribution_json a =
     JObj ([(''verdict'', JStr (verdict_name (an_verdict a))), (''calls'', JList (map judged_json (an_calls a)))]
       @ (case an_target a of None \<Rightarrow> [] | Some t \<Rightarrow> [(''target'', target_json t)]))"

definition int_json :: "int option \<Rightarrow> json" where
  "int_json v = (case v of None \<Rightarrow> JNull | Some i \<Rightarrow> JInt i)"

definition stall_json :: "stall \<Rightarrow> json" where
  "stall_json st =
     JObj ([(''phase'', JStr (phase_name (st_phase st))), (''phaseMs'', JInt (st_phase_ms st)),
            (''requestsCompleted'', JInt (st_requests_completed st)),
            (''request'',
               (case st_request st of
                  None \<Rightarrow> JNull
                | Some rq \<Rightarrow> JObj
                    [(''method'', JStr (sr_method rq)), (''url'', JStr (sr_url rq)),
                     (''elapsedMs'', JInt (sr_elapsed_ms rq)), (''dnsMs'', int_json (sr_dns_ms rq)),
                     (''connectMs'', int_json (sr_connect_ms rq)), (''tlsMs'', int_json (sr_tls_ms rq)),
                     (''ttfbMs'', int_json (sr_ttfb_ms rq)), (''bytesReceived'', JInt (sr_bytes_received rq))])),
            (''verdict'', JStr (verdict_name (st_verdict st))), (''reason'', JStr (st_reason st))]
       @ (case st_request st of
            None \<Rightarrow> []
          | Some rq \<Rightarrow> [(''target'', target_json (sr_target rq)), (''tcp'', dict_or_null (sr_tcp rq))]))"

section \<open>The run that outlived its budget\<close>

definition service_prefix :: string where
  "service_prefix = ''${s.name} in ${w.name}.${p.name}''"

definition notification_event :: "string \<Rightarrow> string \<Rightarrow> json" where
  "notification_event trigger txt =
     JObj [(''callIndex'', JInt (-1)), (''conditionIndex'', JInt (-1)), (''trigger'', JStr trigger),
           (''scope'', JNull),
           (''notification'', JObj [(''tag'', JStr ''text''), (''value'', JStr txt)])]"

text \<open>\<open>where.replace('${', '\' + '${')\<close>.\<close>

definition escape_template :: "string \<Rightarrow> string" where
  "escape_template s = replace_all ''${'' (CHR 0x5C # ''${'') s"

text \<open>
  \<open>progress\<close> is what was read of the record: the snapshot, then the two byte counters. \<open>ended\<close> is the
  clock when the answer is composed.
\<close>

definition run_budget_timeout ::
  "int \<Rightarrow> string \<Rightarrow> int \<Rightarrow> (stall option \<times> int \<times> int) option \<Rightarrow> int \<Rightarrow> dict" where
  "run_budget_timeout budget_ms started_at elapsed_ms progress ended =
     (let stall = (case progress of None \<Rightarrow> None | Some (st, _) \<Rightarrow> st);
          error = ''probe did not finish within its '' @ int_str budget_ms @ ''ms run budget'';
          txt = service_prefix @ '' timed out: the run did not complete within '' @ int_str budget_ms @ ''ms'';
          error' = (case stall of None \<Rightarrow> error | Some st \<Rightarrow> error @ '': '' @ describe st);
          txt' = (case stall of None \<Rightarrow> txt | Some st \<Rightarrow> txt @ '' ('' @ escape_template (describe st) @ '')'')
      in [(''outcome'', JStr ''timeout''), (''startedAt'', JStr started_at), (''endedAt'', JStr (now_iso ended)),
          (''elapsedMs'', JInt elapsed_ms), (''runVars'', JObj []), (''calls'', JList []),
          (''actions'', JObj [(''notifications'', JList [notification_event ''timeout'' txt'])]),
          (''error'', JStr error'),
          (''ingressBytes'', JInt (case progress of None \<Rightarrow> 0 | Some (_, i, _) \<Rightarrow> i)),
          (''egressBytes'', JInt (case progress of None \<Rightarrow> 0 | Some (_, _, e) \<Rightarrow> e))]
         @ (case stall of
              None \<Rightarrow> []
            | Some st \<Rightarrow>
                [(''stall'', stall_json st),
                 (''attribution'',
                    JObj ([(''verdict'', JStr (verdict_name (st_verdict st))), (''reason'', JStr (st_reason st))]
                      @ (case st_request st of
                           Some rq \<Rightarrow> if st_verdict st = Network then [(''target'', target_json (sr_target rq))] else []
                         | None \<Rightarrow> [])))]))"

text \<open>Every \<open>${\<close> of a text is preceded by a backslash.\<close>

definition placeholders_escaped :: "string \<Rightarrow> bool" where
  "placeholders_escaped s \<longleftrightarrow> (\<forall>u v. s = u @ ''${'' @ v \<longrightarrow> (\<exists>u'. u = u' @ [CHR 0x5C]))"

text \<open>Concrete data for the witnesses.\<close>

definition sample_entry :: timeout_entry where
  "sample_entry =
     \<lparr>to_at = 1735689601000500, to_phase = Connecting, to_verdict = Network, to_reason = ''r'', to_method = ''GET'',
      to_url = ''http://a/'', to_target = \<lparr>tg_host = ''a'', tg_port = 80, tg_tls = False\<rparr>, to_tcp = None\<rparr>"

definition sample_call :: "int \<Rightarrow> dict" where
  "sample_call i =
     [(''index'', JInt i), (''outcome'', JStr ''timeout''), (''startedAt'', JStr (now_iso (1735689600000000 + i * 5000000))),
      (''endedAt'', JStr (now_iso (1735689601000600 + i * 5000000)))]"

section \<open>Lemmas\<close>

lemma find_order: "vs \<noteq> [] \<Longrightarrow> the (find (\<lambda>v. v \<in> set vs) verdict_order) = Min (set vs)"
proof -
  assume vs: "vs \<noteq> []"
  then obtain v where v: "find (\<lambda>v. v \<in> set vs) verdict_order = Some v"
  proof -
    obtain w where "w \<in> set vs" using vs by (cases vs) auto
    moreover have "w \<in> set verdict_order" by (cases w) (simp_all add: verdict_order_def)
    ultimately have "find (\<lambda>v. v \<in> set vs) verdict_order \<noteq> None" by (auto simp: find_None_iff)
    with that show thesis by auto
  qed
  then have "v \<in> set vs" by (auto simp: verdict_order_def split: if_splits)
  moreover have "v \<le> y" if "y \<in> set vs" for y
    using v that by (cases y) (auto simp: verdict_order_def less_eq_verdict_def split: if_splits)
  ultimately have "Min (set vs) = v" by (intro Min_eqI) auto
  with v show ?thesis by simp
qed

lemma escaped_dollars:
  "replace_all ''${'' (CHR 0x5C # ''${'') s = u @ ''${'' @ v \<Longrightarrow> \<exists>u'. u = u' @ [CHR 0x5C]"
proof (induction "''${''" "CHR 0x5C # ''${''" s arbitrary: u rule: replace_all.induct)
  case (2 x xs)
  show ?case
  proof (cases "startswith (x # xs) ''${''")
    case True
    let ?r = "replace_all ''${'' (CHR 0x5C # ''${'') (drop 2 (x # xs))"
    have e: "CHR 0x5C # CHR ''$'' # CHR ''{'' # ?r = u @ CHR ''$'' # CHR ''{'' # v"
      using 2(3) True by simp
    then obtain u1 where u: "u = CHR 0x5C # u1" by (cases u) auto
    with e have e1: "CHR ''$'' # CHR ''{'' # ?r = u1 @ CHR ''$'' # CHR ''{'' # v" by simp
    show ?thesis
    proof (cases u1)
      case Nil
      with u show ?thesis by simp
    next
      case (Cons a u2)
      with e1 have "CHR ''{'' # ?r = u2 @ CHR ''$'' # CHR ''{'' # v"
        by (metis append_Cons list.inject)
      then obtain u3 where "u2 = CHR ''{'' # u3" "?r = u3 @ ''${'' @ v" by (cases u2) auto
      with 2(1) True obtain u' where "u3 = u' @ [CHR 0x5C]" by (auto simp: numeral_2_eq_2)
      with u Cons \<open>u2 = _\<close> show ?thesis by simp
    qed
  next
    case False
    let ?r = "replace_all ''${'' (CHR 0x5C # ''${'') xs"
    have e: "x # ?r = u @ ''${'' @ v"
      using 2(3) False by (simp only: replace_all.simps(2)) (auto split: if_splits)
    show ?thesis
    proof (cases u)
      case Nil
      with e have x: "x = CHR ''$''" and r: "?r = CHR ''{'' # v" by simp_all
      have "startswith xs ''{''"
        using r by (cases xs) (auto split: if_splits)
      with x False show ?thesis by simp
    next
      case (Cons a u1)
      with e have "?r = u1 @ ''${'' @ v" by simp
      with 2(2) False obtain u' where "u1 = u' @ [CHR 0x5C]" by auto
      with Cons show ?thesis by simp
    qed
  qed
qed simp

lemma attribution_cases:
  assumes "calls_of result = Inr calls"
  shows "attribute_call_timeouts result timeouts =
    (let judged = map (judge_call timeouts) (timed_out_calls calls); v = Min (set (map jd_verdict judged))
     in if judged = [] then Inr None
        else Inr (Some \<lparr>an_verdict = v, an_calls = judged,
               an_target = (if v = Network
                 then map_option (\<lambda>j. to_target (the (jd_entry j)))
                        (find (\<lambda>j. jd_verdict j = Network \<and> jd_entry j \<noteq> None) judged)
                 else None)\<rparr>))"
proof (cases "timed_out_calls calls = []")
  case False
  then have "map jd_verdict (map (judge_call timeouts) (timed_out_calls calls)) \<noteq> []" by simp
  from find_order [OF this] show ?thesis
    using assms False by (simp add: attribute_call_timeouts_def Let_def image_image)
qed (simp add: assms attribute_call_timeouts_def)

lemma judged_verdict: "jd_verdict (judge_call ts c) = (case jd_entry (judge_call ts c) of None \<Rightarrow> Unknown | Some t \<Rightarrow> to_verdict t)"
  by (simp add: judge_call_def Let_def)

lemma judged_entry: "jd_entry (judge_call ts c) = (if own_timeouts ts c = [] then None else Some (last (own_timeouts ts c)))"
  by (simp add: judge_call_def Let_def)

text \<open>C26: A run's verdict is the least, in the order endpoint, unknown, network, agent, of its timed-out calls' verdicts:
  one call the endpoint answers for, or one nothing is known of, keeps the path and the agent out of it.
  There is one judgement per timed-out call, in order, and a target to reach exactly when the verdict is
  \<open>network\<close>.\<close>

theorem run_verdict_is_least:
  assumes "calls_of result = Inr calls" and "attribute_call_timeouts result timeouts = Inr (Some a)"
  shows "an_verdict a = Min (set (map jd_verdict (an_calls a)))
       \<and> map jd_index (an_calls a) = map (\<lambda>c. case dict_get c ''index'' of None \<Rightarrow> JNull | Some v \<Rightarrow> v) (timed_out_calls calls)
       \<and> (an_target a \<noteq> None) = (an_verdict a = Network)"
proof -
  let ?js = "map (judge_call timeouts) (timed_out_calls calls)"
  have a: "an_calls a = ?js" "an_verdict a = Min (set (map jd_verdict ?js))" "?js \<noteq> []"
    "an_target a = (if an_verdict a = Network
                 then map_option (\<lambda>j. to_target (the (jd_entry j)))
                        (find (\<lambda>j. jd_verdict j = Network \<and> jd_entry j \<noteq> None) ?js) else None)"
    using assms by (simp_all add: attribution_cases Let_def image_image split: if_splits) auto
  have "an_target a \<noteq> None" if "an_verdict a = Network"
  proof -
    have "an_verdict a \<in> set (map jd_verdict ?js)" unfolding a(2) using a(3) by (intro Min_in) auto
    with that obtain c where c: "c \<in> set (timed_out_calls calls)" "jd_verdict (judge_call timeouts c) = Network"
      by (metis (no_types, lifting) imageE list.set_map)
    then have "jd_entry (judge_call timeouts c) \<noteq> None" using judged_verdict [of timeouts c] by (cases "jd_entry (judge_call timeouts c)") auto
    with c that show ?thesis by (auto simp: a(4) find_None_iff)
  qed
  moreover have "map jd_index ?js = map (\<lambda>c. case dict_get c ''index'' of None \<Rightarrow> JNull | Some v \<Rightarrow> v) (timed_out_calls calls)"
    by (simp add: judge_call_def Let_def)
  ultimately show ?thesis using a by auto
qed

theorem run_verdict_is_least_witness:
  "\<exists>a. attribute_call_timeouts [(''calls'', JList [JObj (sample_call 0), JObj (sample_call 1)])] [sample_entry]
     = Inr (Some a) \<and> an_verdict a = Unknown \<and> map jd_verdict (an_calls a) = [Network, Unknown]"
proof -
  have c: "calls_of [(''calls'', JList [JObj (sample_call 0), JObj (sample_call 1)])]
      = Inr [sample_call 0, sample_call 1]"
    by (simp add: calls_of_def dict_get_def)
  have j: "map jd_verdict (map (judge_call [sample_entry]) (timed_out_calls [sample_call 0, sample_call 1])) = [Network, Unknown]"
    by (simp add: timed_out_calls_def judge_call_def own_timeouts_def sample_call_def sample_entry_def
        dict_get_def stamp_reads_back)
  obtain a where a: "attribute_call_timeouts [(''calls'', JList [JObj (sample_call 0), JObj (sample_call 1)])] [sample_entry] = Inr (Some a)"
    "an_calls a = map (judge_call [sample_entry]) (timed_out_calls [sample_call 0, sample_call 1])"
  proof -
    have "map (judge_call [sample_entry]) (timed_out_calls [sample_call 0, sample_call 1]) \<noteq> []" using j by auto
    then show thesis using that unfolding attribution_cases [OF c] Let_def by (auto simp del: map_is_Nil_conv)
  qed
  from run_verdict_is_least [OF c a(1)] have "an_verdict a = Min (set (map jd_verdict (an_calls a)))" by blast
  also have "\<dots> = Min {Network, Unknown}" unfolding a(2) j by simp
  also have "\<dots> = Unknown" by (simp add: min_def less_eq_verdict_def)
  finally have v: "an_verdict a = Unknown" .
  have "map jd_verdict (an_calls a) = [Network, Unknown]" unfolding a(2) by (rule j)
  with a(1) v show ?thesis by (intro exI conjI)
qed



lemma escape_tail:
  assumes "'' ('' @ escape_template w @ '')'' = u @ ''${'' @ v"
  shows "\<exists>u'. u = u' @ [CHR 0x5C]"
proof -
  obtain u1 where u: "u = '' ('' @ u1" and e: "escape_template w @ '')'' = u1 @ ''${'' @ v"
    using assms by (cases u; cases "tl u") auto
  have "v \<noteq> []" using arg_cong [OF e, of last] by auto
  then obtain v' where "v = v' @ '')''" using arg_cong [OF e, of last] by (cases v rule: rev_cases) auto
  with e have "escape_template w = u1 @ ''${'' @ v'" by simp
  then obtain u' where "u1 = u' @ [CHR 0x5C]" using escaped_dollars [of w u1 v'] by (auto simp: escape_template_def)
  with u show ?thesis by simp
qed

text \<open>A run answered for by its budget always carries exactly one notification event, a run-level \<open>timeout\<close>, and
  nothing the target controls (a URL, say) can open a template placeholder in its text: after the
  service prefix every \<open>${\<close> is preceded by a backslash.\<close>

theorem budget_timeout_announced_safely:
  "\<exists>tail. dict_get (run_budget_timeout b started ms progress ended) ''actions'' =
       Some (JObj [(''notifications'', JList [notification_event ''timeout''
         (service_prefix @ '' timed out: the run did not complete within '' @ int_str b @ ''ms'' @ tail)])])
     \<and> placeholders_escaped tail"
proof (cases "\<exists>st i e. progress = Some (Some st, i, e)")
  case False
  then have "(case progress of None \<Rightarrow> None | Some (st, _) \<Rightarrow> st) = None"
    by (auto split: option.splits)
  then show ?thesis
    by (intro exI [of _ "[]"]) (simp add: run_budget_timeout_def Let_def dict_get_def placeholders_escaped_def)
next
  case True
  then obtain st i e where "progress = Some (Some st, i, e)" by blast
  then have "dict_get (run_budget_timeout b started ms progress ended) ''actions'' =
       Some (JObj [(''notifications'', JList [notification_event ''timeout''
         (service_prefix @ '' timed out: the run did not complete within '' @ int_str b @ ''ms'' @
          '' ('' @ escape_template (describe st) @ '')'')])])"
    by (simp add: run_budget_timeout_def Let_def dict_get_def)
  then show ?thesis using escape_tail unfolding placeholders_escaped_def by blast
qed

end
