(* ===== verification/Redaction.thy ===== *)
theory Redaction
  imports PyStr
begin

text \<open>
  \<open>executor._redact_body_bytes\<close>: secrets are masked out of a body before it leaves the agent.
  A body is a list of bytes, a secret a string encoded by \<open>utf8\<close>.
\<close>

definition mask :: string where
  "mask = concat (replicate 6 [CHR 0xE2, CHR 0x80, CHR 0xA2])"

text \<open>\<open>sorted((s for s in secret_values if s), key=len, reverse=True)\<close>, a stable sort.\<close>

definition longest_first :: "string list \<Rightarrow> string list" where
  "longest_first secrets = sort_key (\<lambda>s. - int (length s)) (filter (\<lambda>s. s \<noteq> []) secrets)"

definition redact_one :: "string \<Rightarrow> string \<Rightarrow> string" where
  "redact_one secret data =
     (let needle = utf8 secret
      in if needle \<noteq> [] \<and> contains data needle then replace_all needle mask data else data)"

definition redact_body_bytes :: "string \<Rightarrow> string list \<Rightarrow> string" where
  "redact_body_bytes data secrets =
     (if secrets = [] then data else fold redact_one (longest_first secrets) data)"

section \<open>Replacing\<close>

text \<open>The stretches of the text between the occurrences that are replaced.\<close>

function fragments :: "'a list \<Rightarrow> 'a list \<Rightarrow> 'a list list" where
  "fragments old [] = [[]]"
| "fragments old (x # xs) =
     (if old \<noteq> [] \<and> startswith (x # xs) old
      then [] # fragments old (drop (length old) (x # xs))
      else (case fragments old xs of [] \<Rightarrow> [[x]] | w # ws \<Rightarrow> (x # w) # ws))"
  by pat_completeness auto
termination
  by (relation "measure (\<lambda>(old, s). length s)") auto

text \<open>\<open>m\<close> can neither run into a mask from the left nor out of it to the right.\<close>

definition clear_of_mask :: "string \<Rightarrow> bool" where
  "clear_of_mask m = (m \<noteq> [] \<and> CHR 0xE2 \<notin> set m \<and> hd m \<notin> {CHR 0xE2, CHR 0x80, CHR 0xA2})"

lemma fragments_nonempty [simp]: "fragments old s \<noteq> []"
  by (cases s) (auto split: list.splits)

lemma replace_all_fragments: "replace_all old new s = join new (fragments old s)"
proof (induction old new s rule: replace_all.induct)
  case (2 old new x xs)
  show ?case
  proof (cases "old \<noteq> [] \<and> startswith (x # xs) old")
    case True
    with 2 show ?thesis by (simp add: join_Cons)
  next
    case False
    obtain w ws where f: "fragments old xs = w # ws" by (metis fragments_nonempty list.exhaust)
    with 2(2) [OF False] False show ?thesis by (cases ws) auto
  qed
qed simp

lemma join_fragments: "join old (fragments old s) = s"
proof (induction old s rule: fragments.induct)
  case (2 old x xs)
  show ?case
  proof (cases "old \<noteq> [] \<and> startswith (x # xs) old")
    case True
    then have "x # xs = old @ drop (length old) (x # xs)"
      by (auto simp: startswith_iff)
    with 2(1) [OF True] True show ?thesis by (simp add: join_Cons)
  next
    case False
    obtain w ws where f: "fragments old xs = w # ws" by (metis fragments_nonempty list.exhaust)
    with 2(2) [OF False] False show ?thesis by (cases ws) auto
  qed
qed simp

text \<open>The search restarts after each occurrence, so no stretch holds one.\<close>

lemma fragment_free: "old \<noteq> [] \<Longrightarrow> w \<in> set (fragments old s) \<Longrightarrow> \<not> contains w old"
proof (induction old s arbitrary: w rule: fragments.induct)
  case (2 old x xs)
  show ?case
  proof (cases "startswith (x # xs) old")
    case True
    with 2 show ?thesis by auto
  next
    case False
    obtain v vs where f: "fragments old xs = v # vs" by (metis fragments_nonempty list.exhaust)
    have IH: "\<not> contains w old" if "w \<in> set (v # vs)" for w
      using 2(2) [of w] 2(3) False f that by simp
    have "\<not> startswith (x # v) old"
    proof
      assume "startswith (x # v) old"
      moreover have "\<exists>t. xs = v @ t"
        using join_fragments [of old xs] f by (cases vs) auto
      ultimately have "startswith (x # xs) old"
        unfolding startswith_iff by (metis append_Cons append_assoc)
      with False show False ..
    qed
    then have "\<not> contains (x # v) old" using IH [of v] by simp
    with IH 2(3,4) False f show ?thesis by auto
  qed
qed auto

lemma mask_set [simp]: "set mask = {CHR 0xE2, CHR 0x80, CHR 0xA2}"
  by (auto simp: mask_def)

lemma mask_hd: "mask = CHR 0xE2 # tl mask"
  by (simp add: mask_def numeral_eq_Suc)

lemma append_split:
  assumes "a @ b = c @ d"
  obtains (left) w where "a = c @ w" "d = w @ b" | (right) w where "c = a @ w" "b = w @ d"
  using assms by (auto simp: append_eq_append_conv2)

lemma containsI: "s = u @ m @ v \<Longrightarrow> contains s m"
  by (auto simp: contains_iff)

text \<open>An occurrence of such an \<open>m\<close> around an inserted mask lies wholly on one side of it.\<close>

lemma no_overlap_left:
  assumes "mask @ y = z @ v" and "z \<noteq> []"
  shows "CHR 0xE2 \<in> set z"
proof -
  have "hd (z @ v) = CHR 0xE2" using assms(1) by (metis append_Cons list.sel(1) mask_hd)
  with assms(2) show ?thesis by (cases z) auto
qed

lemma contains_around_mask:
  assumes "contains (x @ mask @ y) m" and "clear_of_mask m"
  shows "contains x m \<or> contains y m"
proof -
  obtain u v where e: "x @ mask @ y = u @ m @ v" using assms(1) by (auto simp: contains_iff)
  have m: "m \<noteq> []" "CHR 0xE2 \<notin> set m" "hd m \<notin> set mask" using assms(2) by (auto simp: clear_of_mask_def)
  from e show ?thesis
  proof (cases rule: append_split)
    case (left w)
    from left(2) have "w @ mask @ y = m @ v" by simp
    then show ?thesis
    proof (cases rule: append_split)
      case l: (left z)
      with left(1) show ?thesis by (auto intro: containsI)
    next
      case r: (right z)
      with no_overlap_left [of y z v] m(2) have "z = []" by auto
      with r left(1) show ?thesis by (auto intro: containsI [of _ _ _ "[]"])
    qed
  next
    case (right w)
    from right(2) show ?thesis
    proof (cases rule: append_split)
      case (left z)
      have "z = []"
      proof (rule ccontr)
        assume "z \<noteq> []"
        then have "hd z \<in> set mask" unfolding left(1) by simp
        moreover have "hd m = hd z" using left(2) m(1) \<open>z \<noteq> []\<close> by (metis hd_append2)
        ultimately show False using m(3) by simp
      qed
      with left right show ?thesis by (auto intro: containsI [of _ "[]"])
    next
      case r: (right z)
      then show ?thesis by (auto intro: containsI)
    qed
  qed
qed

lemma contains_join_mask:
  "contains (join mask ws) m \<Longrightarrow> clear_of_mask m \<Longrightarrow> \<exists>w \<in> set ws. contains w m"
proof (induction ws)
  case Nil
  then show ?case by (simp add: clear_of_mask_def)
next
  case (Cons w ws)
  show ?case
  proof (cases "ws = []")
    case False
    with Cons.prems have "contains (w @ mask @ join mask ws) m" by (simp add: join_Cons)
    with Cons show ?thesis by (auto dest: contains_around_mask)
  qed (use Cons in simp)
qed

lemma contains_join_piece: "w \<in> set ws \<Longrightarrow> contains w m \<Longrightarrow> contains (join sep ws) m"
proof (induction ws)
  case (Cons v ws)
  show ?case
  proof (cases "ws = []")
    case True
    with Cons show ?thesis by simp
  next
    case False
    consider "w = v" | "w \<in> set ws" using Cons.prems by auto
    then show ?thesis
    proof cases
      case 1
      with Cons.prems obtain a b where "v = a @ m @ b" by (auto simp: contains_iff)
      then have "join sep (v # ws) = a @ m @ (b @ sep @ join sep ws)" using False by (simp add: join_Cons)
      then show ?thesis by (auto simp: contains_iff)
    next
      case 2
      with Cons obtain a b where "join sep ws = a @ m @ b" by (auto simp: contains_iff)
      then have "join sep (v # ws) = (v @ sep @ a) @ m @ b" using False by (simp add: join_Cons)
      then show ?thesis by (rule containsI)
    qed
  qed
qed simp

lemma masking_adds_nothing:
  "contains (replace_all old mask s) m \<Longrightarrow> clear_of_mask m \<Longrightarrow> contains s m"
  using contains_join_mask [of "fragments old s" m] contains_join_piece [of _ "fragments old s" m old]
  by (auto simp: replace_all_fragments join_fragments)

lemma masking_removes:
  "clear_of_mask old \<Longrightarrow> \<not> contains (replace_all old mask s) old"
  using contains_join_mask [of "fragments old s" old] fragment_free [of old _ s]
  by (auto simp: replace_all_fragments clear_of_mask_def)

lemma utf8_char_set:
  "b \<in> set (utf8_char c) \<Longrightarrow> code b < 196"
  using code_less [of c] by (auto simp: utf8_char_def split: if_splits)

lemma utf8_char_hd:
  "utf8_char c \<noteq> [] \<and> (code (hd (utf8_char c)) < 128 \<or> 192 \<le> code (hd (utf8_char c)) \<and> code (hd (utf8_char c)) < 196)"
  using code_less [of c] by (auto simp: utf8_char_def split: if_splits)

lemma utf8_clear:
  assumes "s \<noteq> []"
  shows "clear_of_mask (utf8 s)"
proof -
  obtain c cs where s: "s = c # cs" using assms by (cases s) auto
  have codes: "code (CHR 0xE2) = 226" "code (CHR 0x80) = 128" "code (CHR 0xA2) = 162"
    by (simp_all add: code_def)
  have "hd (utf8 s) = hd (utf8_char c)" "utf8 s \<noteq> []"
    using utf8_char_hd [of c] by (simp_all add: s utf8_def)
  moreover have "CHR 0xE2 \<notin> set (utf8 s)"
    using codes(1) utf8_char_set by (fastforce simp: utf8_def)
  moreover have "hd (utf8_char c) \<notin> {CHR 0xE2, CHR 0x80, CHR 0xA2}"
    using utf8_char_hd [of c] codes by auto
  ultimately show ?thesis by (simp add: clear_of_mask_def)
qed

lemma redact_one_free: "s \<noteq> [] \<Longrightarrow> \<not> contains (redact_one s d) (utf8 s)"
  using masking_removes [OF utf8_clear, of s d] utf8_clear [of s]
  by (auto simp: redact_one_def Let_def clear_of_mask_def)

lemma redact_one_keeps_free:
  "s' \<noteq> [] \<Longrightarrow> \<not> contains d (utf8 s') \<Longrightarrow> \<not> contains (redact_one s d) (utf8 s')"
  using masking_adds_nothing [OF _ utf8_clear] by (auto simp: redact_one_def Let_def)

lemma fold_redact_keeps_free:
  "s' \<noteq> [] \<Longrightarrow> \<not> contains d (utf8 s') \<Longrightarrow> \<not> contains (fold redact_one ss d) (utf8 s')"
  by (induction ss arbitrary: d) (auto simp: redact_one_keeps_free)

lemma fold_redact_free:
  "s \<in> set ss \<Longrightarrow> s \<noteq> [] \<Longrightarrow> \<not> contains (fold redact_one ss d) (utf8 s)"
  by (induction ss arbitrary: d) (auto simp: redact_one_free fold_redact_keeps_free)

lemma fold_redact_idle:
  "(\<And>s. s \<in> set ss \<Longrightarrow> \<not> contains d (utf8 s)) \<Longrightarrow> fold redact_one ss d = d"
  by (induction ss) (auto simp: redact_one_def Let_def)

lemma longest_first_set [simp]: "set (longest_first ss) = {s \<in> set ss. s \<noteq> []}"
  by (auto simp: longest_first_def)

section \<open>Properties\<close>



end
