(* ===== verification/Job.thy ===== *)
theory Job
  imports PyStr
begin

text \<open>
  \<open>models/job.py\<close>: the dispatched job, how it is bound from the wire and the sanitising of its run budget.
  The class declares its fields (\<open>job_payload\<close>), their types, defaults and wire names, and Pydantic does what the
  declarations say (\<open>bind_job\<close>): a field is looked up under its camel-case alias, then under its own name
  (\<open>populate_by_name\<close>), an absent one takes its default, a value of the wrong type is a \<open>ValidationError\<close>, which is a
  \<open>ValueError\<close>, and fields nobody declared are ignored. Which values Pydantic reads as a truth value is the
  argument \<open>lax_bool\<close>. \<open>sanitise_run_budget\<close> is the validator the repository supplies for
  \<open>request_timeout_ms\<close>, on the raw JSON value.
\<close>

definition min_run_timeout_ms :: int where
  "min_run_timeout_ms = 1000"

definition max_run_timeout_ms :: int where
  "max_run_timeout_ms = 300000"

record job_payload =
  jp_script :: string
  jp_variables :: dict
  jp_prev :: "dict option"
  jp_allow_body_save :: bool
  jp_secret_values :: "string list"
  jp_request_timeout_ms :: "int option"

section \<open>Python's int()\<close>

text \<open>\<open>int(x)\<close> of a finite float rounds towards zero.\<close>

definition rat_trunc :: "rat \<Rightarrow> int" where
  "rat_trunc r = (if 0 \<le> r then \<lfloor>r\<rfloor> else \<lceil>r\<rceil>)"

text \<open>
  \<open>int(s)\<close>: surrounding white space, one sign, decimal digits with single underscores
  between them, at most 4300 digits (the interpreter's conversion limit).
\<close>

definition int_max_str_digits :: nat where
  "int_max_str_digits = 4300"

definition split_sign :: "string \<Rightarrow> bool \<times> string" where
  "split_sign t =
     (case t of
        [] \<Rightarrow> (False, [])
      | c # r \<Rightarrow> if c = CHR ''-'' then (True, r) else if c = CHR ''+'' then (False, r) else (False, t))"

definition parse_int_str :: "string \<Rightarrow> int option" where
  "parse_int_str s =
     (let (neg, body) = split_sign (strip s);
          groups = split_on CHR ''_'' body;
          digits = concat groups
      in if list_all (\<lambda>g. g \<noteq> [] \<and> list_all is_digit g) groups \<and> length digits \<le> int_max_str_digits
         then Some (if neg then - int (digits_val 10 digits) else int (digits_val 10 digits))
         else None)"

fun py_int :: "json \<Rightarrow> py_exn + int" where
  "py_int JNull = Inl (TypeError ''int() argument must be a string or a number'')"
| "py_int (JBool b) = Inr (if b then 1 else 0)"
| "py_int (JInt i) = Inr i"
| "py_int (JFloat (Fin r)) = Inr (rat_trunc r)"
| "py_int (JFloat NaN) = Inl (ValueError ''cannot convert float NaN to integer'')"
| "py_int (JFloat PInf) = Inl (OverflowError ''cannot convert float infinity to integer'')"
| "py_int (JFloat NInf) = Inl (OverflowError ''cannot convert float infinity to integer'')"
| "py_int (JStr s) =
     (case parse_int_str s of
        None \<Rightarrow> Inl (ValueError ''invalid literal for int()'')
      | Some i \<Rightarrow> Inr i)"
| "py_int (JList l) = Inl (TypeError ''int() argument must be a string or a number'')"
| "py_int (JObj d) = Inl (TypeError ''int() argument must be a string or a number'')"

section \<open>The validator\<close>

text \<open>\<open>_as_int\<close> catches \<open>TypeError\<close> and \<open>ValueError\<close>, and nothing else.\<close>

definition as_int :: "json \<Rightarrow> py_exn + int option" where
  "as_int v =
     (case py_int v of
        Inr i \<Rightarrow> Inr (Some i)
      | Inl (TypeError _) \<Rightarrow> Inr None
      | Inl (ValueError _) \<Rightarrow> Inr None
      | Inl e \<Rightarrow> Inl e)"

fun is_bool :: "json \<Rightarrow> bool" where
  "is_bool (JBool _) = True"
| "is_bool _ = False"

definition sanitise_run_budget :: "json \<Rightarrow> py_exn + int option" where
  "sanitise_run_budget v =
     (if v = JNull then Inr None
      else
        (case (if is_bool v then Inr None else as_int v) of
           Inl e \<Rightarrow> Inl e
         | Inr None \<Rightarrow> Inr None
         | Inr (Some ms) \<Rightarrow>
             if ms \<le> 0 then Inr None
             else if ms < min_run_timeout_ms then Inr (Some min_run_timeout_ms)
             else if max_run_timeout_ms < ms then Inr (Some max_run_timeout_ms)
             else Inr (Some ms)))"

section \<open>Binding a dispatch\<close>

text \<open>The alias, then the name.\<close>

definition job_field :: "dict \<Rightarrow> string \<Rightarrow> string \<Rightarrow> json option" where
  "job_field body alias name =
     (case dict_get body alias of None \<Rightarrow> dict_get body name | Some v \<Rightarrow> Some v)"

text \<open>The validator runs only on a field that is present; an absent one keeps the default.\<close>

definition bind_run_budget :: "dict \<Rightarrow> py_exn + int option" where
  "bind_run_budget body =
     (case job_field body ''requestTimeoutMs'' ''request_timeout_ms'' of
        None \<Rightarrow> Inr None
      | Some v \<Rightarrow> sanitise_run_budget v)"

text \<open>\<open>str\<close>, \<open>dict[str, Any]\<close>, \<open>dict[str, Any] | None\<close> and \<open>list[str]\<close>.\<close>

fun as_str :: "json \<Rightarrow> string option" where
  "as_str (JStr t) = Some t"
| "as_str _ = None"

fun as_dict :: "json \<Rightarrow> dict option" where
  "as_dict (JObj d) = Some d"
| "as_dict _ = None"

fun as_opt_dict :: "json \<Rightarrow> dict option option" where
  "as_opt_dict JNull = Some None"
| "as_opt_dict v = map_option Some (as_dict v)"

fun as_strs :: "json \<Rightarrow> string list option" where
  "as_strs (JList vs) = those (map as_str vs)"
| "as_strs _ = None"

definition bound :: "'a option \<Rightarrow> (json \<Rightarrow> 'a option) \<Rightarrow> json option \<Rightarrow> 'a option" where
  "bound absent convert field = (case field of None \<Rightarrow> absent | Some v \<Rightarrow> convert v)"

text \<open>
  Errors of type are collected over all fields; what a validator raises beyond \<open>ValueError\<close> leaves at once, whatever
  the other fields hold.
\<close>

definition bind_job :: "(json \<Rightarrow> bool option) \<Rightarrow> dict \<Rightarrow> py_exn + job_payload" where
  "bind_job lax_bool body =
     (case bind_run_budget body of
        Inl e \<Rightarrow> Inl e
      | Inr budget \<Rightarrow>
          (case (bound None as_str (job_field body ''script'' ''script''),
                 bound (Some []) as_dict (job_field body ''variables'' ''variables''),
                 bound (Some None) as_opt_dict (job_field body ''prev'' ''prev''),
                 bound (Some True) lax_bool (job_field body ''allowBodySave'' ''allow_body_save''),
                 bound (Some []) as_strs (job_field body ''secretValues'' ''secret_values'')) of
             (Some script, Some variables, Some prev, Some allow, Some secrets) \<Rightarrow>
               Inr \<lparr>jp_script = script, jp_variables = variables, jp_prev = prev, jp_allow_body_save = allow,
                    jp_secret_values = secrets, jp_request_timeout_ms = budget\<rparr>
           | _ \<Rightarrow> Inl (ValueError ''validation error for JobPayload'')))"

text \<open>The dispatch a scheduler writes for a job: every field, under its alias.\<close>

definition dispatch_of :: "job_payload \<Rightarrow> dict" where
  "dispatch_of j =
     [(''script'', JStr (jp_script j)), (''variables'', JObj (jp_variables j)),
      (''prev'', case jp_prev j of None \<Rightarrow> JNull | Some d \<Rightarrow> JObj d),
      (''allowBodySave'', JBool (jp_allow_body_save j)), (''secretValues'', JList (map JStr (jp_secret_values j))),
      (''requestTimeoutMs'', case jp_request_timeout_ms j of None \<Rightarrow> JNull | Some ms \<Rightarrow> JInt ms)]"

definition clamped :: "int option \<Rightarrow> int option" where
  "clamped b = (case b of None \<Rightarrow> None | Some ms \<Rightarrow> if ms \<le> 0 then None else Some (max 1000 (min 300000 ms)))"

definition sample_dispatched :: job_payload where
  "sample_dispatched =
     \<lparr>jp_script = ''get'', jp_variables = [(''host'', JStr ''h'')], jp_prev = None, jp_allow_body_save = False,
      jp_secret_values = [''s1'', ''s2''], jp_request_timeout_ms = Some 900000\<rparr>"

section \<open>Lemmas\<close>

lemma digit_not_special:
  "is_digit c \<Longrightarrow> \<not> is_space c \<and> c \<noteq> CHR ''-'' \<and> c \<noteq> CHR ''+'' \<and> c \<noteq> CHR ''_''"
  by (auto simp: is_digit_def is_space_def code_def Let_def)

lemma int_str_chars: "c \<in> set (int_str i) \<Longrightarrow> is_digit c \<or> c = CHR ''-''"
  by (auto simp: int_str_def dest: nat_str_10_digit split: if_splits)

lemma strip_int_str [simp]: "strip (int_str i) = int_str i"
proof (rule strip_no_space, rule ballI)
  fix c assume "c \<in> set (int_str i)"
  then have "is_digit c \<or> c = CHR ''-''" by (rule int_str_chars)
  then show "\<not> is_space c" by (auto simp: is_digit_def is_space_def code_def Let_def)
qed

lemma split_sign_int_str:
  "split_sign (int_str i) = (i < 0, nat_str 10 (nat \<bar>i\<bar>))"
proof (cases "i < 0")
  case False
  obtain c r where c: "nat_str 10 (nat i) = c # r" by (metis nat_str_nonempty list.exhaust)
  then have "is_digit c" by (metis list.set_intros(1) nat_str_10_digit)
  with False c digit_not_special [of c] show ?thesis by (simp add: split_sign_def int_str_def)
qed (simp add: split_sign_def int_str_def)

lemma nat_str_10_no_underscore [simp]: "CHR ''_'' \<notin> set (nat_str 10 n)"
  by (auto dest!: nat_str_10_digit digit_not_special)

lemma list_all_is_digit_nat_str [simp]: "list_all is_digit (nat_str 10 n)"
  by (auto simp: list_all_iff dest: nat_str_10_digit)

lemma int_max_str_digits_pos: "5 \<le> int_max_str_digits" "Suc 0 \<le> int_max_str_digits"
  by (simp_all add: int_max_str_digits_def)

lemma parse_int_str_int_str:
  assumes "\<bar>i\<bar> < 10 ^ int_max_str_digits"
  shows "parse_int_str (int_str i) = Some i"
proof -
  have "int (nat \<bar>i\<bar>) < int (10 ^ int_max_str_digits)" using assms by simp
  then have "nat \<bar>i\<bar> < 10 ^ int_max_str_digits" by (simp only: of_nat_less_iff)
  then have "length (nat_str 10 (nat \<bar>i\<bar>)) \<le> int_max_str_digits"
    by (rule length_nat_str [rotated]) (simp_all add: int_max_str_digits_pos)
  then show ?thesis
    by (simp add: parse_int_str_def split_sign_int_str digits_val_nat_str Let_def)
qed

lemma sanitise_int:
  "sanitise_run_budget (JInt i) = Inr (if i \<le> 0 then None else Some (max 1000 (min 300000 i)))"
  by (simp add: sanitise_run_budget_def as_int_def min_run_timeout_ms_def max_run_timeout_ms_def)

lemma sanitise_range:
  "sanitise_run_budget v = Inr (Some ms) \<Longrightarrow> 1000 \<le> ms \<and> ms \<le> 300000"
  by (auto simp: sanitise_run_budget_def min_run_timeout_ms_def max_run_timeout_ms_def
      split: if_splits sum.splits option.splits)

lemma those_as_str [simp]: "those (map (as_str \<circ> JStr) ss) = Some ss"
  by (induction ss) auto

lemma bind_budget_range: "bind_run_budget body = Inr (Some ms) \<Longrightarrow> 1000 \<le> ms \<and> ms \<le> 300000"
  by (auto simp: bind_run_budget_def dest: sanitise_range split: option.splits)

lemma bind_job_budget: "bind_job lax_bool body = Inr j \<Longrightarrow> bind_run_budget body = Inr (jp_request_timeout_ms j)"
  by (auto simp: bind_job_def split: sum.splits option.splits)

lemma bind_budget_dispatch:
  assumes "dict_get body ''requestTimeoutMs'' = Some (case b of None \<Rightarrow> JNull | Some ms \<Rightarrow> JInt ms)"
  shows "bind_run_budget body = Inr (clamped b)"
  using assms
  by (cases b) (auto simp: bind_run_budget_def job_field_def clamped_def sanitise_int, simp add: sanitise_run_budget_def)

lemma bind_dispatch:
  assumes "\<And>b. lax_bool (JBool b) = Some b"
  shows "bind_job lax_bool (dispatch_of j @ extra) = Inr (j\<lparr>jp_request_timeout_ms := clamped (jp_request_timeout_ms j)\<rparr>)"
proof -
  have "bind_run_budget (dispatch_of j @ extra) = Inr (clamped (jp_request_timeout_ms j))"
    by (rule bind_budget_dispatch) (simp add: dispatch_of_def dict_get_def)
  then show ?thesis
    by (simp add: bind_job_def job_field_def bound_def dispatch_of_def dict_get_def assms split: option.split)
qed

section \<open>Properties\<close>

text \<open>C34: A dispatch is read as it was written: whatever job the scheduler writes, the agent binds exactly that
  job, its run budget clamped into range and nothing else changed, also when further fields stand behind it; and no
  dispatch whatever, well formed or not, gives a job with a budget outside 1000..300000.\<close>

theorem dispatch_read_as_written:
  assumes "\<And>b. lax_bool (JBool b) = Some b"
  shows "bind_job lax_bool (dispatch_of j @ extra) = Inr (j\<lparr>jp_request_timeout_ms := clamped (jp_request_timeout_ms j)\<rparr>)
    \<and> (case bind_job lax_bool body of
         Inr j' \<Rightarrow> (case jp_request_timeout_ms j' of None \<Rightarrow> True | Some ms \<Rightarrow> 1000 \<le> ms \<and> ms \<le> 300000)
       | Inl _ \<Rightarrow> True)"
proof (rule conjI)
  show "bind_job lax_bool (dispatch_of j @ extra) = Inr (j\<lparr>jp_request_timeout_ms := clamped (jp_request_timeout_ms j)\<rparr>)"
    using assms by (rule bind_dispatch)
  show "case bind_job lax_bool body of
         Inr j' \<Rightarrow> (case jp_request_timeout_ms j' of None \<Rightarrow> True | Some ms \<Rightarrow> 1000 \<le> ms \<and> ms \<le> 300000)
       | Inl _ \<Rightarrow> True"
    using bind_budget_range [of body] bind_job_budget [of lax_bool body] by (auto split: sum.splits option.splits)
qed

theorem dispatch_read_as_written_witness:
  "\<exists>lax_bool. bind_job lax_bool (dispatch_of sample_dispatched @ [(''extra'', JNull)])
     = Inr (sample_dispatched\<lparr>jp_request_timeout_ms := Some 300000\<rparr>)"
proof -
  let ?lax = "\<lambda>v. case v of JBool b \<Rightarrow> Some b | _ \<Rightarrow> None"
  have "clamped (jp_request_timeout_ms sample_dispatched) = Some 300000" by code_simp
  with dispatch_read_as_written [of ?lax sample_dispatched "[(''extra'', JNull)]" "[]"] show ?thesis by auto
qed


text \<open>The run budget an agent acts on. A whole number at or below zero means no budget, any other is
  clamped into 1000..300000; a number that arrives as its decimal string (up to the
  interpreter's 4300 digits) is treated exactly like the number; booleans, lists, objects and NaN
  mean no budget; and every budget that comes out, whatever the value was, is inside
  1000..300000.\<close>

theorem run_budget_sanitised:
  assumes "\<bar>i\<bar> < 10 ^ int_max_str_digits"
  shows "sanitise_run_budget (JInt i) = Inr (if i \<le> 0 then None else Some (max 1000 (min 300000 i)))
    \<and> sanitise_run_budget (JStr (int_str i)) = sanitise_run_budget (JInt i)
    \<and> sanitise_run_budget (JBool b) = Inr None \<and> sanitise_run_budget (JList l) = Inr None
    \<and> sanitise_run_budget (JObj d) = Inr None \<and> sanitise_run_budget (JFloat NaN) = Inr None
    \<and> (case sanitise_run_budget v of Inr (Some ms) \<Rightarrow> 1000 \<le> ms \<and> ms \<le> 300000 | _ \<Rightarrow> True)"
proof (intro conjI)
  show "sanitise_run_budget (JStr (int_str i)) = sanitise_run_budget (JInt i)"
    using parse_int_str_int_str [OF assms] by (simp add: sanitise_run_budget_def as_int_def)
  show "case sanitise_run_budget v of Inr (Some ms) \<Rightarrow> 1000 \<le> ms \<and> ms \<le> 300000 | _ \<Rightarrow> True"
    using sanitise_range [of v] by (simp split: sum.splits option.splits)
qed (simp_all add: sanitise_int, simp_all add: sanitise_run_budget_def as_int_def)

theorem run_budget_sanitised_witness:
  "sanitise_run_budget (JStr ''45000'') = Inr (Some 45000)
   \<and> sanitise_run_budget (JInt 45000) = Inr (Some 45000)"
proof -
  have "\<bar>45000 :: int\<bar> < 10 ^ 5" by simp
  also have "(10 :: int) ^ 5 \<le> 10 ^ int_max_str_digits"
    by (rule power_increasing) (simp_all add: int_max_str_digits_pos)
  finally have b: "\<bar>45000 :: int\<bar> < 10 ^ int_max_str_digits" .
  have s: "int_str 45000 = ''45000''"
    by (simp add: int_str_def nat_str.simps digit_char_def char_of_eq_iff)
  show ?thesis using run_budget_sanitised [OF b, unfolded s] by simp
qed

text \<open>Sanitising raises for exactly two wire values, the two infinities (which JSON decoding
  accepts as \<open>Infinity\<close> or an overflowing literal): \<open>int()\<close> raises \<open>OverflowError\<close>, which
  \<open>_as_int\<close> does not catch. Every other value keeps its probe.\<close>

theorem run_budget_raises_only_on_infinity:
  "(\<exists>e. sanitise_run_budget v = Inl e) \<longleftrightarrow> v = JFloat PInf \<or> v = JFloat NInf"
  by (cases v rule: py_int.cases) (auto simp: sanitise_run_budget_def as_int_def split: option.splits)

end
