(* ===== verification/Executor_Run.thy ===== *)
theory Executor_Run
  imports Probe_Run Attribution Redaction Job
begin

text \<open>
  \<open>services/executor.py\<close>: one run of a job on a pool thread (\<open>_run_sync\<close>), from the executor's
  configuration to the uploaded bodies, and the health challenge. The Lace executor is not part of
  the repository: the record \<open>lace\<close> holds the two things the agent uses of it, the
  configuration a fresh instance starts with and its \<open>run\<close>, each given the \<open>extensions\<close> argument of the
  constructor, \<open>None\<close> when it is left out. The agent's module-level state is the
  record \<open>agent\<close>.
\<close>

section \<open>Module state\<close>

type_synonym uploader = "string \<Rightarrow> string \<Rightarrow> (fs, string) proc"

record agent = metrics_module +
  ag_pool :: "nat option"
  ag_storage :: "uploader option"
  ag_user_agent :: string
  ag_egress :: bool

definition init_probe_pool :: "nat \<Rightarrow> agent \<Rightarrow> agent" where
  "init_probe_pool n m = m\<lparr>ag_pool := Some n\<rparr>"

definition init_storage :: "uploader \<Rightarrow> agent \<Rightarrow> agent" where
  "init_storage st m = m\<lparr>ag_storage := Some st\<rparr>"

definition init_user_agent :: "string \<Rightarrow> agent \<Rightarrow> agent" where
  "init_user_agent ua m = m\<lparr>ag_user_agent := ua\<rparr>"

definition init_egress_policy :: "bool \<Rightarrow> agent \<Rightarrow> agent" where
  "init_egress_policy b m = (let m1 = m\<lparr>ag_egress := b\<rparr> in if b then guard_install m1 else m1)"

record lace =
  lx_config :: "string list option \<Rightarrow> dict"
  lx_run :: "string list option \<Rightarrow> dict \<Rightarrow> string \<Rightarrow> dict option \<Rightarrow> dict option \<Rightarrow> (wire_world, dict) proc"

section \<open>Configuring the executor\<close>

definition extensions_for :: "dict \<Rightarrow> string list" where
  "extensions_for variables =
     [''laceNotifications'']
     @ (if dict_get variables ''trackBaseline'' = Some (JStr ''true'') then [''laceBaseline''] else [])
     @ (if dict_get variables ''notifyRecovery'' \<noteq> Some (JStr ''false'') then [''laceEmitRecovery''] else [])"

text \<open>\<open>d.setdefault(k, {})[k'] = v\<close> and \<open>d.setdefault(k, {}).setdefault(k', v)\<close>.\<close>

definition set_under :: "string \<Rightarrow> string \<Rightarrow> json \<Rightarrow> dict \<Rightarrow> py_exn + dict" where
  "set_under k k' v d =
     (case dict_get d k of
        None \<Rightarrow> Inr (dict_set k (JObj [(k', v)]) d)
      | Some (JObj e) \<Rightarrow> Inr (dict_set k (JObj (dict_set k' v e)) d)
      | Some _ \<Rightarrow> Inl (TypeError ''object does not support item assignment''))"

definition default_under :: "string \<Rightarrow> string \<Rightarrow> json \<Rightarrow> dict \<Rightarrow> py_exn + dict" where
  "default_under k k' v d =
     (case dict_get d k of
        None \<Rightarrow> Inr (dict_set k (JObj [(k', v)]) d)
      | Some (JObj e) \<Rightarrow>
          Inr (if dict_get e k' = None then dict_set k (JObj (dict_set k' v e)) d else d)
      | Some _ \<Rightarrow> Inl (AttributeError ''object has no attribute setdefault''))"

definition ensure_dict :: "string \<Rightarrow> dict \<Rightarrow> dict" where
  "ensure_dict k d = (if dict_get d k = None then dict_set k (JObj []) d else d)"

definition timeout_message :: string where
  "timeout_message = service_prefix @ '' call to ${url} timed out''"

definition recovery_message :: string where
  "recovery_message = service_prefix @ '' recovered''"

definition extension_config :: "string list \<Rightarrow> dict \<Rightarrow> py_exn + dict" where
  "extension_config exts d =
     (case default_under ''laceNotifications'' ''timeout_message'' (JStr timeout_message) d of
        Inl e \<Rightarrow> Inl e
      | Inr d1 \<Rightarrow>
          if ''laceEmitRecovery'' \<in> set exts
          then default_under ''laceEmitRecovery'' ''recovery_message'' (JStr recovery_message) d1
          else Inr d1)"

definition run_config :: "string \<Rightarrow> string list \<Rightarrow> bool \<Rightarrow> string \<Rightarrow> dict \<Rightarrow> py_exn + dict" where
  "run_config ua exts allow_bodies bodies_dir cfg =
     (case (if ua \<noteq> [] then set_under ''executor'' ''user_agent'' (JStr ua) cfg else Inr cfg) of
        Inl e \<Rightarrow> Inl e
      | Inr c1 \<Rightarrow>
          (let c2 = ensure_dict ''result'' c1 in
           case (if allow_bodies then set_under ''result'' ''bodies'' (JObj [(''dir'', JStr bodies_dir)]) c2 else Inr c2) of
             Inl e \<Rightarrow> Inl e
           | Inr c3 \<Rightarrow>
               (let c4 = ensure_dict ''extensions'' c3 in
                case dict_get c4 ''extensions'' of
                  Some (JObj d) \<Rightarrow>
                    (case extension_config exts d of
                       Inl e \<Rightarrow> Inl e
                     | Inr d' \<Rightarrow> Inr (dict_set ''extensions'' (JObj d') c4))
                | _ \<Rightarrow> Inl (AttributeError ''object has no attribute setdefault''))))"

section \<open>Uploading bodies\<close>

definition redact_file :: "string list \<Rightarrow> string \<Rightarrow> (fs, unit) proc" where
  "redact_file secrets path =
     (if secrets = [] then ret ()
      else andthen (read_bytes path) (\<lambda>original.
             let redacted = redact_body_bytes original secrets
             in if redacted \<noteq> original then write_bytes path redacted else ret ()))"

definition upload_call :: "uploader \<Rightarrow> string list \<Rightarrow> string \<Rightarrow> json \<Rightarrow> (fs, json) proc" where
  "upload_call up secrets run_prefix call fs =
     (case call of
        JObj c \<Rightarrow>
          (case dict_get c ''response'' of
             None \<Rightarrow> ret call fs
           | Some JNull \<Rightarrow> ret call fs
           | Some (JObj r) \<Rightarrow>
               (case dict_get r ''bodyPath'' of
                  None \<Rightarrow> ret call fs
                | Some JNull \<Rightarrow> ret call fs
                | Some (JStr path) \<Rightarrow>
                    if \<not> path_exists fs path then ret call fs
                    else andthen (redact_file secrets path) (\<lambda>_.
                         andthen (up path (run_prefix @ ''/'' @ path_name path)) (\<lambda>ref.
                         ret (JObj (dict_set ''response'' (JObj (dict_set ''bodyPath'' (JStr ref) r)) c)))) fs
                | Some _ \<Rightarrow> raise (TypeError ''argument should be a str or an os.PathLike object'') fs)
           | Some _ \<Rightarrow> raise (AttributeError ''object has no attribute get'') fs)
      | _ \<Rightarrow> raise (AttributeError ''object has no attribute get'') fs)"

fun upload_calls :: "uploader \<Rightarrow> string list \<Rightarrow> string \<Rightarrow> json list \<Rightarrow> (fs, json list) proc" where
  "upload_calls up secrets run_prefix [] = ret []"
| "upload_calls up secrets run_prefix (c # cs) =
     andthen (upload_call up secrets run_prefix c) (\<lambda>c'.
     andthen (upload_calls up secrets run_prefix cs) (\<lambda>cs'. ret (c' # cs')))"

definition upload_bodies :: "uploader \<Rightarrow> string list \<Rightarrow> string \<Rightarrow> dict \<Rightarrow> (fs, dict) proc" where
  "upload_bodies up secrets run_prefix result =
     (case dict_get result ''calls'' of
        None \<Rightarrow> ret result
      | Some (JList cs) \<Rightarrow>
          andthen (upload_calls up secrets run_prefix cs) (\<lambda>cs'. ret (dict_set ''calls'' (JList cs') result))
      | Some (JObj d) \<Rightarrow> if d = [] then ret result else raise (AttributeError ''object has no attribute get'')
      | Some (JStr d) \<Rightarrow> if d = [] then ret result else raise (AttributeError ''object has no attribute get'')
      | Some _ \<Rightarrow> raise (TypeError ''object is not iterable''))"

section \<open>A run\<close>

definition on_files :: "(fs, 'a) proc \<Rightarrow> (wire_world, 'a) proc" where
  "on_files m s = (case m (files s) of (r, f) \<Rightarrow> (r, s\<lparr>files := f\<rparr>))"

text \<open>\<open>shutil.rmtree(d, ignore_errors=True)\<close>.\<close>

definition beneath :: "string \<Rightarrow> string \<Rightarrow> bool" where
  "beneath d p = (p = path_text d \<or> startswith p (path_text d @ ''/''))"

definition rmtree :: "string \<Rightarrow> wire_world \<Rightarrow> wire_world" where
  "rmtree d s = s\<lparr>files := (\<lambda>p. if beneath d p then None else files s p)\<rparr>"

text \<open>\<open>run_progress.assigned() or RunProgress()\<close>.\<close>

definition own_record :: "(wire_world, nat) proc" where
  "own_record s = (case assigned_rec s of Some p \<Rightarrow> (Inr p, s) | None \<Rightarrow> new_progress s)"

text \<open>What follows \<open>executor.run\<close> when it returns: the totals, the attribution, the bodies.\<close>

definition with_totals :: "int \<Rightarrow> int \<Rightarrow> dict \<Rightarrow> dict" where
  "with_totals i e result = dict_set ''egressBytes'' (JInt e) (dict_set ''ingressBytes'' (JInt i) result)"

definition finish_run ::
  "agent \<Rightarrow> string \<Rightarrow> string list \<Rightarrow> nat \<Rightarrow> int \<Rightarrow> int \<Rightarrow> dict \<Rightarrow> (wire_world, dict) proc" where
  "finish_run m run_prefix secrets p i e result t =
     (let r1 = with_totals i e result in
      case attribute_call_timeouts r1 (rp_timeouts (records t p)) of
        Inl x \<Rightarrow> (Inl x, t)
      | Inr att \<Rightarrow>
          (let r2 = (case att of None \<Rightarrow> r1 | Some a \<Rightarrow> dict_set ''attribution'' (attribution_json a) r1)
           in case ag_storage m of
                None \<Rightarrow> (Inr r2, t)
              | Some up \<Rightarrow> on_files (upload_bodies up secrets run_prefix r2) (enter Storing_bodies p t)))"

definition run_block ::
  "lace \<Rightarrow> agent \<Rightarrow> string \<Rightarrow> string \<Rightarrow> job_payload \<Rightarrow> nat \<Rightarrow> (wire_world, dict) proc" where
  "run_block lx m bodies_dir run_prefix payload p s =
     (let exts = extensions_for (jp_variables payload) in
      case run_config (ag_user_agent m) exts (jp_allow_body_save payload) bodies_dir (lx_config lx (Some exts)) of
        Inl x \<Rightarrow> (Inl x, s)
      | Inr cfg \<Rightarrow>
          (let vars = (if jp_variables payload \<noteq> [] then Some (jp_variables payload) else None);
               ((r, i, e), t) = probe_scopes (ag_egress m) p
                                  (lx_run lx (Some exts) cfg (jp_script payload) vars (jp_prev payload)) s
           in case r of
                Inl x \<Rightarrow> (Inl x, t)
              | Inr result \<Rightarrow> finish_run m run_prefix (jp_secret_values payload) p i e result t))"

text \<open>
  \<open>_run_sync\<close>. \<open>bodies_dir\<close> is the fresh directory \<open>tempfile.mkdtemp\<close> makes, \<open>run_prefix\<close> the random
  namespace of the run's bodies.
\<close>

definition run_sync :: "lace \<Rightarrow> agent \<Rightarrow> string \<Rightarrow> string \<Rightarrow> job_payload \<Rightarrow> (wire_world, dict) proc" where
  "run_sync lx m bodies_dir run_prefix payload =
     andthen own_record (\<lambda>p s.
       finally_do (run_block lx m bodies_dir run_prefix payload p) (rmtree bodies_dir)
         (s\<lparr>files := (files s)(path_text bodies_dir \<mapsto> Directory)\<rparr>))"

section \<open>The health challenge\<close>

definition health_script :: string where
  "health_script = ''get(\"$tokenUrl\").expect(status: 200).store({ \"$$token\": this.body.token })''"

text \<open>
  \<open>_run_health_sync\<close>: the token the script extracted, or an error. \<open>show\<close> is the interpreter's rendering
  of the call's error in the message.
\<close>

definition health_failure :: "(json \<Rightarrow> string) \<Rightarrow> dict \<Rightarrow> py_exn" where
  "health_failure show result =
     (case (case dict_get result ''calls'' of None \<Rightarrow> JList [JObj []] | Some v \<Rightarrow> v) of
        JList (JObj c # _) \<Rightarrow>
          RuntimeError (''health script failed: '' @
            (case dict_get c ''error'' of None \<Rightarrow> ''unknown error'' | Some v \<Rightarrow> show v))
      | JList [] \<Rightarrow> IndexError ''list index out of range''
      | JList _ \<Rightarrow> AttributeError ''object has no attribute get''
      | JObj _ \<Rightarrow> KeyError ''0''
      | JStr [] \<Rightarrow> IndexError ''string index out of range''
      | JStr _ \<Rightarrow> AttributeError ''object has no attribute get''
      | _ \<Rightarrow> TypeError ''object is not subscriptable'')"

definition health_token :: "(json \<Rightarrow> string) \<Rightarrow> dict \<Rightarrow> py_exn + json" where
  "health_token show result =
     (case dict_get result ''outcome'' of
        None \<Rightarrow> Inl (KeyError ''outcome'')
      | Some v \<Rightarrow>
          if v \<noteq> JStr ''success'' then Inl (health_failure show result)
          else (case (case dict_get result ''runVars'' of None \<Rightarrow> JObj [] | Some v \<Rightarrow> v) of
                  JObj vars \<Rightarrow>
                    (case dict_get vars ''token'' of
                       Some t \<Rightarrow> if truthy t then Inr t else Inl (RuntimeError ''health script did not extract token'')
                     | None \<Rightarrow> Inl (RuntimeError ''health script did not extract token''))
                | _ \<Rightarrow> Inl (AttributeError ''object has no attribute get'')))"

definition run_health :: "(json \<Rightarrow> string) \<Rightarrow> lace \<Rightarrow> string \<Rightarrow> (wire_world, json) proc" where
  "run_health show lx token_url =
     andthen (lx_run lx None (lx_config lx None) health_script (Some [(''tokenUrl'', JStr token_url)]) None)
       (\<lambda>result s. (health_token show result, s))"

section \<open>Asking about the path\<close>

text \<open>\<open>_reach_sync\<close>: the same egress policy as a run.\<close>

definition reach_sync :: "agent \<Rightarrow> wire_world reach_ops \<Rightarrow> nat \<Rightarrow> string \<Rightarrow> int \<Rightarrow> bool \<Rightarrow> (wire_world, dict) proc" where
  "reach_sync m ops attempts host port use_tls =
     (if ag_egress m then active (reach ops attempts host port use_tls) else reach ops attempts host port use_tls)"

text \<open>The operations of a reach on the agent's patched \<open>socket\<close> module.\<close>

definition agent_ops ::
  "layer list \<Rightarrow> layer list \<Rightarrow> (string option \<Rightarrow> int \<Rightarrow> (wire_world, addrinfo list) proc)
     \<Rightarrow> (address \<Rightarrow> (wire_world, unit) proc) \<Rightarrow> int \<Rightarrow> (wire_world, unit) proc \<Rightarrow> wire_world reach_ops" where
  "agent_ops gs cs sysr sysc fd shake =
     \<lparr>op_resolve = (\<lambda>host. stacked_getaddrinfo gs sysr (Some host)),
      op_socket = (\<lambda>_ s. s),
      op_connect = (\<lambda>i. stacked_connect cs fd sysc (InetAddr (ai_ip i) [ai_port i])),
      op_handshake = (\<lambda>_. hook_wrap_socket shake),
      op_tcp = (\<lambda>s. read_fd s fd), op_close = (\<lambda>s. s), op_clock = mono\<rparr>"

section \<open>What a step may write\<close>

definition secret_free :: "string list \<Rightarrow> string \<Rightarrow> bool" where
  "secret_free secrets c = list_all (\<lambda>s. s = [] \<or> \<not> contains c (utf8 s)) secrets"

text \<open>Every file after a step was there before, or holds no secret.\<close>

definition clean_step :: "string list \<Rightarrow> fs \<Rightarrow> fs \<Rightarrow> bool" where
  "clean_step secrets fs fs' \<longleftrightarrow>
     (\<forall>p c. fs' p = Some (File c) \<longrightarrow> fs p = Some (File c) \<or> secret_free secrets c)"

text \<open>A configuration value two levels down.\<close>

definition config_get :: "dict \<Rightarrow> string \<Rightarrow> string \<Rightarrow> json option" where
  "config_get d k k' = (case dict_get d k of Some (JObj e) \<Rightarrow> dict_get e k' | _ \<Rightarrow> None)"

text \<open>Concrete data for the witnesses.\<close>

definition sample_agent :: agent where
  "sample_agent =
     \<lparr>getaddrinfo_slot = [], connect_slot = [], guard_installed = False, wrap_slot = 0, request_slot = 0,
      close_slot = 0, progress_installed = False, send_slot = 0, resp_init_slot = 0, metrics_installed = False,
      ag_pool = None, ag_storage = None, ag_user_agent = ''ua'', ag_egress = False\<rparr>"

text \<open>A relation kept by every operation a reach uses.\<close>

definition reach_ops_keep :: "('s \<Rightarrow> 's \<Rightarrow> bool) \<Rightarrow> 's reach_ops \<Rightarrow> string \<Rightarrow> int \<Rightarrow> bool" where
  "reach_ops_keep R ops host port \<longleftrightarrow>
     (\<forall>s. R s s) \<and> (\<forall>s t u. R s t \<longrightarrow> R t u \<longrightarrow> R s u)
     \<and> (\<forall>s. R s (snd (op_resolve ops host port s))) \<and> (\<forall>i s. R s (op_socket ops i s))
     \<and> (\<forall>i s. R s (snd (op_connect ops i s))) \<and> (\<forall>s. R s (snd (op_handshake ops host s)))
     \<and> (\<forall>s. R s (op_close ops s))"

section \<open>The contract of an uploader\<close>

text \<open>A store that writes nothing but copies of the file it is given.\<close>

locale copying_store =
  fixes upload :: uploader
  assumes copies: "upload src k fs = (r, fs') \<Longrightarrow> fs' p = Some (File c) \<Longrightarrow>
    fs p = Some (File c) \<or> file_at src fs = Some c"
begin

lemma upload_clean:
  assumes "\<And>c. file_at src fs = Some c \<Longrightarrow> secret_free secrets c"
  shows "clean_step secrets fs (snd (upload src k fs))"
  using copies [of src k fs "fst (upload src k fs)" "snd (upload src k fs)"] assms
  by (auto simp: clean_step_def)

end

section \<open>Lemmas\<close>

lemma secret_free_redacted: "secret_free secrets (redact_body_bytes data secrets)"
proof -
  have "\<not> contains (redact_body_bytes data secrets) (utf8 s)" if "s \<in> set secrets" "s \<noteq> []" for s
    using that fold_redact_free [of s "longest_first secrets" data] by (auto simp: redact_body_bytes_def)
  then show ?thesis by (auto simp: secret_free_def list_all_iff)
qed

lemma clean_refl [simp]: "clean_step secrets fs fs"
  by (simp add: clean_step_def)

lemma clean_trans: "clean_step secrets a b \<Longrightarrow> clean_step secrets b c \<Longrightarrow> clean_step secrets a c"
  unfolding clean_step_def by blast

lemma redact_file_clean:
  assumes "redact_file secrets path fs = (r, fs')"
  shows "clean_step secrets fs fs' \<and> (r = Inr () \<longrightarrow> (\<forall>c. file_at path fs' = Some c \<longrightarrow> secret_free secrets c))"
proof (cases "secrets = []")
  case True
  with assms show ?thesis by (auto simp: redact_file_def ret_def secret_free_def)
next
  case False
  show ?thesis
  proof (cases "fs (path_text path)")
    case (Some n)
    show ?thesis
    proof (cases n)
      case (File c)
      with Some False assms secret_free_redacted [of secrets c] show ?thesis
        by (auto simp: redact_file_def andthen_def ret_def read_bytes_def write_bytes_def Let_def clean_step_def
            file_at_def split: if_splits)
    next
      case Directory
      with Some False assms show ?thesis by (auto simp: redact_file_def andthen_def read_bytes_def)
    qed
  next
    case None
    with False assms show ?thesis by (auto simp: redact_file_def andthen_def read_bytes_def)
  qed
qed

context copying_store
begin

lemma upload_call_clean: "clean_step secrets fs (snd (upload_call upload secrets run_prefix call fs))"
proof -
  have step: "clean_step secrets fs (snd (andthen (redact_file secrets path) (\<lambda>_.
        andthen (upload path k) (\<lambda>ref. ret (f ref))) fs))" for path k and f :: "string \<Rightarrow> json"
  proof -
    obtain r fs1 where r: "redact_file secrets path fs = (r, fs1)" by fastforce
    show ?thesis
    proof (cases r)
      case (Inl e)
      with r redact_file_clean [OF r] show ?thesis by (simp add: andthen_def)
    next
      case (Inr u)
      with redact_file_clean [OF r] have "clean_step secrets fs fs1"
        "clean_step secrets fs1 (snd (upload path k fs1))"
        by (auto intro: upload_clean)
      then have "clean_step secrets fs (snd (upload path k fs1))" by (rule clean_trans)
      with r Inr show ?thesis by (auto simp: andthen_def ret_def split: prod.splits sum.splits)
    qed
  qed
  show ?thesis
    unfolding upload_call_def
    by (auto simp: ret_def raise_def step split: json.splits option.splits)
qed

lemma upload_calls_clean: "clean_step secrets fs (snd (upload_calls upload secrets run_prefix cs fs))"
proof (induction cs arbitrary: fs)
  case (Cons c cs)
  obtain r fs1 where c: "upload_call upload secrets run_prefix c fs = (r, fs1)" by fastforce
  have 1: "clean_step secrets fs fs1" using upload_call_clean [of secrets fs run_prefix c] c by simp
  have 2: "clean_step secrets fs1 (snd (upload_calls upload secrets run_prefix cs fs1))" by (rule Cons)
  from clean_trans [OF 1 2] 1 c show ?case
    by (auto simp: andthen_def ret_def split: prod.splits sum.splits)
qed (simp add: ret_def)

lemma upload_bodies_clean: "clean_step secrets fs (snd (upload_bodies upload secrets run_prefix result fs))"
proof -
  have "clean_step secrets fs (snd (andthen (upload_calls upload secrets run_prefix cs) (\<lambda>x. ret (f x)) fs))"
    for cs and f :: "json list \<Rightarrow> dict"
    using upload_calls_clean [of secrets fs run_prefix cs]
    by (auto simp: andthen_def ret_def split: prod.splits sum.splits)
  then show ?thesis
    by (auto simp: upload_bodies_def ret_def raise_def split: option.splits json.splits)
qed

end

lemma copy2_copies:
  assumes "copy2 src dst fs = (r, fs')" and "fs' p = Some (File c)"
  shows "fs p = Some (File c) \<or> file_at src fs = Some c"
  using assms
  by (auto simp: copy2_def andthen_def read_bytes_def write_bytes_def file_at_def Let_def
      split: option.splits node.splits if_splits)

lemma make_dirs_file: "make_dirs qs fs = (r, fs') \<Longrightarrow> fs' p = Some (File c) \<Longrightarrow> fs p = Some (File c)"
  using make_dirs_new [of qs fs r fs' p] by (cases "fs' p = fs p") auto

lemma fs_upload_copies:
  assumes "fs_upload R src k fs = (r, fs')" and "fs' p = Some (File c)"
  shows "fs p = Some (File c) \<or> file_at src fs = Some c"
proof -
  obtain x fs1 where m: "make_dirs (ancestors (path_parent (path_parse (path_join R k)))) fs = (x, fs1)" by fastforce
  have prior: "fs q = Some (File c)" if "fs1 q = Some (File c)" for q
    using make_dirs_file [OF m that] .
  have src: "file_at src fs = Some c" if "file_at src fs1 = Some c"
    using that prior [of "path_text src"] by (auto simp: file_at_def split: option.splits node.splits)
  show ?thesis
  proof (cases x)
    case (Inl e)
    with m assms prior show ?thesis by (auto simp: fs_upload_def Let_def andthen_def mkdir_all_def)
  next
    case (Inr u)
    obtain y fs2 where c: "copy2 src (path_join R k) fs1 = (y, fs2)" by fastforce
    with m Inr assms(1) have "fs' = fs2"
      by (auto simp: fs_upload_def Let_def andthen_def mkdir_all_def ret_def split: sum.splits)
    with copy2_copies [OF c] assms(2) prior src show ?thesis by blast
  qed
qed

interpretation fs_copying: copying_store "fs_upload R" for R
  by unfold_locales (rule fs_upload_copies)

lemma on_files_simps [simp]:
  "current (snd (on_files m s)) = current s" "get_counter (snd (on_files m s)) = get_counter s"
  "guard_on (snd (on_files m s)) = guard_on s" "records (snd (on_files m s)) = records s"
  by (simp_all add: on_files_def get_counter_def split: prod.splits)

lemma enter_simps [simp]:
  "current (enter ph p s) = current s" "get_counter (enter ph p s) = get_counter s"
  "guard_on (enter ph p s) = guard_on s"
  "rp_ingress (records (enter ph p s) q) = rp_ingress (records s q)"
  "rp_egress (records (enter ph p s) q) = rp_egress (records s q)"
  by (simp_all add: enter_def upd_record_def get_counter_def)

lemma finish_run_scopes:
  "current (snd (finish_run m pre secrets p i e result t)) = current t"
  "get_counter (snd (finish_run m pre secrets p i e result t)) = get_counter t"
  "guard_on (snd (finish_run m pre secrets p i e result t)) = guard_on t"
  "rp_ingress (records (snd (finish_run m pre secrets p i e result t)) q) = rp_ingress (records t q)"
  "rp_egress (records (snd (finish_run m pre secrets p i e result t)) q) = rp_egress (records t q)"
  by (simp_all add: finish_run_def Let_def split: sum.splits option.splits)

lemma probe_scopes_after:
  "current (snd (probe_scopes g p body s)) = current s"
  "get_counter (snd (probe_scopes g p body s)) = get_counter s"
  "g \<Longrightarrow> guard_on (snd (probe_scopes g p body s)) = guard_on s"
  by (simp_all add: probe_scopes_unfold split: prod.splits) (auto simp: unscoped_world_def get_counter_def)

lemma run_block_cases:
  obtains (config) x where "run_block lx m d pre payload p s = (Inl x, s)"
  | (raised) body :: "(wire_world, dict) proc" and x i e t where "probe_scopes (ag_egress m) p body s = ((Inl x, i, e), t)"
      "run_block lx m d pre payload p s = (Inl x, t)" "\<exists>es cfg vars. body = lx_run lx es cfg (jp_script payload) vars (jp_prev payload)"
  | (returned) body :: "(wire_world, dict) proc" and result i e t where "probe_scopes (ag_egress m) p body s = ((Inr result, i, e), t)"
      "run_block lx m d pre payload p s = finish_run m pre (jp_secret_values payload) p i e result t"
      "\<exists>es cfg vars. body = lx_run lx es cfg (jp_script payload) vars (jp_prev payload)"
proof -
  let ?exts = "extensions_for (jp_variables payload)"
  let ?vars = "if jp_variables payload \<noteq> [] then Some (jp_variables payload) else None"
  show thesis
  proof (cases "run_config (ag_user_agent m) ?exts (jp_allow_body_save payload) d (lx_config lx (Some ?exts))")
    case (Inl x)
    then show thesis by (intro config) (simp add: run_block_def Let_def)
  next
    case (Inr cfg)
    let ?body = "lx_run lx (Some ?exts) cfg (jp_script payload) ?vars (jp_prev payload)"
    obtain r i e t where g: "probe_scopes (ag_egress m) p ?body s = ((r, i, e), t)" by (metis prod.collapse)
    show thesis
    proof (cases r)
      case (Inl x)
      with g Inr show thesis by (intro raised [of ?body x i e t]) (auto simp: run_block_def Let_def)
    next
      case (Inr result)
      with g \<open>run_config _ _ _ _ _ = _\<close> show thesis
        by (intro returned [of ?body result i e t]) (auto simp: run_block_def Let_def)
    qed
  qed
qed

lemma run_block_scopes:
  "current (snd (run_block lx m d pre payload p s)) = current s"
  "get_counter (snd (run_block lx m d pre payload p s)) = get_counter s"
  "ag_egress m \<Longrightarrow> guard_on (snd (run_block lx m d pre payload p s)) = guard_on s"
proof -
  let ?r = "run_block lx m d pre payload p s"
  have "current (snd ?r) = current s \<and> get_counter (snd ?r) = get_counter s \<and> (ag_egress m \<longrightarrow> guard_on (snd ?r) = guard_on s)"
  proof (cases rule: run_block_cases [of lx m d pre payload p s])
    case (raised body x i e t)
    then show ?thesis using probe_scopes_after [of "ag_egress m" p body s] by (cases "ag_egress m") simp_all
  next
    case (returned body result i e t)
    then show ?thesis using probe_scopes_after [of "ag_egress m" p body s] by (cases "ag_egress m") (simp_all add: finish_run_scopes)
  qed simp
  then show "current (snd ?r) = current s" "get_counter (snd ?r) = get_counter s"
    "ag_egress m \<Longrightarrow> guard_on (snd ?r) = guard_on s" by simp_all
qed

lemma run_sync_cases:
  "\<exists>p s0. own_record s = (Inr p, s0) \<and> current s0 = current s \<and> get_counter s0 = get_counter s
     \<and> guard_on s0 = guard_on s
     \<and> run_sync lx m d pre payload s =
        (let (r, t) = run_block lx m d pre payload p (s0\<lparr>files := (files s0)(path_text d \<mapsto> Directory)\<rparr>)
         in (r, rmtree d t))"
  by (auto simp: run_sync_def own_record_def new_progress_def andthen_def finally_do_def get_counter_def
      split: option.splits)

lemma run_sync_end:
  "current (snd (run_sync lx m d pre payload s)) = current s
   \<and> get_counter (snd (run_sync lx m d pre payload s)) = get_counter s
   \<and> (ag_egress m \<longrightarrow> guard_on (snd (run_sync lx m d pre payload s)) = guard_on s)
   \<and> {p. beneath d p} \<inter> dom (files (snd (run_sync lx m d pre payload s))) = {}"
proof -
  obtain p s0 where o: "current s0 = current s" "get_counter s0 = get_counter s" "guard_on s0 = guard_on s"
    "run_sync lx m d pre payload s =
        (let (r, t) = run_block lx m d pre payload p (s0\<lparr>files := (files s0)(path_text d \<mapsto> Directory)\<rparr>)
         in (r, rmtree d t))"
    using run_sync_cases [where s = s and lx = lx and m = m and d = d and pre = pre and payload = payload] by blast
  let ?s1 = "s0\<lparr>files := (files s0)(path_text d \<mapsto> Directory)\<rparr>"
  obtain r t where b: "run_block lx m d pre payload p ?s1 = (r, t)" by fastforce
  have "get_counter ?s1 = get_counter s" using o(2) by (simp add: get_counter_def)
  moreover have "get_counter (rmtree d t) = get_counter t" "current (rmtree d t) = current t"
    "guard_on (rmtree d t) = guard_on t" "{p. beneath d p} \<inter> dom (files (rmtree d t)) = {}"
    by (auto simp: rmtree_def get_counter_def)
  ultimately show ?thesis
    using o b run_block_scopes [where lx = lx and m = m and d = d and pre = pre and payload = payload and p = p and s = ?s1]
    by simp
qed

section \<open>Properties\<close>

text \<open>C36: Whatever a run does, raise included, it leaves the pool thread clean: nothing is left under its temporary
  directory, no record is tracked, the byte counter is back, and with the guard in force it is off again.\<close>

theorem run_cleans_up:
  "{p. beneath bodies_dir p} \<inter> dom (files (snd (run_sync lx m bodies_dir pre payload s))) = {}
   \<and> current (snd (run_sync lx m bodies_dir pre payload s)) = current s
   \<and> get_counter (snd (run_sync lx m bodies_dir pre payload s)) = get_counter s
   \<and> guard_on (snd (run_sync lx (m\<lparr>ag_egress := True\<rparr>) bodies_dir pre payload s)) = guard_on s"
  using run_sync_end [where lx = lx and m = m and d = bodies_dir and pre = pre and payload = payload and s = s]
    run_sync_end [where lx = lx and m = "m\<lparr>ag_egress := True\<rparr>" and d = bodies_dir and pre = pre and payload = payload and s = s]
  by simp


lemma upload_bodies_keys:
  assumes "upload_bodies up secrets pre result fs = (Inr result', fs')" and "k \<noteq> ''calls''"
  shows "dict_get result' k = dict_get result k"
proof (cases "dict_get result ''calls''")
  case (Some v)
  show ?thesis
  proof (cases v)
    case (JList cs)
    obtain r fs1 where u: "upload_calls up secrets pre cs fs = (r, fs1)" by fastforce
    with assms(1) Some JList show ?thesis
      using assms(2) by (cases r) (auto simp: upload_bodies_def andthen_def ret_def dict_get_set)
  qed (use assms Some in \<open>simp_all add: upload_bodies_def ret_def raise_def split: if_splits\<close>)
qed (use assms in \<open>simp add: upload_bodies_def ret_def\<close>)

lemma finish_run_keys:
  assumes "finish_run m pre secrets p i e result t = (Inr final, t')" and "k \<noteq> ''calls''" and "k \<noteq> ''attribution''"
  shows "dict_get final k = dict_get (with_totals i e result) k"
proof -
  obtain r2 where r2: "\<And>k. k \<noteq> ''attribution'' \<Longrightarrow> dict_get r2 k = dict_get (with_totals i e result) k"
    and f: "final = r2 \<or> (\<exists>up fs fs'. upload_bodies up secrets pre r2 fs = (Inr final, fs'))"
  proof (cases "attribute_call_timeouts (with_totals i e result) (rp_timeouts (records t p))")
    case (Inr att)
    let ?r2 = "case att of None \<Rightarrow> with_totals i e result | Some a \<Rightarrow> dict_set ''attribution'' (attribution_json a) (with_totals i e result)"
    have 1: "\<And>k. k \<noteq> ''attribution'' \<Longrightarrow> dict_get ?r2 k = dict_get (with_totals i e result) k"
      by (simp add: dict_get_set split: option.splits)
    show thesis
    proof (cases "ag_storage m")
      case None
      with Inr assms(1) have "final = ?r2" by (simp add: finish_run_def Let_def)
      with 1 show thesis by (intro that [of ?r2] disjI1)
    next
      case (Some up)
      with Inr assms(1) have "\<exists>fs fs'. upload_bodies up secrets pre ?r2 fs = (Inr final, fs')"
        by (auto simp: finish_run_def Let_def on_files_def split: prod.splits)
      with 1 show thesis by (intro that [of ?r2] disjI2 exI [of _ up])
    qed
  qed (use assms(1) in \<open>simp add: finish_run_def Let_def\<close>)
  have "dict_get final k = dict_get r2 k"
    using f upload_bodies_keys [OF _ assms(2)] by blast
  with r2 [OF assms(3)] show ?thesis by simp
qed

lemma with_totals_get:
  "dict_get (with_totals i e result) k =
     (if k = ''egressBytes'' then Some (JInt e) else if k = ''ingressBytes'' then Some (JInt i) else dict_get result k)"
  by (simp add: with_totals_def dict_get_set)

text \<open>A run's result is the executor's own, forwarded: the two byte totals are set, \<open>attribution\<close> may be
  added and body paths inside \<open>calls\<close> rewritten; every other key reads as the executor wrote it.\<close>

theorem result_forwarded:
  assumes "finish_run m pre secrets p i e result t = (Inr final, t')" and "k \<notin> {''ingressBytes'', ''egressBytes'', ''attribution'', ''calls''}"
  shows "dict_get final k = dict_get result k \<and> dict_get final ''ingressBytes'' = Some (JInt i)
       \<and> dict_get final ''egressBytes'' = Some (JInt e)"
  using finish_run_keys [OF assms(1), of k] finish_run_keys [OF assms(1), of "''ingressBytes''"]
    finish_run_keys [OF assms(1), of "''egressBytes''"] assms(2)
  by (simp add: with_totals_get)

theorem result_forwarded_witness:
  "\<exists>final t'. finish_run sample_agent ''ab'' [] 0 7 40 [(''outcome'', JStr ''success'')] sample_world = (Inr final, t')
     \<and> dict_get final ''outcome'' = Some (JStr ''success'')"
proof -
  have "dict_get (with_totals 7 40 [(''outcome'', JStr ''success'')]) ''calls'' = None"
    by (simp add: with_totals_def dict_get_set) (simp add: dict_get_def)
  then have a: "attribute_call_timeouts (with_totals 7 40 [(''outcome'', JStr ''success'')]) ts = Inr None" for ts
    by (simp add: attribute_call_timeouts_def calls_of_def timed_out_calls_def)
  have f: "finish_run sample_agent ''ab'' [] 0 7 40 [(''outcome'', JStr ''success'')] sample_world
     = (Inr (with_totals 7 40 [(''outcome'', JStr ''success'')]), sample_world)"
    by (simp add: finish_run_def sample_agent_def a)
  from result_forwarded [OF f, of "''outcome''"] f show ?thesis by (simp add: dict_get_def)
qed

lemma set_under_get: "set_under k k' v d = Inr d' \<Longrightarrow>
    config_get d' k k' = Some v \<and> (\<forall>j. j \<noteq> k \<longrightarrow> dict_get d' j = dict_get d j)"
  by (auto simp: set_under_def config_get_def dict_get_set split: option.splits json.splits)
     (auto simp: dict_get_def)

lemma default_under_get: "default_under k k' v d = Inr d' \<Longrightarrow>
    config_get d' k k' = Some (case config_get d k k' of Some w \<Rightarrow> w | None \<Rightarrow> v)
    \<and> (\<forall>j. j \<noteq> k \<longrightarrow> dict_get d' j = dict_get d j)"
  by (auto simp: default_under_def config_get_def dict_get_set split: option.splits json.splits if_splits)
     (auto simp: dict_get_def)

lemma ensure_dict_get: "dict_get (ensure_dict k d) j = (if j = k \<and> dict_get d k = None then Some (JObj []) else dict_get d j)"
  by (auto simp: ensure_dict_def dict_get_set)

lemma config_get_ensure: "config_get (ensure_dict k d) k k' = config_get d k k'"
proof -
  have "dict_get [] k' = None" by (simp add: dict_get_def)
  then show ?thesis by (simp add: config_get_def ensure_dict_get)
qed

lemma health_token_iff:
  "health_token show result = Inr t \<longleftrightarrow>
     dict_get result ''outcome'' = Some (JStr ''success'')
     \<and> config_get result ''runVars'' ''token'' = Some t \<and> truthy t"
  by (auto simp: health_token_def config_get_def dict_get_def split: option.splits json.splits if_splits)

text \<open>The messages the agent composes are defaults: a value an operator's own configuration has wins. The user
  agent, when set, is the deployment's, and bodies are saved, to the run's own directory, only if
  the dispatch allows it.\<close>

theorem operator_config_wins:
  assumes "run_config ua exts allow bodies_dir cfg = Inr cfg'" and "dict_get cfg ''extensions'' = Some (JObj ext)"
    and "dict_get cfg' ''extensions'' = Some (JObj ext')"
  shows "config_get ext' ''laceNotifications'' ''timeout_message''
           = Some (case config_get ext ''laceNotifications'' ''timeout_message'' of Some v \<Rightarrow> v | None \<Rightarrow> JStr timeout_message)
       \<and> config_get cfg' ''executor'' ''user_agent'' = (if ua \<noteq> [] then Some (JStr ua) else config_get cfg ''executor'' ''user_agent'')
       \<and> config_get cfg' ''result'' ''bodies''
           = (if allow then Some (JObj [(''dir'', JStr bodies_dir)]) else config_get cfg ''result'' ''bodies'')"
proof -
  obtain c1 where c1: "(if ua \<noteq> [] then set_under ''executor'' ''user_agent'' (JStr ua) cfg else Inr cfg) = Inr c1"
    using assms(1) by (auto simp: run_config_def split: sum.splits)
  obtain c3 where c3: "(if allow then set_under ''result'' ''bodies'' (JObj [(''dir'', JStr bodies_dir)]) (ensure_dict ''result'' c1)
      else Inr (ensure_dict ''result'' c1)) = Inr c3"
    using assms(1) c1 by (auto simp: run_config_def Let_def split: sum.splits)
  have e1: "dict_get c1 ''extensions'' = Some (JObj ext)" "dict_get c1 ''result'' = dict_get cfg ''result''"
    using c1 assms(2) by (auto dest: set_under_get split: if_splits)
  have e3: "dict_get c3 ''extensions'' = Some (JObj ext)" "dict_get c3 ''executor'' = dict_get c1 ''executor''"
    using c3 e1 by (auto dest: set_under_get simp: ensure_dict_get split: if_splits)
  obtain d' where d': "extension_config exts ext = Inr d'" "cfg' = dict_set ''extensions'' (JObj d') (ensure_dict ''extensions'' c3)"
    using assms(1) c1 c3 e3 by (auto simp: run_config_def Let_def ensure_dict_get split: sum.splits)
  have x: "ext' = d'" using assms(3) d' by simp
  obtain d1 where d1: "default_under ''laceNotifications'' ''timeout_message'' (JStr timeout_message) ext = Inr d1"
    using d' by (auto simp: extension_config_def split: sum.splits)
  have "dict_get d' ''laceNotifications'' = dict_get d1 ''laceNotifications''"
    using d' d1 by (auto simp: extension_config_def dest: default_under_get split: sum.splits if_splits)
  then have 1: "config_get ext' ''laceNotifications'' ''timeout_message'' =
     Some (case config_get ext ''laceNotifications'' ''timeout_message'' of Some v \<Rightarrow> v | None \<Rightarrow> JStr timeout_message)"
    using default_under_get [OF d1] x by (simp add: config_get_def)
  have o: "dict_get cfg' j = dict_get c3 j" if "j \<noteq> ''extensions''" for j
    using that d'(2) by (simp add: dict_get_set ensure_dict_get)
  have 2: "config_get cfg' ''executor'' ''user_agent'' = (if ua \<noteq> [] then Some (JStr ua) else config_get cfg ''executor'' ''user_agent'')"
    using o e3(2) c1 set_under_get [of "''executor''" "''user_agent''" "JStr ua" cfg c1]
    by (auto simp: config_get_def split: if_splits)
  have 3: "config_get cfg' ''result'' ''bodies''
           = (if allow then Some (JObj [(''dir'', JStr bodies_dir)]) else config_get cfg ''result'' ''bodies'')"
  proof (cases allow)
    case True
    with o c3 set_under_get [of "''result''" "''bodies''" "JObj [(''dir'', JStr bodies_dir)]" "ensure_dict ''result'' c1" c3]
    show ?thesis by (simp add: config_get_def)
  next
    case False
    with c3 have "c3 = ensure_dict ''result'' c1" by simp
    then have "config_get c3 ''result'' ''bodies'' = config_get c1 ''result'' ''bodies''"
      by (simp add: config_get_ensure)
    with o e1(2) False show ?thesis by (simp add: config_get_def)
  qed
  from 1 2 3 show ?thesis by blast
qed

theorem operator_config_wins_witness:
  "\<exists>cfg' ext'. run_config ''ua'' [''laceNotifications''] False ''/tmp/b'' [(''extensions'', JObj [(''laceNotifications'', JObj [(''timeout_message'', JStr ''own'')])])]
      = Inr cfg' \<and> dict_get cfg' ''extensions'' = Some (JObj ext')
      \<and> config_get ext' ''laceNotifications'' ''timeout_message'' = Some (JStr ''own'')"
proof -
  let ?cfg = "[(''extensions'', JObj [(''laceNotifications'', JObj [(''timeout_message'', JStr ''own'')])])]"
  obtain cfg' ext' where r: "run_config ''ua'' [''laceNotifications''] False ''/tmp/b'' ?cfg = Inr cfg'"
    "dict_get cfg' ''extensions'' = Some (JObj ext')"
    by (simp add: run_config_def extension_config_def set_under_def default_under_def ensure_dict_def dict_get_def dict_set_def)
  have c: "dict_get ?cfg ''extensions'' = Some (JObj [(''laceNotifications'', JObj [(''timeout_message'', JStr ''own'')])])"
    by (simp add: dict_get_def)
  from operator_config_wins [OF r(1) c r(2)] r show ?thesis by (simp add: config_get_def dict_get_def)
qed

text \<open>The health challenge answers with a token only if the script succeeded and stored a non-empty one, and then
  with exactly that; every other result of the script is an error.\<close>

theorem health_token_exact:
  "health_token show result = Inr t \<longleftrightarrow>
     dict_get result ''outcome'' = Some (JStr ''success'')
     \<and> config_get result ''runVars'' ''token'' = Some t \<and> truthy t"
  by (rule health_token_iff)

text \<open>A relation kept by every operation of a reach is kept by an attempt, by the loop and by the whole reach.\<close>

lemma reach_trans: "reach_ops_keep R ops host port \<Longrightarrow> R s t \<Longrightarrow> R t u \<Longrightarrow> R s u"
  unfolding reach_ops_keep_def by blast

lemma attempt_keeps:
  assumes "reach_ops_keep R ops host port"
  shows "R s (snd (reach_attempt ops host use_tls i path s))"
proof -
  note trans = reach_trans [OF assms]
  have failed: "R u (snd (failed_attempt ops att tcp e u))" for att tcp e u
    using assms by (cases e) (simp_all add: reach_ops_keep_def failed_attempt_def)
  have finished: "R u (snd (finish_attempt ops path att u))" for path att u
    using assms by (simp add: reach_ops_keep_def finish_attempt_def Let_def)
  let ?s0 = "op_socket ops i s"
  obtain x s1 where c: "op_connect ops i ?s0 = (x, s1)" by fastforce
  have "R s ?s0" "R ?s0 (snd (op_connect ops i ?s0))" using assms by (simp_all add: reach_ops_keep_def)
  with c trans have 1: "R s s1" by fastforce
  obtain y s2 where h: "op_handshake ops host s1 = (y, s2)" by fastforce
  have "R s1 (snd (op_handshake ops host s1))" using assms by (simp add: reach_ops_keep_def)
  with h trans [OF 1] have 2: "R s s2" by simp
  show ?thesis
    using c h trans [OF 1 failed] trans [OF 1 finished] trans [OF 2 failed] trans [OF 2 finished]
    by (simp add: reach_attempt_def Let_def split: sum.splits)
qed

lemma loop_keeps:
  assumes "reach_ops_keep R ops host port"
  shows "R s (snd (reach_loop ops host use_tls i m path results s))"
proof (induction m arbitrary: path results s)
  case 0
  with assms show ?case by (simp add: reach_ops_keep_def)
next
  case (Suc m)
  obtain x t where a: "reach_attempt ops host use_tls i path s = (x, t)" by fastforce
  have "R s t" using attempt_keeps [OF assms, of s use_tls i path] a by simp
  with a reach_trans [OF assms _ Suc] show ?case by (auto split: sum.splits prod.splits)
qed

lemma reach_keeps:
  assumes "reach_ops_keep R ops host port"
  shows "R s (snd (reach ops n host port use_tls s))"
proof -
  obtain x s1 where r: "op_resolve ops host port s = (x, s1)" by fastforce
  have "R s (snd (op_resolve ops host port s))" using assms by (simp add: reach_ops_keep_def)
  with r have 1: "R s s1" by simp
  have "R s (snd (reach_loop ops host use_tls i n Clean [] s1))" for i
    using reach_trans [OF assms 1 loop_keeps [OF assms]] .
  with r 1 show ?thesis
    by (auto simp: reach_def split: sum.splits py_exn.splits list.splits prod.splits) (metis snd_conv)+
qed

text \<open>A request to reach a target from this agent obeys the probes' egress policy: with it on and the guard
  installed, every address the attempts dial is one the policy lets through, and the thread is unguarded
  again afterwards.\<close>

theorem reach_dials_vetted_only:
  assumes "GuardLayer \<in> set cs" and "system_resolve sysr" and "system_connect sysc"
    and "\<And>u. dials_vetted cs u (snd (shake u))" and "ag_egress m"
  shows "\<exists>new. dialled (snd (reach_sync m (agent_ops gs cs sysr sysc fd shake) n host port use_tls s)) = new @ dialled s
           \<and> list_all vetted new
     \<and> guard_on (snd (reach_sync m (agent_ops gs cs sysr sysc fd shake) n host port use_tls s)) = guard_on s"
proof -
  let ?ops = "agent_ops gs cs sysr sysc fd shake"
  let ?s = "s\<lparr>guard_on := True\<rparr>"
  have "dials_vetted cs ?s (snd (reach ?ops n host port use_tls ?s))"
  proof (rule reach_keeps [where R = "dials_vetted cs"], unfold reach_ops_keep_def, intro conjI allI impI)
    show "dials_vetted cs u w" if "dials_vetted cs u v" "dials_vetted cs v w" for u v w
      using that by (rule dials.trans)
    show "dials_vetted cs u (snd (op_resolve ?ops host port u))" for u :: wire_world
      using dials.resolving [OF assms(2), of cs u gs "Some host" port] by (simp add: agent_ops_def)
    show "dials_vetted cs u (snd (op_connect ?ops i u))" for i u
      using dials.connecting [OF assms(3), of cs _ cs] assms(1) by (simp add: agent_ops_def)
    show "dials_vetted cs u (snd (op_handshake ?ops host u))" for u
      using dials.shaking_hands [OF assms(4)] by (simp add: agent_ops_def)
  qed (simp_all add: agent_ops_def dials.refl)
  then obtain new where "dialled (snd (reach ?ops n host port use_tls ?s)) = new @ dialled s" "list_all vetted new"
    using assms(1) by (auto simp: dials_vetted_def)
  moreover have "reach_sync m ?ops n host port use_tls s =
      (let (r, t) = reach ?ops n host port use_tls ?s in (r, t\<lparr>guard_on := guard_on s\<rparr>))"
    using assms(5) by (simp add: reach_sync_def active_def with_cell_def finally_do_def Let_def split: prod.splits)
  ultimately show ?thesis by (simp split: prod.splits)
qed

theorem reach_dials_vetted_only_witness:
  "\<exists>new. dialled (snd (reach_sync (sample_agent\<lparr>ag_egress := True\<rparr>)
       (agent_ops [GuardLayer] [GuardLayer] sample_resolve sample_connect 3 (\<lambda>s. (Inr (), s))) 3 ''example.com'' 443 True sample_world))
     = new @ [] \<and> list_all vetted new"
proof -
  have "system_resolve sample_resolve" "system_connect sample_connect"
    by (rule sample_system)+
  from reach_dials_vetted_only [of "[GuardLayer]", OF _ this, of "\<lambda>s. (Inr (), s)" "sample_agent\<lparr>ag_egress := True\<rparr>" "[GuardLayer]" 3 3 "''example.com''" 443 True sample_world]
  show ?thesis by (auto simp: dials.refl sample_world_def)
qed

end
