(* ===== verification/Probe_Pool.thy ===== *)
theory Probe_Pool
  imports Executor_Run
begin

text \<open>
  \<open>executor.execute_probe\<close>: one job between its submission to the probe pool and the answer. Two sides
  move independently: a pool thread takes the job, sets the \<open>started\<close> event and runs it; the
  event loop waits for the future under \<open>asyncio.wait_for\<close>. They are one transition system over
  the job's state, the event and what the loop is doing; a run of the agent is any
  interleaving of its steps. Time is microseconds since submission; the loop's timers are taken to
  be prompt (time does not pass a deadline it is waiting for). Cancelling the future drops a job
  that is still queued and has no effect on one a worker has taken, as
  \<open>concurrent.futures.Future.cancel\<close> documents.
\<close>

section \<open>State\<close>

datatype job = Queued | Taken | Running | Done "py_exn + dict" | Dropped

datatype answer = Result "py_exn + dict" | Budget_timeout int | At_capacity

datatype waiting = Waiting | Expired int | Answered answer

record probe_state =
  pb_now :: int
  pb_job :: job
  pb_started :: bool
  pb_loop :: waiting

definition submitted :: probe_state where
  "submitted = \<lparr>pb_now = 0, pb_job = Queued, pb_started = False, pb_loop = Waiting\<rparr>"

text \<open>\<open>started.wait(0.1)\<close>.\<close>

definition grace_us :: int where
  "grace_us = 100000"

section \<open>Steps\<close>

text \<open>
  A \<open>TimeoutError\<close> the run itself raises reaches the same \<open>except\<close> clause as an expired budget; with no budget
  there is no such clause.
\<close>

definition run_timed_out :: "int option \<Rightarrow> py_exn + dict \<Rightarrow> bool" where
  "run_timed_out budget r = (budget \<noteq> None \<and> (case r of Inl e \<Rightarrow> is_timeout e | Inr _ \<Rightarrow> False))"

definition may_wait_until :: "int option \<Rightarrow> probe_state \<Rightarrow> int \<Rightarrow> bool" where
  "may_wait_until budget s t =
     (case pb_loop s of
        Waiting \<Rightarrow> (case budget of None \<Rightarrow> True | Some b \<Rightarrow> t \<le> b * 1000)
      | Expired t0 \<Rightarrow> t \<le> t0 + grace_us
      | Answered _ \<Rightarrow> True)"

inductive step :: "int option \<Rightarrow> probe_state \<Rightarrow> probe_state \<Rightarrow> bool" for budget where
  tick: "pb_now s < t \<Longrightarrow> may_wait_until budget s t \<Longrightarrow> step budget s (s\<lparr>pb_now := t\<rparr>)"
| take_job: "pb_job s = Queued \<Longrightarrow> step budget s (s\<lparr>pb_job := Taken\<rparr>)"
| begin_run: "pb_job s = Taken \<Longrightarrow> step budget s (s\<lparr>pb_job := Running, pb_started := True\<rparr>)"
| finish: "pb_job s = Running \<Longrightarrow> step budget s (s\<lparr>pb_job := Done r\<rparr>)"
| deliver: "pb_loop s = Waiting \<Longrightarrow> pb_job s = Done r \<Longrightarrow> \<not> run_timed_out budget r \<Longrightarrow>
    step budget s (s\<lparr>pb_loop := Answered (Result r)\<rparr>)"
| deliver_timeout: "pb_loop s = Waiting \<Longrightarrow> pb_job s = Done r \<Longrightarrow> run_timed_out budget r \<Longrightarrow>
    step budget s (s\<lparr>pb_loop := Expired (pb_now s)\<rparr>)"
| expire: "pb_loop s = Waiting \<Longrightarrow> budget = Some b \<Longrightarrow> b * 1000 \<le> pb_now s \<Longrightarrow>
    step budget s (s\<lparr>pb_loop := Expired (pb_now s), pb_job := (if pb_job s = Queued then Dropped else pb_job s)\<rparr>)"
| answer_timeout: "pb_loop s = Expired t0 \<Longrightarrow> pb_started s \<Longrightarrow>
    step budget s (s\<lparr>pb_loop := Answered (Budget_timeout (ms_between 0 t0))\<rparr>)"
| refuse: "pb_loop s = Expired t0 \<Longrightarrow> \<not> pb_started s \<Longrightarrow> t0 + grace_us \<le> pb_now s \<Longrightarrow>
    step budget s (s\<lparr>pb_loop := Answered At_capacity\<rparr>)"

inductive_cases step_cases: "step budget s s'"

definition reachable :: "int option \<Rightarrow> probe_state \<Rightarrow> bool" where
  "reachable budget = (step budget)\<^sup>*\<^sup>* submitted"

text \<open>What the coroutine returns or raises for an answer.\<close>

definition respond ::
  "int \<Rightarrow> string \<Rightarrow> (stall option \<times> int \<times> int) option \<Rightarrow> int \<Rightarrow> answer \<Rightarrow> py_exn + dict" where
  "respond budget_ms started_at progress ended a =
     (case a of
        Result r \<Rightarrow> r
      | Budget_timeout elapsed_ms \<Rightarrow> Inr (run_budget_timeout budget_ms started_at elapsed_ms progress ended)
      | At_capacity \<Rightarrow> Inl (AgentAtCapacity budget_ms))"

section \<open>Invariants\<close>

definition consistent :: "int option \<Rightarrow> probe_state \<Rightarrow> bool" where
  "consistent budget s \<longleftrightarrow>
     (pb_started s = (pb_job s = Running \<or> (\<exists>r. pb_job s = Done r)))
     \<and> (pb_job s = Dropped \<longrightarrow> pb_loop s \<noteq> Waiting)
     \<and> (pb_job s = Queued \<longrightarrow> pb_loop s = Waiting)
     \<and> (case pb_loop s of
          Answered (Result r) \<Rightarrow> pb_job s = Done r \<and> \<not> run_timed_out budget r
        | Answered (Budget_timeout e) \<Rightarrow> pb_started s \<and> budget \<noteq> None
        | Answered At_capacity \<Rightarrow> budget \<noteq> None
        | Expired t0 \<Rightarrow> budget \<noteq> None
        | Waiting \<Rightarrow> True)"

definition timely :: "int option \<Rightarrow> probe_state \<Rightarrow> bool" where
  "timely budget s \<longleftrightarrow>
     0 \<le> pb_now s \<and>
     (\<forall>b. budget = Some b \<longrightarrow>
        (pb_loop s = Waiting \<longrightarrow> pb_now s \<le> max 0 (b * 1000))
        \<and> (\<forall>t0. pb_loop s = Expired t0 \<longrightarrow> 0 \<le> t0 \<and> t0 \<le> max 0 (b * 1000) \<and> t0 \<le> pb_now s \<and> pb_now s \<le> t0 + grace_us)
        \<and> (\<forall>e. pb_loop s = Answered (Budget_timeout e) \<longrightarrow> e \<le> max 0 b))"

text \<open>Concrete data for the witnesses.\<close>

definition sample_refused :: probe_state where
  "sample_refused = \<lparr>pb_now = 1100000, pb_job = Dropped, pb_started = False, pb_loop = Answered At_capacity\<rparr>"

text \<open>Some step of the job passes time or moves the loop.\<close>

definition progresses :: "int \<Rightarrow> probe_state \<Rightarrow> bool" where
  "progresses b s \<longleftrightarrow> (\<exists>s'. step (Some b) s s' \<and> (pb_now s < pb_now s' \<or> pb_loop s' \<noteq> pb_loop s))"

lemma consistent_submitted: "consistent budget submitted"
  by (simp add: consistent_def submitted_def)

lemma consistent_step: "step budget s s' \<Longrightarrow> consistent budget s \<Longrightarrow> consistent budget s'"
  by (induction rule: step.induct) (auto simp: consistent_def run_timed_out_def split: waiting.splits answer.splits)

lemma reachable_consistent: "reachable budget s \<Longrightarrow> consistent budget s"
  unfolding reachable_def
  by (induction rule: rtranclp_induct) (auto intro: consistent_submitted consistent_step)

lemma timely_submitted: "timely budget submitted"
  by (simp add: timely_def submitted_def)

lemma ms_between_le: "0 \<le> t \<Longrightarrow> t \<le> max 0 (b * 1000) \<Longrightarrow> ms_between 0 t \<le> max 0 b"
  by (auto simp: ms_between_def Let_def max_def split: if_splits)

lemma timely_step: "step budget s s' \<Longrightarrow> timely budget s \<Longrightarrow> timely budget s'"
  by (induction rule: step.induct)
     (auto simp: timely_def may_wait_until_def grace_us_def ms_between_le split: waiting.splits option.splits)

lemma reachable_timely: "reachable budget s \<Longrightarrow> timely budget s"
  unfolding reachable_def
  by (induction rule: rtranclp_induct) (auto intro: timely_submitted timely_step)

lemma answered_stable: "step budget s s' \<Longrightarrow> pb_loop s = Answered a \<Longrightarrow> pb_loop s' = Answered a"
  by (induction rule: step.induct) auto

lemma dropped_stable: "step budget s s' \<Longrightarrow> pb_job s = Dropped \<Longrightarrow> pb_job s' = Dropped \<and> pb_started s' = pb_started s"
  by (induction rule: step.induct) auto

lemma later_answered: "(step budget)\<^sup>*\<^sup>* s s' \<Longrightarrow> pb_loop s = Answered a \<Longrightarrow> pb_loop s' = Answered a"
  by (induction rule: rtranclp_induct) (auto dest: answered_stable)

lemma later_dropped: "(step budget)\<^sup>*\<^sup>* s s' \<Longrightarrow> pb_job s = Dropped \<Longrightarrow> pb_job s' = Dropped \<and> pb_started s' = pb_started s"
  by (induction rule: rtranclp_induct) (auto dest: dropped_stable)

lemma reachable_submitted: "reachable budget submitted"
  by (simp add: reachable_def)

lemma reachable_step: "reachable budget s \<Longrightarrow> step budget s s' \<Longrightarrow> reachable budget s'"
  by (simp add: reachable_def)

text \<open>The loop always has a step of its own: up to the deadline, past it, and out of the \<open>except\<close> clause.\<close>

lemma waiting_progresses:
  assumes "pb_loop s = Waiting" and "pb_now s \<le> b * 1000"
  shows "progresses b s"
proof (cases "pb_now s = b * 1000")
  case True
  have "step (Some b) s (s\<lparr>pb_loop := Expired (pb_now s), pb_job := (if pb_job s = Queued then Dropped else pb_job s)\<rparr>)"
    using assms(1) True by (intro expire) auto
  with assms(1) show ?thesis unfolding progresses_def by (intro exI) auto
next
  case False
  then have "step (Some b) s (s\<lparr>pb_now := b * 1000\<rparr>)"
    using assms by (intro tick) (auto simp: may_wait_until_def)
  with False assms(2) show ?thesis unfolding progresses_def by (intro exI) auto
qed

lemma expired_progresses:
  assumes "pb_loop s = Expired t0" and "pb_now s \<le> t0 + grace_us"
  shows "progresses b s"
proof -
  consider "pb_started s" | "\<not> pb_started s" "pb_now s = t0 + grace_us" | "pb_now s < t0 + grace_us" using assms(2) by linarith
  then show ?thesis
  proof cases
    case 1
    from answer_timeout [OF assms(1) 1, of "Some b"] assms(1) show ?thesis unfolding progresses_def by (intro exI) auto
  next
    case 2
    from refuse [OF assms(1) 2(1), of "Some b"] assms(1) 2(2) show ?thesis unfolding progresses_def by (intro exI) auto
  next
    case 3
    then have "step (Some b) s (s\<lparr>pb_now := t0 + grace_us\<rparr>)"
      using assms(1) by (intro tick) (auto simp: may_wait_until_def)
    with 3 show ?thesis unfolding progresses_def by (intro exI) auto
  qed
qed

section \<open>Properties\<close>

text \<open>C9: Every answer tells the truth about the run, in every interleaving: a result is the run's own; a budget
  timeout is only given for a run that had started; and a job refused before a worker took it
  never runs afterwards, whatever the pool does.\<close>

theorem answers_are_truthful:
  assumes "reachable budget s" and "pb_loop s = Answered a" and "(step budget)\<^sup>*\<^sup>* s s'"
  shows "pb_loop s' = Answered a
    \<and> (case a of
         Result r \<Rightarrow> pb_job s = Done r
       | Budget_timeout e \<Rightarrow> pb_started s
       | At_capacity \<Rightarrow> (pb_job s = Dropped \<longrightarrow> \<not> pb_started s') \<and> pb_job s \<noteq> Queued)"
proof -
  have c: "consistent budget s" using assms(1) by (rule reachable_consistent)
  have "\<not> pb_started s'" if "pb_job s = Dropped"
    using that later_dropped [OF assms(3) that] c by (simp add: consistent_def)
  with c later_answered [OF assms(3,2)] assms(2) show ?thesis
    by (auto simp: consistent_def split: answer.splits)
qed

lemma sample_refused_reachable: "reachable (Some 1000) sample_refused"
proof -
  let ?s0 = submitted
  let ?s1 = "?s0\<lparr>pb_now := 1000000\<rparr>"
  let ?s2 = "?s1\<lparr>pb_loop := Expired (pb_now ?s1), pb_job := (if pb_job ?s1 = Queued then Dropped else pb_job ?s1)\<rparr>"
  let ?s3 = "?s2\<lparr>pb_now := 1100000\<rparr>"
  let ?s4 = "?s3\<lparr>pb_loop := Answered At_capacity\<rparr>"
  have 1: "step (Some 1000) ?s0 ?s1" by (rule tick) (simp_all add: submitted_def may_wait_until_def)
  have 2: "step (Some 1000) ?s1 ?s2" by (rule expire [where b = 1000]) (simp_all add: submitted_def)
  have 3: "step (Some 1000) ?s2 ?s3" by (rule tick) (simp_all add: submitted_def may_wait_until_def grace_us_def)
  have 4: "step (Some 1000) ?s3 ?s4" by (rule refuse [where ?t0.0 = 1000000]) (simp_all add: submitted_def grace_us_def)
  have e: "?s4 = sample_refused" by (simp add: submitted_def sample_refused_def)
  have "reachable (Some 1000) ?s4"
    by (rule reachable_step [OF reachable_step [OF reachable_step [OF reachable_step [OF reachable_submitted 1] 2] 3] 4])
  then show ?thesis unfolding e .
qed

theorem answers_are_truthful_witness:
  "\<not> pb_started sample_refused \<and> reachable (Some 1000) sample_refused"
  using answers_are_truthful [OF sample_refused_reachable _ rtranclp.rtrancl_refl, of At_capacity]
    sample_refused_reachable
  by (simp add: sample_refused_def)



text \<open>A \<open>TimeoutError\<close> the run itself raises (storing a body on a network file system, say) is answered as if the
  budget had run out: a run that fails after 5 ms of a 30 s budget can be reported as a timeout of the
  target.\<close>

theorem own_timeout_error_reported_as_budget_timeout:
  "\<exists>s m. reachable (Some 30000) s \<and> pb_job s = Done (Inl (TimeoutError m))
     \<and> pb_now s = 5000 \<and> pb_loop s = Answered (Budget_timeout 5)
     \<and> (\<exists>d. respond 30000 started_at progress ended (Budget_timeout 5) = Inr d
            \<and> dict_get d ''outcome'' = Some (JStr ''timeout'')
            \<and> (\<exists>txt. dict_get d ''error'' = Some (JStr (''probe did not finish within its '' @ int_str 30000 @ ''ms run budget'' @ txt))))"
proof -
  let ?r = "Inl (TimeoutError ''timed out'') :: py_exn + dict"
  let ?s1 = "submitted\<lparr>pb_job := Taken\<rparr>"
  let ?s2 = "?s1\<lparr>pb_job := Running, pb_started := True\<rparr>"
  let ?s3 = "?s2\<lparr>pb_now := 5000\<rparr>"
  let ?s4 = "?s3\<lparr>pb_job := Done ?r\<rparr>"
  let ?s5 = "?s4\<lparr>pb_loop := Expired (pb_now ?s4)\<rparr>"
  let ?s6 = "?s5\<lparr>pb_loop := Answered (Budget_timeout (ms_between 0 5000))\<rparr>"
  have 1: "step (Some 30000) submitted ?s1" by (rule take_job) (simp add: submitted_def)
  have 2: "step (Some 30000) ?s1 ?s2" by (rule begin_run) simp
  have 3: "step (Some 30000) ?s2 ?s3" by (rule tick) (simp_all add: submitted_def may_wait_until_def)
  have 4: "step (Some 30000) ?s3 ?s4" by (rule finish) simp
  have 5: "step (Some 30000) ?s4 ?s5" by (rule deliver_timeout [of _ ?r]) (simp_all add: submitted_def run_timed_out_def)
  have 6: "step (Some 30000) ?s5 ?s6" by (rule answer_timeout) simp_all
  have "reachable (Some 30000) ?s6"
    by (rule reachable_step [OF reachable_step [OF reachable_step [OF reachable_step [OF reachable_step
          [OF reachable_step [OF reachable_submitted 1] 2] 3] 4] 5] 6])
  moreover have "ms_between 0 5000 = 5" by (simp add: ms_between_def)
  ultimately have "reachable (Some 30000) ?s6 \<and> pb_job ?s6 = Done ?r \<and> pb_now ?s6 = 5000 \<and> pb_loop ?s6 = Answered (Budget_timeout 5)"
    by simp
  moreover have "\<exists>d. respond 30000 started_at progress ended (Budget_timeout 5) = Inr d
            \<and> dict_get d ''outcome'' = Some (JStr ''timeout'')
            \<and> (\<exists>txt. dict_get d ''error'' = Some (JStr (''probe did not finish within its '' @ int_str 30000 @ ''ms run budget'' @ txt)))"
    by (simp add: respond_def run_budget_timeout_def Let_def dict_get_def split: option.splits)
  ultimately show ?thesis by blast
qed

text \<open>A refusal does not say the job will not run. A worker that took the job before the deadline but is not scheduled
  again within the tenth of a second has not set the event: the job is refused, and runs all the same.\<close>

theorem refused_job_can_still_run:
  "\<exists>s s'. reachable (Some 1000) s \<and> pb_loop s = Answered At_capacity \<and> step (Some 1000) s s' \<and> pb_job s' = Running"
proof -
  let ?s1 = "submitted\<lparr>pb_job := Taken\<rparr>"
  let ?s2 = "?s1\<lparr>pb_now := 1000000\<rparr>"
  let ?s3 = "?s2\<lparr>pb_loop := Expired (pb_now ?s2), pb_job := (if pb_job ?s2 = Queued then Dropped else pb_job ?s2)\<rparr>"
  let ?s4 = "?s3\<lparr>pb_now := 1100000\<rparr>"
  let ?s5 = "?s4\<lparr>pb_loop := Answered At_capacity\<rparr>"
  have 1: "step (Some 1000) submitted ?s1" by (rule take_job) (simp add: submitted_def)
  have 2: "step (Some 1000) ?s1 ?s2" by (rule tick) (simp_all add: submitted_def may_wait_until_def)
  have 3: "step (Some 1000) ?s2 ?s3" by (rule expire [where b = 1000]) (simp_all add: submitted_def)
  have 4: "step (Some 1000) ?s3 ?s4" by (rule tick) (simp_all add: submitted_def may_wait_until_def grace_us_def)
  have 5: "step (Some 1000) ?s4 ?s5" by (rule refuse [where ?t0.0 = 1000000]) (simp_all add: submitted_def grace_us_def)
  have "reachable (Some 1000) ?s5"
    by (rule reachable_step [OF reachable_step [OF reachable_step [OF reachable_step [OF reachable_step
          [OF reachable_submitted 1] 2] 3] 4] 5])
  moreover have "step (Some 1000) ?s5 (?s5\<lparr>pb_job := Running, pb_started := True\<rparr>)" by (rule begin_run) simp
  ultimately show ?thesis by (intro exI [of _ ?s5] exI [of _ "?s5\<lparr>pb_job := Running, pb_started := True\<rparr>"]) simp
qed

end
