(* ===== verification/Routes.thy ===== *)
theory Routes
  imports Probe_Pool Envelope
begin

text \<open>
  \<open>routes/probe.py\<close>, \<open>routes/health.py\<close>, \<open>routes/reach.py\<close>: the three endpoints. A handler is a routine that returns a
  status and a JSON body, or raises (which the framework turns into a 500). Parsing a dispatch is the
  argument \<open>parse_job\<close>, which is \<open>bind_job\<close> of \<open>Job\<close> for \<open>JobPayload(**body)\<close>; the other requests arrive as the
  model instance. Running a job, the health script or a reach is an argument, the corresponding routine of
  \<open>services/executor.py\<close>.
\<close>

type_synonym response = "int \<times> json"

section \<open>POST /probe\<close>

definition error_response :: "string \<Rightarrow> response" where
  "error_response what = (400, JObj [(''error'', JStr what)])"

definition at_capacity :: "int \<Rightarrow> response" where
  "at_capacity budget_ms =
     (503, JObj [(''error'', JStr ''agent_at_capacity''), (''detail'', JStr (exn_text (AgentAtCapacity budget_ms)))])"

text \<open>\<open>JobPayload(**body)\<close>, and the run with its refusal.\<close>

definition job_of :: "(dict \<Rightarrow> py_exn + job_payload) \<Rightarrow> json \<Rightarrow> py_exn + job_payload" where
  "job_of parse_job body =
     (case body of JObj d \<Rightarrow> parse_job d | _ \<Rightarrow> Inl (TypeError ''argument after ** must be a mapping''))"

definition run_job ::
  "(dict \<Rightarrow> py_exn + job_payload) \<Rightarrow> (job_payload \<Rightarrow> ('s, dict) proc) \<Rightarrow> json
     \<Rightarrow> (dict \<Rightarrow> ('s, response) proc) \<Rightarrow> ('s, response) proc" where
  "run_job parse_job execute body answer s =
     (case job_of parse_job body of
        Inl e \<Rightarrow> (Inl e, s)
      | Inr job \<Rightarrow>
          (case execute job s of
             (Inl (AgentAtCapacity b), s') \<Rightarrow> (Inr (at_capacity b), s')
           | (Inl e, s') \<Rightarrow> (Inl e, s')
           | (Inr result, s') \<Rightarrow> answer result s'))"

text \<open>\<open>opened.pop("replyCert", None)\<close> on what the envelope held.\<close>

definition pop_reply_cert :: "json \<Rightarrow> py_exn + (json option \<times> json)" where
  "pop_reply_cert opened =
     (case opened of
        JObj d \<Rightarrow> (let (v, d') = dict_pop ''replyCert'' d in Inr (v, JObj d'))
      | JList _ \<Rightarrow> Inl (TypeError ''pop expected at most 1 argument'')
      | _ \<Rightarrow> Inl (AttributeError ''object has no attribute pop''))"

definition reply_sealed ::
  "('priv, 'pub) crypto \<Rightarrow> string \<Rightarrow> string \<Rightarrow> json option \<Rightarrow> dict \<Rightarrow> ('s, response) proc" where
  "reply_sealed c content_key iv reply_cert result s =
     (case reply_cert of
        None \<Rightarrow> (Inr (error_response ''missing_reply_certificate''), s)
      | Some v \<Rightarrow>
          if \<not> truthy v then (Inr (error_response ''missing_reply_certificate''), s)
          else (case v of
                  JStr cert \<Rightarrow>
                    (case seal_envelope c content_key iv (JObj result) cert of
                       Inl e \<Rightarrow> (Inl e, s)
                     | Inr env \<Rightarrow> (Inr (200, JObj env), s))
                | _ \<Rightarrow> (Inl (AttributeError ''object has no attribute encode''), s)))"

definition open_body :: "('priv, 'pub) crypto \<Rightarrow> 'priv \<Rightarrow> json \<Rightarrow> py_exn + json" where
  "open_body c priv body =
     (case body of JObj d \<Rightarrow> open_envelope c priv d | _ \<Rightarrow> Inl (AttributeError ''object has no attribute get''))"

text \<open>\<open>content_key\<close> and \<open>iv\<close> are the random bytes of the reply's envelope.\<close>

definition run_probe ::
  "('priv, 'pub) crypto \<Rightarrow> 'priv option \<Rightarrow> string \<Rightarrow> string \<Rightarrow> (dict \<Rightarrow> py_exn + job_payload)
     \<Rightarrow> (job_payload \<Rightarrow> ('s, dict) proc) \<Rightarrow> json \<Rightarrow> ('s, response) proc" where
  "run_probe c agent_key content_key iv parse_job execute body s =
     (case is_envelope body of
        Inl e \<Rightarrow> (Inl e, s)
      | Inr False \<Rightarrow> run_job parse_job execute body (\<lambda>result s. (Inr (200, JObj result), s)) s
      | Inr True \<Rightarrow>
          (case agent_key of
             None \<Rightarrow> (Inr (error_response ''payload_encryption_unavailable''), s)
           | Some priv \<Rightarrow>
               (case open_body c priv body of
                  Inl (EnvelopeError _) \<Rightarrow> (Inr (error_response ''payload_undecryptable''), s)
                | Inl e \<Rightarrow> (Inl e, s)
                | Inr opened \<Rightarrow>
                    (case pop_reply_cert opened of
                       Inl e \<Rightarrow> (Inl e, s)
                     | Inr (reply_cert, job) \<Rightarrow>
                         run_job parse_job execute job (reply_sealed c content_key iv reply_cert) s))))"

section \<open>GET /health and POST /health/challenge\<close>

record health_response =
  hr_status :: string
  hr_version :: string
  hr_executor_version :: string
  hr_payload_encryption :: bool

record challenge_response =
  cr_challenge_id :: string
  cr_token :: "string option"
  cr_elapsed_ms :: int
  cr_success :: bool
  cr_error :: "string option"
  cr_payload_encryption :: bool

definition can_open_sealed :: "'priv option \<Rightarrow> bool" where
  "can_open_sealed agent_key = (agent_key \<noteq> None)"

definition health :: "string \<Rightarrow> string \<Rightarrow> 'priv option \<Rightarrow> health_response" where
  "health version executor_version agent_key =
     \<lparr>hr_status = ''ok'', hr_version = version, hr_executor_version = executor_version,
      hr_payload_encryption = can_open_sealed agent_key\<rparr>"

text \<open>
  The response model is built inside the \<open>try\<close>, so a token that is no string is a failure like any other;
  Pydantic's text for it is abridged.
\<close>

definition token_text :: "json \<Rightarrow> py_exn + string" where
  "token_text v = (case v of JStr t \<Rightarrow> Inr t | _ \<Rightarrow> Inl (ValueError ''token: input should be a valid string''))"

definition challenge ::
  "(string \<Rightarrow> ('s, json) proc) \<Rightarrow> ('s \<Rightarrow> int) \<Rightarrow> 'priv option \<Rightarrow> string \<Rightarrow> string \<Rightarrow> ('s, challenge_response) proc" where
  "challenge run_script clock agent_key challenge_id token_url s =
     (case run_script token_url s of
        (r, s') \<Rightarrow>
          (let elapsed = ms_between (clock s) (clock s')
           in case (case r of Inl e \<Rightarrow> Inl e | Inr v \<Rightarrow> token_text v) of
                Inr token \<Rightarrow>
                  (Inr \<lparr>cr_challenge_id = challenge_id, cr_token = Some token, cr_elapsed_ms = elapsed,
                        cr_success = True, cr_error = None, cr_payload_encryption = can_open_sealed agent_key\<rparr>, s')
              | Inl e \<Rightarrow>
                  (Inr \<lparr>cr_challenge_id = challenge_id, cr_token = None, cr_elapsed_ms = elapsed,
                        cr_success = False, cr_error = Some (exn_text e),
                        cr_payload_encryption = can_open_sealed agent_key\<rparr>, s')))"

section \<open>POST /reach\<close>

record reach_request =
  rr_host :: string
  rr_port :: int
  rr_tls :: bool

text \<open>The bounds of the model's fields; a request outside them is answered 422.\<close>

definition reach_request_ok :: "reach_request \<Rightarrow> bool" where
  "reach_request_ok r = (1 \<le> length (rr_host r) \<and> length (rr_host r) \<le> 253 \<and> 1 \<le> rr_port r \<and> rr_port r \<le> 65535)"

definition reach_route ::
  "(string \<Rightarrow> int \<Rightarrow> bool \<Rightarrow> ('s, dict) proc) \<Rightarrow> reach_request \<Rightarrow> ('s, response) proc" where
  "reach_route reach_target r s =
     (if \<not> reach_request_ok r then (Inr (422, JObj []), s)
      else (case reach_target (rr_host r) (rr_port r) (rr_tls r) s of
              (Inl e, s') \<Rightarrow> (Inl e, s')
            | (Inr d, s') \<Rightarrow> (Inr (200, JObj d), s')))"

text \<open>Concrete data for the witnesses: keys that match when they are equal, a format for one-field objects.\<close>

definition sample_crypto :: "(nat, nat) crypto" where
  "sample_crypto =
     \<lparr>oaep_decrypt = \<lambda>priv t. (case t of [] \<Rightarrow> Inl (ValueError ''short'')
          | c # k \<Rightarrow> if code c = priv then Inr k else Inl (ValueError ''wrong key'')),
      oaep_encrypt = \<lambda>pub k. char_of pub # k, gcm_decrypt = \<lambda>_ _ t. Inr t, gcm_encrypt = \<lambda>_ _ t. t,
      cert_key = \<lambda>t. Inr (Some (length t)),
      json_dumps = \<lambda>v. (case v of JObj [(k, JStr t)] \<Rightarrow> k @ CHR '':'' # t
          | JObj [(k, JStr t), (k', JStr t')] \<Rightarrow> k @ CHR '':'' # t @ CHR '':'' # k' @ CHR '':'' # t' | _ \<Rightarrow> []),
      json_loads = \<lambda>t. (case split_on CHR '':'' t of [k, v] \<Rightarrow> Inr (JObj [(k, JStr v)])
          | [k, v, k', v'] \<Rightarrow> Inr (JObj [(k, JStr v), (k', JStr v')]) | _ \<Rightarrow> Inl (ValueError ''json''))\<rparr>"

definition sample_job :: dict where
  "sample_job = [(''script'', JStr ''get''), (''replyCert'', JStr ''abc'')]"

definition sample_parse :: "dict \<Rightarrow> py_exn + job_payload" where
  "sample_parse = bind_job (\<lambda>v. case v of JBool b \<Rightarrow> Some b | _ \<Rightarrow> None)"

definition sample_execute :: "job_payload \<Rightarrow> (nat, dict) proc" where
  "sample_execute job n = (Inr [(''outcome'', JStr (jp_script job))], Suc n)"

section \<open>Lemmas\<close>

lemma run_job_sealed:
  assumes "run_job parse_job execute job (reply_sealed c ck iv rc) s = (Inr (status, content), s')"
  shows "(status, content) = error_response ''missing_reply_certificate'' \<or> (\<exists>b. (status, content) = at_capacity b)
    \<or> (\<exists>result cert env. status = 200 \<and> rc = Some (JStr cert) \<and> content = JObj env
         \<and> seal_envelope c ck iv (JObj result) cert = Inr env)"
proof -
  have reply: "(status, content) = error_response ''missing_reply_certificate''
      \<or> (\<exists>result cert env. status = 200 \<and> rc = Some (JStr cert) \<and> content = JObj env
         \<and> seal_envelope c ck iv (JObj result) cert = Inr env)"
    if "reply_sealed c ck iv rc result t = (Inr (status, content), s')" for result t
    using that by (auto simp: reply_sealed_def split: option.splits if_splits json.splits sum.splits)
  obtain payload where p: "job_of parse_job job = Inr payload"
    using assms by (cases "job_of parse_job job") (simp_all add: run_job_def)
  obtain r t where "execute payload s = (r, t)" by force
  note j = p this
  show ?thesis
  proof (cases r)
    case (Inl e)
    with j assms have "\<exists>b. at_capacity b = (status, content)"
      by (cases e) (auto simp: run_job_def)
    then show ?thesis by metis
  next
    case (Inr result)
    with j assms have "reply_sealed c ck iv rc result t = (Inr (status, content), s')"
      by (simp add: run_job_def)
    from reply [OF this] show ?thesis by blast
  qed
qed

text \<open>C28: A sealed dispatch is never answered in the clear: whatever is in the envelope and however the run ends, a response is
  one of the named refusals, which say nothing of the run, or the result sealed to the certificate that came
  inside the envelope.\<close>

theorem sealed_dispatch_answered_sealed:
  assumes "is_envelope body = Inr True"
    and "run_probe c agent_key ck iv parse_job execute body s = (Inr (status, content), s')"
  shows "(status, content) \<in> error_response ` {''payload_encryption_unavailable'', ''payload_undecryptable'',
            ''missing_reply_certificate''}
    \<or> (\<exists>b. (status, content) = at_capacity b)
    \<or> (\<exists>priv opened cert result env. agent_key = Some priv \<and> open_body c priv body = Inr (JObj opened)
         \<and> dict_get opened ''replyCert'' = Some (JStr cert) \<and> status = 200 \<and> content = JObj env
         \<and> seal_envelope c ck iv (JObj result) cert = Inr env)"
proof (cases "\<exists>priv opened rc job. agent_key = Some priv \<and> open_body c priv body = Inr opened \<and> pop_reply_cert opened = Inr (rc, job)")
  case False
  then show ?thesis
    using assms by (auto simp: run_probe_def split: option.splits sum.splits py_exn.splits prod.splits)
next
  case True
  then obtain priv opened rc job where o: "agent_key = Some priv" "open_body c priv body = Inr opened"
    "pop_reply_cert opened = Inr (rc, job)" by blast
  then have "run_job parse_job execute job (reply_sealed c ck iv rc) s = (Inr (status, content), s')"
    using assms by (simp add: run_probe_def)
  moreover obtain d where "opened = JObj d" "rc = dict_get d ''replyCert''"
    using o(3) by (cases opened) (auto simp: pop_reply_cert_def dict_pop_def dict_get_def)
  ultimately show ?thesis
    using run_job_sealed [of parse_job execute job c ck iv rc s status content s'] o by blast
qed

text \<open>The sealed exchange carries a job and its result end to end. The scheduler seals a job together with its own certificate
  to the agent's certificate; the agent runs exactly that job, without the certificate; and what it answers opens,
  under the scheduler's key, to exactly the result of the run.\<close>

theorem sealed_exchange:
  assumes "matching_keys c agent_priv agent_pub" and "cert_key c agent_cert = Inr (Some agent_pub)"
    and "matching_keys c sched_priv sched_pub" and "cert_key c sched_cert = Inr (Some sched_pub)"
    and "sched_cert \<noteq> []" and "dict_get job ''replyCert'' = Some (JStr sched_cert)"
    and "json_text c (JObj job)" and "json_text c (JObj result)"
    and "seal_envelope c key0 iv0 (JObj job) agent_cert = Inr request"
    and "parse_job (snd (dict_pop ''replyCert'' job)) = Inr payload" and "execute payload s = (Inr result, s')"
  shows "\<exists>answer. run_probe c (Some agent_priv) key1 iv1 parse_job execute (JObj request) s = (Inr (200, JObj answer), s')
     \<and> open_envelope c sched_priv answer = Inr (JObj result)"
proof -
  have req: "is_envelope (JObj request) = Inr True" "open_envelope c agent_priv request = Inr (JObj job)"
    using open_sealed [OF assms(1,2,7,9)] by simp_all
  obtain answer where a: "seal_envelope c key1 iv1 (JObj result) sched_cert = Inr answer"
    using assms(4) by (auto simp: seal_envelope_def Let_def)
  have "pop_reply_cert (JObj job) = Inr (Some (JStr sched_cert), JObj (snd (dict_pop ''replyCert'' job)))"
    using assms(6) by (simp add: pop_reply_cert_def dict_pop_def dict_get_def)
  then have "run_probe c (Some agent_priv) key1 iv1 parse_job execute (JObj request) s = (Inr (200, JObj answer), s')"
    using req a assms(5,10,11) by (simp add: run_probe_def open_body_def run_job_def job_of_def reply_sealed_def)
  with open_sealed [OF assms(3,4,8) a] show ?thesis by blast
qed

lemma sample_keys_match: "n < 256 \<Longrightarrow> matching_keys sample_crypto n n"
  by (simp add: matching_keys_def sample_crypto_def)

theorem sealed_exchange_witness:
  "\<exists>request answer. seal_envelope sample_crypto ''k0'' ''i0'' (JObj sample_job) ''agent'' = Inr request
     \<and> run_probe sample_crypto (Some 5) ''k1'' ''i1'' sample_parse sample_execute (JObj request) 0 = (Inr (200, JObj answer), 1)
     \<and> open_envelope sample_crypto 3 answer = Inr (JObj [(''outcome'', JStr ''get'')])"
proof -
  let ?p = "\<lparr>jp_script = ''get'', jp_variables = [], jp_prev = None, jp_allow_body_save = True,
            jp_secret_values = [], jp_request_timeout_ms = None\<rparr>"
  obtain request where r: "seal_envelope sample_crypto ''k0'' ''i0'' (JObj sample_job) ''agent'' = Inr request"
    by (simp add: seal_envelope_def sample_crypto_def Let_def)
  have k: "cert_key sample_crypto ''agent'' = Inr (Some 5)" "cert_key sample_crypto ''abc'' = Inr (Some 3)" by code_simp+
  have j: "json_text sample_crypto (JObj sample_job)" "json_text sample_crypto (JObj [(''outcome'', JStr ''get'')])"
    "dict_get sample_job ''replyCert'' = Some (JStr ''abc'')"
    "sample_parse (snd (dict_pop ''replyCert'' sample_job)) = Inr ?p"
    "sample_execute ?p 0 = (Inr [(''outcome'', JStr ''get'')], 1)"
    by code_simp+
  obtain answer where "run_probe sample_crypto (Some 5) ''k1'' ''i1'' sample_parse sample_execute (JObj request) 0 = (Inr (200, JObj answer), 1)"
    "open_envelope sample_crypto 3 answer = Inr (JObj [(''outcome'', JStr ''get'')])"
    using sealed_exchange [where c = sample_crypto and agent_priv = 5 and sched_priv = 3 and job = sample_job
        and sched_cert = "''abc''" and parse_job = sample_parse and execute = sample_execute and s = 0,
        OF sample_keys_match k(1) sample_keys_match k(2) _ j(3) j(1) j(2) r j(4) j(5)] by auto
  with r show ?thesis by blast
qed

theorem sealed_dispatch_answered_sealed_witness:
  "is_envelope (JObj [(''ek'', JStr []), (''ct'', JStr [])]) = Inr True
   \<and> (\<exists>content. run_probe sample_crypto (Some 5) ''k1'' ''i1'' sample_parse sample_execute
        (JObj [(''ek'', JStr []), (''ct'', JStr [])]) 0 = (Inr (400, content), 0)
      \<and> (400, content) = error_response ''payload_undecryptable'')"
proof -
  let ?b = "JObj [(''ek'', JStr []), (''ct'', JStr [])]"
  have e: "is_envelope ?b = Inr True" by code_simp
  have r: "run_probe sample_crypto (Some 5) ''k1'' ''i1'' sample_parse sample_execute ?b 0
      = (Inr (400, JObj [(''error'', JStr ''payload_undecryptable'')]), 0)" by code_simp
  from sealed_dispatch_answered_sealed [OF e r] e r show ?thesis by (auto simp: error_response_def at_capacity_def)
qed

text \<open>C37: The health challenge always answers, and answers truthfully: whatever the script and its result (a raise included) the
  handler returns; it reports success exactly when the script succeeded and stored a non-empty string, which is then
  the token, and otherwise an error and no token.\<close>

theorem challenge_always_truthful:
  "\<exists>r s'. challenge (run_health render lx) mono agent_key cid url s = (Inr r, s')
     \<and> cr_challenge_id r = cid \<and> cr_success r = (cr_token r \<noteq> None) \<and> cr_success r = (cr_error r = None)
     \<and> cr_payload_encryption r = can_open_sealed agent_key
     \<and> (cr_token r = Some t \<longleftrightarrow>
          t \<noteq> [] \<and> (\<exists>result. fst (lx_run lx None (lx_config lx None) health_script (Some [(''tokenUrl'', JStr url)]) None s) = Inr result
             \<and> dict_get result ''outcome'' = Some (JStr ''success'')
             \<and> config_get result ''runVars'' ''token'' = Some (JStr t)))"
proof -
  obtain r s' where run: "lx_run lx None (lx_config lx None) health_script (Some [(''tokenUrl'', JStr url)]) None s = (r, s')"
    by force
  show ?thesis
  proof (cases r)
    case (Inl e)
    with run show ?thesis by (auto simp: challenge_def run_health_def andthen_def Let_def)
  next
    case (Inr result)
    have e: "run_health render lx url s = (health_token render result, s')"
      using run Inr by (simp add: run_health_def andthen_def)
    show ?thesis
    proof (cases "\<exists>t. health_token render result = Inr (JStr t)")
      case True
      then obtain t' where t': "health_token render result = Inr (JStr t')" by blast
      with e run Inr show ?thesis
        by (auto simp: challenge_def Let_def token_text_def health_token_iff)
    next
      case False
      then have "\<exists>x. (case health_token render result of Inl e \<Rightarrow> Inl e | Inr v \<Rightarrow> token_text v) = Inl x"
        by (auto simp: token_text_def split: sum.splits json.splits)
      moreover have "\<not> (t \<noteq> [] \<and> dict_get result ''outcome'' = Some (JStr ''success'')
          \<and> config_get result ''runVars'' ''token'' = Some (JStr t))"
        using False health_token_iff [of render result "JStr t"] by auto
      ultimately show ?thesis using e run Inr by (auto simp: challenge_def Let_def)
    qed
  qed
qed

end
