(* ===== verification/Startup.thy ===== *)
theory Startup
  imports Renewal Routes
begin

text \<open>
  \<open>main.py\<close>: how the agent comes up. The application is built from the environment (\<open>create_app\<close>); the process's block
  registers before the socket is bound and decides how to listen (\<open>start_app\<close>), which is what uvicorn is configured
  with (\<open>agent_process\<close>); the application's lifespan then prepares the executor (\<open>lifespan_start\<close>) and starts
  the renewal loop. The object-store client is the argument \<open>upload_file\<close>; what FastAPI and uvicorn do with the
  application and the configuration, and logging, are left out.
\<close>

section \<open>Storage\<close>

definition create_storage ::
  "(string \<Rightarrow> string \<Rightarrow> string \<Rightarrow> (fs, unit) proc) \<Rightarrow> settings \<Rightarrow> (fs, uploader) proc" where
  "create_storage upload_file s =
     (if storage_backend s = ''s3'' then ret (s3_upload upload_file (s3_init (s3_bucket_name s) (s3_key_prefix s)))
      else andthen (fs_init (storage_dir s)) (\<lambda>_. ret (fs_upload (storage_dir s))))"

section \<open>The application\<close>

text \<open>\<open>create_app\<close>: the settings on \<open>app.state\<close>, and the three routers with their prefixes, by method and path.\<close>

datatype endpoint = Run_probe | Health | Challenge | Reach

record web_app =
  wa_title :: string
  wa_version :: string
  wa_settings :: settings
  wa_routes :: "((string \<times> string) \<times> endpoint) list"

definition probe_router :: "((string \<times> string) \<times> endpoint) list" where
  "probe_router = [((''POST'', ''/probe''), Run_probe)]"

definition health_router :: "((string \<times> string) \<times> endpoint) list" where
  "health_router = map (\<lambda>((method, path), h). ((method, ''/health'' @ path), h))
     [((''GET'', []), Health), ((''POST'', ''/challenge''), Challenge)]"

definition reach_router :: "((string \<times> string) \<times> endpoint) list" where
  "reach_router = [((''POST'', ''/reach''), Reach)]"

definition create_app :: "string \<Rightarrow> env_reader \<Rightarrow> (string \<Rightarrow> string option) \<Rightarrow> py_exn + web_app" where
  "create_app version r env =
     (case load_settings version r env of
        Inl e \<Rightarrow> Inl e
      | Inr s \<Rightarrow> Inr \<lparr>wa_title = ''Tracedown Probe Agent'', wa_version = version, wa_settings = s,
                      wa_routes = probe_router @ health_router @ reach_router\<rparr>)"

section \<open>The lifespan\<close>

type_synonym boot_state = "agent \<times> net_world"

definition on_agent :: "(agent \<Rightarrow> agent) \<Rightarrow> (boot_state, unit) proc" where
  "on_agent f st = (Inr (), (f (fst st), snd st))"

definition on_net :: "(net_world, 'a) proc \<Rightarrow> (boot_state, 'a) proc" where
  "on_net m st = (case m (snd st) of (r, w) \<Rightarrow> (r, (fst st, w)))"

definition start_pool :: "settings \<Rightarrow> (boot_state, unit) proc" where
  "start_pool s =
     (if max_concurrency s \<le> 0 then raise (ValueError ''max_workers must be greater than 0'')
      else on_agent (init_probe_pool (nat (max_concurrency s))))"

definition lifespan_start ::
  "(string \<Rightarrow> string \<Rightarrow> string \<Rightarrow> (fs, unit) proc) \<Rightarrow> gateway \<Rightarrow> 'key cert_lib \<Rightarrow> nat \<Rightarrow> settings
     \<Rightarrow> (boot_state, unit) proc" where
  "lifespan_start upload_file g k seed s =
     andthen (start_pool s) (\<lambda>_.
     andthen (on_agent metrics_install) (\<lambda>_.
     andthen (on_agent progress_install) (\<lambda>_.
     andthen (on_net (on_disk (create_storage upload_file s))) (\<lambda>st.
     andthen (on_agent (init_storage st)) (\<lambda>_.
     andthen (on_agent (init_user_agent (user_agent s))) (\<lambda>_.
     andthen (on_agent (init_egress_policy (egress_guard_enabled s))) (\<lambda>_.
       if bootstrap_token s \<noteq> [] \<and> scheduler_url s \<noteq> [] then on_net (ensure_registered g k seed s)
       else ret ())))))))"

section \<open>The process\<close>

text \<open>What \<open>app.state\<close> holds once the process listens.\<close>

record 'priv app =
  app_context :: "ssl_context option"
  app_private_key :: "'priv option"

definition register_first :: "gateway \<Rightarrow> 'key cert_lib \<Rightarrow> nat \<Rightarrow> settings \<Rightarrow> (net_world, unit) proc" where
  "register_first g k seed s w =
     (if bootstrap_token s \<noteq> [] \<and> scheduler_url s \<noteq> [] \<and> \<not> certs_exist s (nw_files w)
      then ensure_registered g k seed s w else (Inr (), w))"

definition listen ::
  "tls_lib \<Rightarrow> (string \<Rightarrow> py_exn + 'priv option) \<Rightarrow> settings \<Rightarrow> fs \<Rightarrow> py_exn + 'priv app" where
  "listen lib load_pem s fs =
     (if certs_exist s fs then
        (case build_server_context lib s fs of
           Inl e \<Rightarrow> Inl e
         | Inr ctx \<Rightarrow>
             Inr \<lparr>app_context = Some ctx,
                  app_private_key = (case load_private_key load_pem (key_path s) fs of Inl _ \<Rightarrow> None | Inr key \<Rightarrow> Some key)\<rparr>)
      else Inr \<lparr>app_context = None, app_private_key = None\<rparr>)"

definition start_app ::
  "gateway \<Rightarrow> 'key cert_lib \<Rightarrow> nat \<Rightarrow> (string \<Rightarrow> py_exn + 'priv option) \<Rightarrow> settings \<Rightarrow> (net_world, 'priv app) proc" where
  "start_app g k seed load_pem s =
     andthen (register_first g k seed s) (\<lambda>_ w. (listen (gw_lib g) load_pem s (nw_files w), w))"

text \<open>What uvicorn is told: where to listen and, through \<open>ssl_context_factory\<close>, the context of every connection.\<close>

record server_config =
  sv_host :: string
  sv_port :: int
  sv_log_level :: string
  sv_context :: "ssl_context option"

definition uvicorn_config :: "settings \<Rightarrow> 'priv app \<Rightarrow> server_config" where
  "uvicorn_config s a = \<lparr>sv_host = host s, sv_port = port s, sv_log_level = log_level s, sv_context = app_context a\<rparr>"

definition agent_process ::
  "string \<Rightarrow> env_reader \<Rightarrow> (string \<Rightarrow> string option) \<Rightarrow> gateway \<Rightarrow> 'key cert_lib \<Rightarrow> nat
     \<Rightarrow> (string \<Rightarrow> py_exn + 'priv option) \<Rightarrow> (net_world, web_app \<times> 'priv app \<times> server_config) proc" where
  "agent_process version r env g k seed load_pem =
     andthen (lift_result (create_app version r env)) (\<lambda>wa.
     andthen (start_app g k seed load_pem (wa_settings wa)) (\<lambda>a.
       ret (wa, a, uvicorn_config (wa_settings wa) a)))"

text \<open>The loop the lifespan starts, on the context the listener serves.\<close>

definition serve_cycles ::
  "gateway \<Rightarrow> 'key cert_lib \<Rightarrow> settings \<Rightarrow> 'priv app \<Rightarrow> (nat \<times> int) list \<Rightarrow> net_world \<Rightarrow> renewal_state" where
  "serve_cycles g k s a cycles w = renewal_loop g k s cycles (w, app_context a)"

definition sample_booting :: settings where
  "sample_booting = sample_settings\<lparr>bootstrap_token := ''t''\<rparr>"

definition sample_hosted :: settings where
  "sample_hosted = (default_settings ''1'')\<lparr>deployment_env := ''production'', storage_backend := ''s3''\<rparr>"

definition sample_web_app :: web_app where
  "sample_web_app = \<lparr>wa_title = ''Tracedown Probe Agent'', wa_version = ''1'', wa_settings = sample_booting,
     wa_routes = probe_router @ health_router @ reach_router\<rparr>"

text \<open>The environments these settings come from.\<close>

definition booting_env :: "string \<Rightarrow> string option" where
  "booting_env = [''PROBE_AGENT_BOOTSTRAP_TOKEN'' \<mapsto> ''t'', ''PROBE_AGENT_SCHEDULER_URL'' \<mapsto> ''http://gw'']"

definition hosted_env :: "string \<Rightarrow> string option" where
  "hosted_env = [''DEPLOYMENT_ENV'' \<mapsto> ''production'', ''PROBE_AGENT_STORAGE_BACKEND'' \<mapsto> ''s3'']"

text \<open>Boot routines that keep to the specification of the identity, composed.\<close>

definition boots :: "(string \<Rightarrow> string set) \<Rightarrow> settings \<Rightarrow> (boot_state, 'a) proc \<Rightarrow> bool" where
  "boots fp s m \<longleftrightarrow> (\<forall>st. lives fp (stored s (snd st)) (stored s (snd (snd (m st)))))"

text \<open>The identity over the agent's whole life: the process's block, the lifespan's start, any number of cycles of the loop.\<close>

definition agent_life ::
  "(string \<Rightarrow> string \<Rightarrow> string \<Rightarrow> (fs, unit) proc) \<Rightarrow> gateway \<Rightarrow> 'key cert_lib \<Rightarrow> (string \<Rightarrow> py_exn + 'priv option) \<Rightarrow> nat \<Rightarrow> nat
     \<Rightarrow> (nat \<times> int) list \<Rightarrow> agent \<Rightarrow> settings \<Rightarrow> net_world \<Rightarrow> net_world" where
  "agent_life upload_file g k load_pem seed1 seed2 cycles m s w =
     (case start_app g k seed1 load_pem s w of
        (Inl _, w1) \<Rightarrow> w1
      | (Inr a, w1) \<Rightarrow>
          (case lifespan_start upload_file g k seed2 s (m, w1) of
             (Inl _, (_, w2)) \<Rightarrow> w2
           | (Inr _, (_, w2)) \<Rightarrow> fst (serve_cycles g k s a cycles w2)))"

section \<open>Lemmas\<close>

text \<open>The agent as it is before it starts: nothing installed.\<close>

lemma on_agent_Inr: "on_agent f st = (Inr (), st') \<longleftrightarrow> st' = (f (fst st), snd st)"
  by (auto simp: on_agent_def)

lemma on_net_fst: "on_net m st = (r, st') \<Longrightarrow> fst st' = fst st"
  by (auto simp: on_net_def split: prod.splits)

lemma lifespan_agent:
  assumes "lifespan_start upload_file g k seed s (m, w) = (Inr (), (m', w'))"
  shows "\<exists>st. m' = init_egress_policy (egress_guard_enabled s) (init_user_agent (user_agent s) (init_storage st
           (progress_install (metrics_install (init_probe_pool (nat (max_concurrency s)) m)))))
     \<and> 0 < max_concurrency s"
proof -
  obtain st1 st2 st3 st4 up st5 st6 st7 where
    1: "start_pool s (m, w) = (Inr (), st1)" and 2: "on_agent metrics_install st1 = (Inr (), st2)" and
    3: "on_agent progress_install st2 = (Inr (), st3)" and
    4: "on_net (on_disk (create_storage upload_file s)) st3 = (Inr up, st4)" and
    5: "on_agent (init_storage up) st4 = (Inr (), st5)" and 6: "on_agent (init_user_agent (user_agent s)) st5 = (Inr (), st6)" and
    7: "on_agent (init_egress_policy (egress_guard_enabled s)) st6 = (Inr (), st7)" and
    8: "(if bootstrap_token s \<noteq> [] \<and> scheduler_url s \<noteq> [] then on_net (ensure_registered g k seed s) else ret ()) st7
         = (Inr (), (m', w'))"
    using assms unfolding lifespan_start_def by (auto simp: andthen_Inr split del: if_split)
  have "fst st7 = m'" using 8 on_net_fst [of _ st7 "Inr ()" "(m', w')"] by (auto simp: ret_def split: if_splits)
  moreover have "fst st4 = fst st3" using on_net_fst [OF 4] .
  moreover have "0 < max_concurrency s" "fst st1 = init_probe_pool (nat (max_concurrency s)) m"
    using 1 by (auto simp: start_pool_def raise_def on_agent_def split: if_splits)
  ultimately show ?thesis using 2 3 5 6 7 by (auto simp: on_agent_Inr)
qed

text \<open>In production every probe is guarded from the start, without any further setting: when the environment names the
  deployment production and says nothing else of the guard, the lifespan of the application built from it arms the policy
  and installs the guard.\<close>

lemma production_guards:
  assumes "create_app version r env = Inr wa" and "lifespan_start upload_file g k seed (wa_settings wa) (m, w) = (Inr (), (m', w'))"
    and "env ''DEPLOYMENT_ENV'' = Some ''production''" and "env ''PROBE_AGENT_DEPLOYMENT_ENV'' = None"
    and "env ''PROBE_AGENT_EGRESS_GUARD'' = None" and "\<not> guard_installed m"
  shows "ag_egress m'" and "GuardLayer \<in> set (connect_slot m')"
proof -
  let ?s = "wa_settings wa"
  have "load_settings version r env = Inr ?s" using assms(1) by (auto simp: create_app_def split: sum.splits)
  note fields = load_settings_fields(1,2) [OF this]
  have on: "egress_guard_enabled ?s"
    using fields assms(3,4,5)
    by (simp add: egress_guard_enabled_def armed_in_production_def deployment_setting_def typed_setting_def env_prefix_def)
  obtain st where m': "m' = init_egress_policy True (init_user_agent (user_agent ?s) (init_storage st
           (progress_install (metrics_install (init_probe_pool (nat (max_concurrency ?s)) m)))))"
    using lifespan_agent [OF assms(2)] on by auto
  then show "ag_egress m'" and "GuardLayer \<in> set (connect_slot m')"
    using assms(6)
    by (auto simp: m' init_egress_policy_def guard_install_def progress_install_def metrics_install_def
        init_user_agent_def init_storage_def init_probe_pool_def Let_def)
qed


lemma booting_paths [simp]:
  "key_path sample_booting = ''/certs/agent-key.pem''" "cert_path sample_booting = ''/certs/agent.pem''"
  "ca_cert_path sample_booting = ''/certs/ca.pem''" "ca_pins_path sample_booting = ''/certs/ca-pins.txt''"
  "slug_path sample_booting = ''/certs/agent-slug.txt''" "bootstrap_token sample_booting = ''t''"
  "scheduler_url sample_booting = ''http://gw''" "host sample_booting = ''0.0.0.0''" "port sample_booting = 8443"
  by (simp_all add: sample_booting_def sample_settings_def default_settings_def)

lemma create_booting: "create_app ''1'' sample_reader booting_env = Inr sample_web_app"
  by (simp add: create_app_def load_settings_def booting_env_def typed_setting_def str_setting_def env_prefix_def
      deployment_setting_def sample_web_app_def sample_booting_def sample_settings_def default_settings_def cong: option.case_cong)

lemma create_hosted: "\<exists>wa. create_app ''1'' sample_reader hosted_env = Inr wa \<and> wa_settings wa = sample_hosted"
  by (simp add: create_app_def load_settings_def hosted_env_def typed_setting_def str_setting_def env_prefix_def
      deployment_setting_def sample_hosted_def default_settings_def cong: option.case_cong)

lemma sample_booting_unverified: "resolve_bootstrap_verify g sample_booting w = (Inr Unverified, w)"
proof -
  have "url_split ''http://gw'' = Inr (''http'', ''gw'')" "lower ''http'' = ''http''" "\<not> is_production sample_booting"
    "insecure_skip_bootstrap_tls_verify sample_booting = False" by code_simp+
  then show ?thesis by (simp add: resolve_bootstrap_verify_def)
qed

lemma sample_fresh: "\<not> certs_exist sample_booting Map.empty" "\<not> path_exists Map.empty ''/certs/agent.pem''"
  by code_simp+

lemmas run_simps = andthen_def on_disk_def register_def send_post_def answering_def store_registration_def store_certificate_def
  store_ca_def pin_ca_def store_slug_def save_field_def write_pins_def write_text_def lift_result_def json_index_def
  as_text_def ret_def dict_get_def

lemma sample_half_enrolment:
  "\<exists>w1. ensure_registered (answering [(''certificatePem'', JStr ''cert'')]) sample_keys 7 sample_booting sample_net
       = (Inl (KeyError ''caRootPem''), w1)
     \<and> nw_files w1 = [''/certs'' \<mapsto> Directory, ''/certs/agent-key.pem'' \<mapsto> File (private_key_pem sample_keys 7),
         ''/certs/agent.pem'' \<mapsto> File (utf8 ''cert'')]"
proof -
  have "generate_keypair sample_keys 7 = 7" by (simp add: generate_keypair_def sample_keys_def)
  then show ?thesis
    using sample_fresh(2)
    by (simp add: ensure_registered_def Let_def sample_net_def first_mkdir default_paths sample_booting_unverified run_simps)
qed



lemma hosted_start:
  "\<exists>wa m' w'. create_app ''1'' sample_reader hosted_env = Inr wa
     \<and> lifespan_start (\<lambda>_ _ _. ret ()) sample_gateway sample_keys 7 (wa_settings wa) (sample_agent, sample_net) = (Inr (), (m', w'))
     \<and> connect_slot m' = [GuardLayer, ProgressLayer] \<and> getaddrinfo_slot m' = [GuardLayer, ProgressLayer]"
proof -
  have s: "max_concurrency sample_hosted = 256" "storage_backend sample_hosted = ''s3''" "bootstrap_token sample_hosted = []"
    "egress_guard sample_hosted = None" "deployment_env sample_hosted = ''production''"
    by (simp_all add: sample_hosted_def default_settings_def)
  have "egress_guard_enabled sample_hosted" using s by (simp add: egress_guard_enabled_def armed_in_production_def)
  then have "\<exists>m' w'. lifespan_start (\<lambda>_ _ _. ret ()) sample_gateway sample_keys 7 sample_hosted (sample_agent, sample_net) = (Inr (), (m', w'))
      \<and> connect_slot m' = [GuardLayer, ProgressLayer] \<and> getaddrinfo_slot m' = [GuardLayer, ProgressLayer]"
    using s
    by (simp add: lifespan_start_def andthen_def start_pool_def on_agent_def on_net_def on_disk_def create_storage_def ret_def
        init_egress_policy_def guard_install_def progress_install_def metrics_install_def init_user_agent_def
        init_storage_def init_probe_pool_def sample_agent_def Let_def)
  with create_hosted show ?thesis by metis
qed

text \<open>The two readings of the deployment's name differ: what enrolment treats as production, the egress guard does not.\<close>

theorem production_spelling_gap:
  "\<exists>s. is_production s \<and> egress_guard s = None \<and> \<not> egress_guard_enabled s"
proof -
  let ?s = "(default_settings ''1'')\<lparr>deployment_env := ''Production''\<rparr>"
  have "is_production ?s" "egress_guard ?s = None" "\<not> egress_guard_enabled ?s" by code_simp+
  then show ?thesis by blast
qed

lemma mkdir_all_disk: "mkdir_all q fs = (r, fs') \<Longrightarrow> file_at p fs' = file_at p fs"
  using make_dirs_files [of _ fs r fs' "path_text p"] make_dirs_new [of _ fs r fs' "path_text p"]
  by (cases "fs' (path_text p) = fs (path_text p)") (force simp: mkdir_all_def file_at_def)+

lemma stored_storage: "stored s' (snd (on_disk (create_storage upload_file s) w)) = stored s' w"
  by (rule ext) (auto simp: create_storage_def fs_init_def andthen_def ret_def stored_def disk_def on_disk_def
      dest: mkdir_all_disk split: prod.splits sum.splits)

lemma boots_andthen: "boots fp s m \<Longrightarrow> (\<And>a. boots fp s (f a)) \<Longrightarrow> boots fp s (andthen m f)"
  unfolding boots_def
proof
  fix st
  assume a: "\<forall>st. lives fp (stored s (snd st)) (stored s (snd (snd (m st))))"
    and b: "\<And>a. \<forall>st. lives fp (stored s (snd st)) (stored s (snd (snd (f a st))))"
  obtain r st1 where m: "m st = (r, st1)" by (cases "m st") blast
  have 1: "lives fp (stored s (snd st)) (stored s (snd st1))" using a [rule_format, of st] m by simp
  have 2: "lives fp (stored s (snd st1)) (stored s (snd (snd (f a st1))))" for a using b by blast
  show "lives fp (stored s (snd st)) (stored s (snd (snd (andthen m f st))))"
    using 1 lives_trans [OF 1 2] m by (cases r) (simp_all add: andthen_def)
qed

lemma boots_agent [simp]: "boots fp s (on_agent f)"
  by (simp add: boots_def on_agent_def lives_def)

lemma boots_simple [simp]: "boots fp s (ret a)" "boots fp s (raise e)"
  by (simp_all add: boots_def ret_def raise_def lives_def)

lemma boots_net: "(\<And>w. lives fp (stored s w) (stored s (snd (m w)))) \<Longrightarrow> boots fp s (on_net m)"
  by (auto simp: boots_def on_net_def split: prod.splits) (metis snd_conv)

lemma lifespan_boots:
  assumes "renewal_paths_distinct s"
  shows "boots (ca_fingerprints (lib_certs k)) s (lifespan_start upload_file g k seed s)"
  unfolding lifespan_start_def start_pool_def
  using enrolment_keeps.follows [OF renewal_slots(1) [OF assms]] stored_storage [of s]
  by (auto simp: lives_def intro!: boots_andthen boots_net)

lemma start_lives:
  assumes "renewal_paths_distinct s"
  shows "lives (ca_fingerprints (lib_certs k)) (stored s w) (stored s (snd (start_app g k seed load_pem s w)))"
  using enrolment_keeps.follows [OF renewal_slots(1) [OF assms], of k w g seed]
  by (auto simp: start_app_def register_first_def andthen_def lives_def split: prod.splits sum.splits)

lemma life_lives:
  assumes "renewal_paths_distinct s"
  shows "lives (ca_fingerprints (lib_certs k)) (stored s w) (stored s (agent_life upload_file g k load_pem seed1 seed2 cycles m s w))"
proof -
  let ?fp = "ca_fingerprints (lib_certs k)"
  obtain r1 w1 where 1: "start_app g k seed1 load_pem s w = (r1, w1)" by force
  obtain r2 m2 w2 where 2: "lifespan_start upload_file g k seed2 s (m, w1) = (r2, (m2, w2))" by (metis prod.collapse)
  have "lives ?fp (stored s w) (stored s w1)" using start_lives [OF assms, of k w g seed1 load_pem] 1 by simp
  moreover have "lives ?fp (stored s w1) (stored s w2)"
    using lifespan_boots [OF assms, of k upload_file g seed2] 2 unfolding boots_def by (metis snd_conv)
  ultimately have 3: "lives ?fp (stored s w) (stored s w2)" by (rule lives_trans)
  show ?thesis
  proof (cases r1)
    case (Inl e)
    with 1 \<open>lives ?fp (stored s w) (stored s w1)\<close> show ?thesis by (simp add: agent_life_def)
  next
    case (Inr a)
    have "lives ?fp (stored s w2) (stored s (fst (serve_cycles g k s a cycles w2)))"
      unfolding serve_cycles_def by (rule renewal_keeps.follows [OF assms])
    with 3 have "lives ?fp (stored s w) (stored s (fst (serve_cycles g k s a cycles w2)))" by (rule lives_trans)
    with 1 2 3 Inr show ?thesis by (cases r2) (simp_all add: agent_life_def)
  qed
qed

interpretation life_keeps: identity_keeper "ca_fingerprints (lib_certs k)" renewal_paths_distinct
  "agent_life upload_file g k load_pem seed1 seed2 cycles m" for upload_file g k load_pem seed1 seed2 cycles m
  by unfold_locales (rule life_lives)

text \<open>C6: Everything that ever happens to the agent's identity is the specification's: over its whole life, boot, lifespan and any
  number of renewal cycles against any gateway, each with any outcome, the files on disk move only by prefixes
  of the two plans: an enrolment when key or certificate is missing, a rotation signed by the key on disk whose
  CA, if it brings one, the declared pins vouch for. In particular no file of the identity ever disappears.\<close>

theorem identity_refines_specification:
  assumes "renewal_paths_distinct s"
  shows "lives (ca_fingerprints (lib_certs k)) (stored s w) (stored s (agent_life upload_file g k load_pem seed1 seed2 cycles m s w))
     \<and> (\<forall>x. disk (slot_path s x) w \<noteq> None \<longrightarrow>
            disk (slot_path s x) (agent_life upload_file g k load_pem seed1 seed2 cycles m s w) \<noteq> None)"
  by (intro conjI allI impI life_keeps.follows life_keeps.nothing_deleted assms)

theorem identity_refines_specification_witness:
  "\<exists>w'. w' = agent_life (\<lambda>_ _ _. ret ()) (answering [(''certificatePem'', JStr ''new''), (''caRootPem'', JStr ''ca'')])
        sample_cas (\<lambda>_. Inr (Some ())) 7 8 [(9, 0), (10, 5)] sample_agent sample_booting sample_enrolled
     \<and> lives (ca_fingerprints (lib_certs sample_cas)) (stored sample_booting sample_enrolled) (stored sample_booting w')
     \<and> disk ''/certs/agent-key.pem'' w' \<noteq> None \<and> disk ''/certs/ca-pins.txt'' w' \<noteq> None"
proof -
  have d: "renewal_paths_distinct sample_booting" by code_simp
  have "path_text ''/certs/agent-key.pem'' = ''/certs/agent-key.pem''" "path_text ''/certs/ca-pins.txt'' = ''/certs/ca-pins.txt''"
    by code_simp+
  then have "disk (slot_path sample_booting Key) sample_enrolled \<noteq> None" "disk (slot_path sample_booting Pins) sample_enrolled \<noteq> None"
    by (simp_all add: disk_def file_at_def sample_enrolled_def)
  then show ?thesis
    using identity_refines_specification [OF d, of sample_cas sample_enrolled "\<lambda>_ _ _. ret ()"
        "answering [(''certificatePem'', JStr ''new''), (''caRootPem'', JStr ''ca'')]" "\<lambda>_. Inr (Some ())" 7 8 "[(9, 0), (10, 5)]" sample_agent]
    by (metis booting_paths(1,4) slot_path.simps(1,4))
qed

end
