(* ===== verification/Lifespan.thy ===== *)
theory Lifespan
  imports Startup
begin

text \<open>
  \<open>main.py\<close>: the application while it serves, and how it stops. The renewal loop is a task of the lifespan; it changes the
  files and, through the context it was handed, the listener, but nothing else of \<open>app.state\<close>. Stopping cancels
  the task at the await it is suspended in: between two cycles, or in a request to the gateway. A cancelled request
  ends the cycle as a failed one does; the \<open>CancelledError\<close> differs from the failures only in that it leaves the loop,
  and \<open>lifespan\<close> swallows it.
\<close>

section \<open>Serving\<close>

text \<open>The application after a cycle that left \<open>st\<close>.\<close>

definition served_app :: "'priv app \<Rightarrow> renewal_state \<Rightarrow> 'priv app" where
  "served_app a st = a\<lparr>app_context := snd st\<rparr>"

section \<open>Stopping\<close>

datatype suspended = Asleep | In_request nat nat int

text \<open>
  The gateway as a cycle sees it whose requests are cancelled from the \<open>n\<close>th of all requests on.
\<close>

definition cancelling :: "nat \<Rightarrow> gateway \<Rightarrow> gateway" where
  "cancelling n g = g\<lparr>gw_answer := \<lambda>p w.
     if length (nw_posts w) < n then gw_answer g p w else Inl (Failure (RuntimeError ''cancelled''))\<rparr>"

text \<open>\<open>renewal_task.cancel()\<close> after \<open>cycles\<close>, and awaiting it: asleep nothing happens, in a request that cycle ends there.\<close>

fun lifespan_stop :: "gateway \<Rightarrow> 'key cert_lib \<Rightarrow> settings \<Rightarrow> suspended \<Rightarrow> renewal_state \<Rightarrow> renewal_state" where
  "lifespan_stop g k s Asleep st = st"
| "lifespan_stop g k s (In_request n seed now) st = snd (renew_if_needed (cancelling n g) k s seed now st)"

definition lifespan ::
  "gateway \<Rightarrow> 'key cert_lib \<Rightarrow> settings \<Rightarrow> 'priv app \<Rightarrow> (nat \<times> int) list \<Rightarrow> suspended \<Rightarrow> net_world \<Rightarrow> renewal_state" where
  "lifespan g k s a cycles halt w = lifespan_stop g k s halt (serve_cycles g k s a cycles w)"

text \<open>Opening fails under a key other than the one something was sealed to, as OAEP documents.\<close>

definition foreign_key :: "('priv, 'pub) crypto \<Rightarrow> 'priv \<Rightarrow> 'pub \<Rightarrow> bool" where
  "foreign_key c priv pub \<longleftrightarrow> (\<forall>t. isl (oaep_decrypt c priv (oaep_encrypt c pub t)))"

definition sample_app :: "nat app" where
  "sample_app = \<lparr>app_context = Some server_context, app_private_key = Some 7\<rparr>"

section \<open>Lemmas\<close>

lemma foreign_sealed:
  assumes "cert_key c cert = Inr (Some pub)" and "foreign_key c priv pub" and "seal_envelope c ck iv payload cert = Inr request"
  shows "is_envelope (JObj request) = Inr True" and "open_envelope c priv request = Inl (EnvelopeError ''could not open envelope'')"
proof -
  have r: "request = [(''v'', JInt 1), (''alg'', JStr alg), (''ek'', JStr (b64encode (oaep_encrypt c pub ck))),
      (''iv'', JStr (b64encode iv)), (''ct'', JStr (b64encode (gcm_encrypt c ck iv (json_dumps c payload))))]"
    using assms(1,3) by (simp add: seal_envelope_def Let_def)
  then show "is_envelope (JObj request) = Inr True" by (simp add: is_envelope_def dict_get_def)
  obtain e where "oaep_decrypt c priv (oaep_encrypt c pub ck) = Inl e"
    using assms(2) by (metis foreign_key_def isl_def)
  then show "open_envelope c priv request = Inl (EnvelopeError ''could not open envelope'')"
    by (simp add: r open_envelope_def is_version_1_def decrypt_body_def b64_field_def dict_get_def b64_roundtrip)
qed

lemma cancelling_simps [simp]:
  "gw_lib (cancelling n g) = gw_lib g" "gw_fqdn (cancelling n g) = gw_fqdn g" "gw_present (cancelling n g) = gw_present g"
  by (simp_all add: cancelling_def)

lemma cancelling_answer: "gw_answer (cancelling n g) p w = Inr data \<Longrightarrow> gw_answer g p w = Inr data"
  "gw_answer (cancelling n g) p w = Inl (Connect_failure m h i) \<Longrightarrow> gw_answer g p w = Inl (Connect_failure m h i)"
  by (auto simp: cancelling_def split: if_splits)

lemma cancelling_front: "gateway_trust_context (cancelling n g) s = gateway_trust_context g s"
proof -
  have f: "fetch_peer_certificate (cancelling n g) = fetch_peer_certificate g"
    unfolding fetch_peer_certificate_def [abs_def] cancelling_simps ..
  show ?thesis unfolding gateway_trust_context_def [abs_def] cancelling_simps f ..
qed

lemma cancelling_plain: "plain_post (cancelling n g) p w = (Inr data, w1) \<Longrightarrow> plain_post g p w = (Inr data, w1)"
  by (auto simp: plain_post_def send_post_def dest: cancelling_answer split: sum.splits)

lemma cancelling_then:
  assumes "andthen m (\<lambda>front. plain_post (cancelling n g) (p front)) w = (Inr data, w1)"
  shows "andthen m (\<lambda>front. plain_post g (p front)) w = (Inr data, w1)"
  using assms unfolding andthen_Inr using cancelling_plain by blast

text \<open>A request that was answered was answered by the gateway itself.\<close>

lemma cancelling_post:
  assumes "post_renewal (cancelling n g) s payload w = (Inr data, w1)"
  shows "post_renewal g s payload w = (Inr data, w1)"
proof -
  have v: "renewal_verify (cancelling n g) s (nw_files w) = renewal_verify g s (nw_files w)"
    by (simp add: renewal_verify_def)
  obtain verify where verify: "renewal_verify g s (nw_files w) = Inr verify"
    using assms v by (cases "renewal_verify g s (nw_files w)") (simp_all add: post_renewal_def)
  show ?thesis
  proof (cases verify)
    case Unverified
    with assms v verify have "plain_post (cancelling n g) (renewal_post s payload Unverified) w = (Inr data, w1)"
      by (simp add: post_renewal_def)
    from cancelling_plain [OF this] verify Unverified show ?thesis by (simp add: post_renewal_def)
  next
    case (Verified_by ctx)
    let ?p = "renewal_post s payload (Verified_by ctx)"
    show ?thesis
    proof (cases "gw_answer (cancelling n g) ?p w")
      case (Inr d)
      with assms v verify Verified_by cancelling_answer(1) [OF Inr] show ?thesis
        by (simp add: post_renewal_def send_post_def)
    next
      case (Inl f)
      then obtain m h i where f: "f = Connect_failure m h i"
        using assms v verify Verified_by by (cases f) (simp_all add: post_renewal_def send_post_def)
      with Inl assms v verify Verified_by have "is_certificate_rejection h i"
        "andthen (gateway_trust_context g s) (\<lambda>front. plain_post (cancelling n g) (renewal_post s payload (Verified_by front)))
          (w\<lparr>nw_posts := nw_posts w @ [?p]\<rparr>) = (Inr data, w1)"
        by (auto simp: post_renewal_def send_post_def cancelling_front split: if_splits)
      with cancelling_then [OF this(2)] Inl f verify Verified_by cancelling_answer(2) [of n g ?p w m h i] show ?thesis
        by (simp add: post_renewal_def send_post_def)
    qed
  qed
qed

lemma cancelling_rotate:
  "rotate (cancelling n g) k nk s sl w = rotate g k nk s sl w
   \<or> (\<exists>e w'. rotate (cancelling n g) k nk s sl w = (Inl e, w') \<and> nw_files w' = nw_files w)"
proof -
  obtain r w' where rot: "rotate (cancelling n g) k nk s sl w = (r, w')" by force
  then show ?thesis
  proof (cases rule: rotate_cases)
    case (unchanged e)
    with rot show ?thesis by blast
  next
    case (installed data ca pinned w1 p w0)
    then obtain payload where p: "renewal_request k nk s sl w = (Inr payload, w)"
      "post_renewal (cancelling n g) s payload w = (Inr data, w1)" by blast
    have "rotate g k nk s sl w = (r, w')"
      using p(1) cancelling_post [OF p(2)] installed(1,3-6)
      by (auto simp: rotate_def andthen_def lift_result_def)
    with rot show ?thesis by simp
  qed
qed

lemma cancelling_cycle:
  "snd (renew_if_needed (cancelling n g) k s seed now st) = snd (renew_if_needed g k s seed now st)
   \<or> nw_files (fst (snd (renew_if_needed (cancelling n g) k s seed now st))) = nw_files (fst st)
     \<and> snd (snd (renew_if_needed (cancelling n g) k s seed now st)) = snd st"
proof -
  have "snd (renew (cancelling n g) k seed s sl st) = snd (renew g k seed s sl st)
    \<or> nw_files (fst (snd (renew (cancelling n g) k seed s sl st))) = nw_files (fst st)
      \<and> snd (snd (renew (cancelling n g) k seed s sl st)) = snd st" for sl
  proof -
    obtain w listener where st: "st = (w, listener)" by force
    obtain r w' where rot: "rotate g k (generate_keypair k seed) s sl w = (r, w')" by force
    from cancelling_rotate [of n g k "generate_keypair k seed" s sl w] show ?thesis
      unfolding st renew_def by (auto simp: rot split: sum.splits)
  qed
  then show ?thesis
    by (auto simp: renew_if_needed_def Let_def split: option.splits sum.splits)
qed

lemma sample_certificate:
  assumes "renew (answering [(''certificatePem'', JStr t)]) sample_cas 8 sample_settings ''a1'' (sample_enrolled, l) = (Inr (), st)"
  shows "disk (cert_path sample_settings) (fst st) = Some (utf8 t)"
proof -
  obtain payload where e: "rotate (answering [(''certificatePem'', JStr t)]) sample_cas (generate_keypair sample_cas 8) sample_settings ''a1'' sample_enrolled
     = install_renewed sample_cas (generate_keypair sample_cas 8) sample_settings (JObj [(''certificatePem'', JStr t)]) JNull
         (sample_enrolled\<lparr>nw_posts := [renewal_post sample_settings payload Unverified]\<rparr>)"
    using sample_rotate by blast
  have "install_renewed sample_cas (generate_keypair sample_cas 8) sample_settings (JObj [(''certificatePem'', JStr t)]) JNull
         (sample_enrolled\<lparr>nw_posts := [renewal_post sample_settings payload Unverified]\<rparr>) = (Inr (), fst st)"
    using assms e by (auto simp: renew_def split: prod.splits sum.splits)
  from install_renewed_identity [OF this sample_distinct] show ?thesis by (simp add: json_index_def dict_get_def)
qed

section \<open>Properties\<close>

text \<open>A restarted process holds the key the renewal put on disk.\<close>

lemma restarted_key:
  assumes "listen lib load_pem s (nw_files w) = Inr a" and "app_context a \<noteq> None"
    and "disk (key_path s) w = Some pem" and "load_pem pem = Inr (Some priv)"
  shows "app_private_key a = Some priv"
  using assms disk_read [OF assms(3)]
  by (auto simp: listen_def load_private_key_def split: if_splits sum.splits)

text \<open>C24: A renewal cuts the agent off from sealed dispatches until the process is restarted: the private key that opens them
  is loaded once at start, and a renewal replaces the key. After any completed renewal the listener presents the new
  certificate, the health endpoint still offers payload encryption, and every dispatch sealed to that certificate is
  refused as undecryptable; a process started again on the same files, if it serves TLS, opens the same dispatch.\<close>

theorem renewed_agent_cannot_open_dispatches:
  assumes "renew g k seed s sl (w, app_context a) = (Inr (), st)" and "renewal_paths_distinct s"
    and "disk (cert_path s) (fst st) = Some (utf8 cert)" and "cert_key c cert = Inr (Some pub)"
    and "app_private_key a = Some priv" and "foreign_key c priv pub"
    and "chain_ok (gw_lib g) (utf8 cert) (private_key_pem k (generate_keypair k seed))"
    and "seal_envelope c ck iv (JObj job) cert = Inr request"
    and "load_pem (private_key_pem k (generate_keypair k seed)) = Inr (Some priv')" and "matching_keys c priv' pub"
    and "json_text c (JObj job)"
  shows "map_option cx_identity (app_context (served_app a st))
       = map_option (\<lambda>_. Some (utf8 cert, private_key_pem k (generate_keypair k seed))) (app_context a)
     \<and> hr_payload_encryption (health version executor_version (app_private_key (served_app a st)))
     \<and> run_probe c (app_private_key (served_app a st)) ck' iv' parse_job execute (JObj request) x
       = (Inr (error_response ''payload_undecryptable''), x)
     \<and> (case listen (gw_lib g) load_pem s (nw_files (fst st)) of
          Inr a' \<Rightarrow> app_context a' = None \<or>
            (\<exists>key. app_private_key a' = Some key \<and> open_body c key (JObj request) = Inr (JObj job))
        | Inl _ \<Rightarrow> True)"
proof -
  obtain w' listener' where st: "st = (w', listener')" by force
  obtain cert' where new: "disk (cert_path s) w' = Some (utf8 cert')" "disk (key_path s) w' = Some (private_key_pem k (generate_keypair k seed))"
    "chain_ok (gw_lib g) (utf8 cert') (private_key_pem k (generate_keypair k seed)) \<longrightarrow>
       map_option cx_identity listener' = map_option (\<lambda>_. Some (utf8 cert', private_key_pem k (generate_keypair k seed))) (app_context a)"
    using renew_effect [OF assms(1) [unfolded st] assms(2)] by blast
  have "open_body c priv (JObj request) = Inl (EnvelopeError ''could not open envelope'')"
    using foreign_sealed(2) [OF assms(4,6,8)] by (simp add: open_body_def)
  moreover have "app_private_key a' = Some priv' \<and> open_body c priv' (JObj request) = Inr (JObj job)"
    if "listen (gw_lib g) load_pem s (nw_files (fst st)) = Inr a'" "app_context a' \<noteq> None" for a'
    using restarted_key [OF that, of "private_key_pem k (generate_keypair k seed)" priv'] new(2) st assms(9)
      open_sealed [OF assms(10,4,11,8)] by (simp add: open_body_def)
  ultimately show ?thesis
    using assms(3,5,7) new foreign_sealed(1) [OF assms(4,6,8)] st
    by (auto simp: served_app_def health_def can_open_sealed_def run_probe_def split: sum.split)
qed

theorem renewed_agent_cannot_open_dispatches_witness:
  "\<exists>st request. renew (answering [(''certificatePem'', JStr ''key 8'')]) sample_cas 8 sample_settings ''a1''
        (sample_enrolled, app_context sample_app) = (Inr (), st)
     \<and> seal_envelope sample_crypto ''k0'' ''i0'' (JObj sample_job) ''key 8'' = Inr request
     \<and> run_probe sample_crypto (app_private_key (served_app sample_app st)) ''k1'' ''i1'' sample_parse sample_execute (JObj request) 0
       = (Inr (error_response ''payload_undecryptable''), 0)"
proof -
  let ?g = "answering [(''certificatePem'', JStr ''key 8'')]"
  obtain st where st: "renew ?g sample_cas 8 sample_settings ''a1'' (sample_enrolled, app_context sample_app) = (Inr (), st)"
    using sample_renew by blast
  have pem: "private_key_pem sample_cas (generate_keypair sample_cas 8) = ''key 8''" "utf8 ''key 8'' = ''key 8''" by code_simp+
  have d: "disk (cert_path sample_settings) (fst st) = Some (utf8 ''key 8'')"
    using sample_certificate [OF st] by simp
  have lib: "gw_lib ?g = sample_lib" by (simp add: answering_def sample_gateway_def)
  have ok: "chain_ok (gw_lib ?g) (utf8 ''key 8'') (private_key_pem sample_cas (generate_keypair sample_cas 8))"
    by (simp add: lib sample_lib_def pem)
  have k: "cert_key sample_crypto ''key 8'' = Inr (Some 5)" by code_simp
  have f: "foreign_key sample_crypto 7 5" by (simp add: foreign_key_def sample_crypto_def)
  have p: "app_private_key sample_app = Some 7" by (simp add: sample_app_def)
  obtain request where r: "seal_envelope sample_crypto ''k0'' ''i0'' (JObj sample_job) ''key 8'' = Inr request"
    by (simp add: seal_envelope_def sample_crypto_def Let_def)
  have q: "(\<lambda>_. Inr (Some 5)) (private_key_pem sample_cas (generate_keypair sample_cas 8)) = Inr (Some 5)"
    "matching_keys sample_crypto 5 5" "json_text sample_crypto (JObj sample_job)"
    by (simp_all add: sample_keys_match) code_simp
  have "run_probe sample_crypto (app_private_key (served_app sample_app st)) ''k1'' ''i1'' sample_parse sample_execute (JObj request) (0::nat)
       = (Inr (error_response ''payload_undecryptable''), 0)"
    by (rule renewed_agent_cannot_open_dispatches [OF st sample_distinct d k p f ok r q, THEN conjunct2, THEN conjunct2, THEN conjunct1])
  with st r show ?thesis by blast
qed

text \<open>C25: Stopping never leaves half a renewal: wherever the cancellation finds the renewal task, the files and the listener are
  either as the completed cycles left them, or as the whole of one further cycle leaves them; an installation
  once begun is not interrupted.\<close>

theorem stopping_never_splits_a_renewal:
  "nw_files (fst (lifespan g k s a cycles halt w)) = nw_files (fst (serve_cycles g k s a cycles w))
       \<and> snd (lifespan g k s a cycles halt w) = snd (serve_cycles g k s a cycles w)
     \<or> (\<exists>n seed now. halt = In_request n seed now
          \<and> lifespan g k s a cycles halt w = serve_cycles g k s a (cycles @ [(seed, now)]) w)"
proof (cases halt)
  case (In_request n seed now)
  have "renewal_loop g k s (cycles @ [c]) st = renewal_loop g k s [c] (renewal_loop g k s cycles st)" for c st
  proof (induction cycles arbitrary: st)
    case (Cons c' cycles)
    then show ?case by (cases c') simp
  qed simp
  then have "serve_cycles g k s a (cycles @ [(seed, now)]) w = snd (renew_if_needed g k s seed now (serve_cycles g k s a cycles w))"
    by (simp add: serve_cycles_def)
  with cancelling_cycle [of n g k s seed now "serve_cycles g k s a cycles w"] In_request show ?thesis
    by (auto simp: lifespan_def)
qed (simp add: lifespan_def)

end
