(* ===== verification/Well_Formed.thy ===== *)
theory Well_Formed
  imports Executor_Run
begin

text \<open>
  The typing of the world a run lives in. The heaps of \<open>run_progress\<close> are addressed by number, so the model owes
  what Python's references give for free: no reference dangles. Beside that stands what the
  annotations of \<open>RunProgress\<close> and \<open>HttpRequest\<close> leave unsaid and the readers rely on: counts are never negative,
  no phase and no request begins in the future, and every timeout entry carries the verdict its own
  phase and connection state call for. \<open>typed\<close> is this typing; every step of every run keeps it, by one more
  interpretation of \<open>activity_relation\<close>, and so does a whole run of the executor.
\<close>

section \<open>The typing\<close>

definition request_typed :: "'a probe_world_scheme \<Rightarrow> nat \<Rightarrow> bool" where
  "request_typed s r \<longleftrightarrow> rq_started (requests s r) \<le> mono s \<and> 0 \<le> rq_bytes_received (requests s r)"

definition entry_typed :: "timeout_entry \<Rightarrow> bool" where
  "entry_typed e \<longleftrightarrow> judge (to_phase e) (to_tcp e) = (to_verdict e, to_reason e)"

definition record_typed :: "'a probe_world_scheme \<Rightarrow> run_progress \<Rightarrow> bool" where
  "record_typed s rp \<longleftrightarrow>
     rp_phase_since rp \<le> mono s \<and> 0 \<le> rp_requests_completed rp \<and> 0 \<le> rp_ingress rp \<and> 0 \<le> rp_egress rp
     \<and> (\<forall>r. rp_request rp = Some r \<longrightarrow> r < next_request s) \<and> list_all entry_typed (rp_timeouts rp)"

definition points_into :: "nat option \<Rightarrow> nat \<Rightarrow> bool" where
  "points_into ref n \<longleftrightarrow> (\<forall>p. ref = Some p \<longrightarrow> p < n)"

definition typed :: "'a probe_world_scheme \<Rightarrow> bool" where
  "typed s \<longleftrightarrow>
     points_into (current s) (next_record s) \<and> points_into (assigned_rec s) (next_record s)
     \<and> (\<forall>p < next_record s. record_typed s (records s p)) \<and> (\<forall>r < next_request s. request_typed s r)"

text \<open>What a run keeps: the typing, and everything allocated stays so.\<close>

definition keeps_typing :: "wire_world \<Rightarrow> wire_world \<Rightarrow> bool" where
  "keeps_typing s t \<longleftrightarrow>
     current t = current s \<and> assigned_rec t = assigned_rec s \<and> next_record t = next_record s
     \<and> next_request s \<le> next_request t \<and> mono s \<le> mono t \<and> (typed s \<longrightarrow> typed t)"

text \<open>What the budget's thread reads off a record.\<close>

definition stall_typed :: "stall \<Rightarrow> bool" where
  "stall_typed st \<longleftrightarrow>
     0 \<le> st_phase_ms st \<and> 0 \<le> st_requests_completed st
     \<and> (\<forall>q. st_request st = Some q \<longrightarrow>
          0 \<le> sr_elapsed_ms q \<and> 0 \<le> sr_bytes_received q \<and> judge (st_phase st) (sr_tcp q) = (st_verdict st, st_reason st))"

text \<open>All that is asked of the Lace executor: its HTTP goes through the hooks.\<close>

definition lace_keeps_to_hooks :: "layer list \<Rightarrow> layer list \<Rightarrow> lace \<Rightarrow> bool" where
  "lace_keeps_to_hooks gs cs lx \<longleftrightarrow>
     (\<forall>es cfg script vars prev. executor_body gs cs (lx_run lx es cfg script vars prev))"

definition sample_lace :: lace where
  "sample_lace =
     \<lparr>lx_config = (\<lambda>_. []),
      lx_run = (\<lambda>_ _ _ _ _. andthen (sample_body [GuardLayer] [GuardLayer, ProgressLayer])
                             (\<lambda>_. ret [(''outcome'', JStr ''success'')]))\<rparr>"

definition sample_payload :: job_payload where
  "sample_payload = \<lparr>jp_script = [], jp_variables = [], jp_prev = None, jp_allow_body_save = False,
     jp_secret_values = [], jp_request_timeout_ms = None\<rparr>"

section \<open>Lemmas\<close>

lemmas typing_defs = typed_def points_into_def record_typed_def request_typed_def

lemma typedD:
  assumes "typed s"
  shows "p < next_record s \<Longrightarrow> record_typed s (records s p)" and "r < next_request s \<Longrightarrow> request_typed s r"
    and "current s = Some p \<Longrightarrow> p < next_record s"
    and "current s = Some p \<Longrightarrow> rp_request (records s p) = Some r \<Longrightarrow> r < next_request s"
  using assms by (auto simp: typing_defs)

lemma typed_upd_record:
  assumes "typed s" and "p < next_record s \<Longrightarrow> record_typed s (f (records s p))"
  shows "typed (upd_record p f s)"
  using assms by (auto simp: typing_defs upd_record_def)

lemma typed_upd_request:
  assumes "typed s" and "r < next_request s \<Longrightarrow> rq_started (f (requests s r)) \<le> mono s \<and> 0 \<le> rq_bytes_received (f (requests s r))"
  shows "typed (upd_request r f s)"
  using assms by (auto simp: typing_defs upd_request_def)

lemma typed_enter: "typed s \<Longrightarrow> typed (enter ph p s)"
  using typedD(1) [of s p] by (auto simp: enter_def record_typed_def intro!: typed_upd_record)

lemma typed_annotate: "typed s \<Longrightarrow> annotates f \<Longrightarrow> typed (upd_request r f s)"
  using typedD(2) [of s r] by (auto simp: annotates_def request_typed_def intro!: typed_upd_request)

lemma typed_begin: "typed s \<Longrightarrow> typed (begin_request p c verb url s)"
  unfolding begin_request_def
  by (rule typed_upd_record) (auto simp: typing_defs request_of_def less_Suc_eq)

lemma typed_on_timeout:
  assumes "typed s"
  shows "typed (on_timeout s)"
proof (cases "\<exists>p r. current s = Some p \<and> rp_request (records s p) = Some r \<and> \<not> rq_timed_out (requests s r)")
  case False
  with assms show ?thesis by (auto simp: on_timeout_def split: option.splits)
next
  case True
  then obtain p r where pr: "current s = Some p" "rp_request (records s p) = Some r" "\<not> rq_timed_out (requests s r)"
    by blast
  let ?s1 = "upd_request r (\<lambda>q. q\<lparr>rq_timed_out := True\<rparr>) s"
  let ?tcp = "read_fd ?s1 (rq_fd (requests ?s1 r))"
  obtain v reason where j: "judge (rp_phase (records ?s1 p)) ?tcp = (v, reason)" by fastforce
  have 1: "typed ?s1"
    using assms typedD(2) [of s r] by (intro typed_upd_request) (auto simp: request_typed_def)
  have "record_typed ?s1 (records ?s1 p)" if "p < next_record ?s1" by (rule typedD(1) [OF 1 that])
  with 1 j have "typed (upd_record p (\<lambda>rp. rp\<lparr>rp_timeouts := rp_timeouts rp @
      [\<lparr>to_at = wall ?s1, to_phase = rp_phase rp, to_verdict = v, to_reason = reason,
        to_method = rq_method (requests ?s1 r), to_url = rq_url (requests ?s1 r),
        to_target = target_of (requests ?s1 r), to_tcp = ?tcp\<rparr>]\<rparr>) ?s1)"
    by (intro typed_upd_record) (simp_all add: record_typed_def entry_typed_def)
  with pr j show ?thesis by (simp add: on_timeout_def Let_def)
qed

lemma typed_on_sent: "typed s \<Longrightarrow> 0 \<le> n \<Longrightarrow> typed (on_sent n s)"
  by (auto simp: on_sent_def Let_def record_typed_def dest: typedD split: option.splits intro!: typed_enter typed_upd_record)

lemma typed_on_received: "typed s \<Longrightarrow> 0 \<le> n \<Longrightarrow> typed (on_received n s)"
  by (auto simp: on_received_def Let_def split: option.splits
      intro!: typed_enter typed_upd_record typed_upd_request dest: typedD)
     (auto simp: typing_defs upd_record_def)

lemma typed_elsewhere [simp]:
  fixes s :: wire_world
  shows "typed (s\<lparr>cnt_ingress := n\<rparr>) = typed s" "typed (s\<lparr>cnt_egress := n\<rparr>) = typed s" "typed (s\<lparr>cnt_active := a\<rparr>) = typed s"
    "typed (s\<lparr>guard_on := a\<rparr>) = typed s" "typed (s\<lparr>files := f\<rparr>) = typed s" "typed (s\<lparr>dialled := l\<rparr>) = typed s"
  by (simp_all add: typing_defs)

lemma typed_count_in: "typed s \<Longrightarrow> 0 < n \<Longrightarrow> typed (count_in n (s :: wire_world))"
  using typed_on_received [of s n] by (simp add: count_in_def Let_def)

lemma same_shape [simp]:
  "next_record (enter ph p s) = next_record s" "next_request (enter ph p s) = next_request s"
  "mono (enter ph p s) = mono s" "assigned_rec (enter ph p s) = assigned_rec s"
  "next_record (upd_request r f s) = next_record s" "next_request (upd_request r f s) = next_request s"
  "mono (upd_request r f s) = mono s" "assigned_rec (upd_request r f s) = assigned_rec s"
  "current (upd_request r f s) = current s"
  "next_record (upd_record r g s) = next_record s" "next_request (upd_record r g s) = next_request s"
  "mono (upd_record r g s) = mono s" "assigned_rec (upd_record r g s) = assigned_rec s"
  "current (upd_record r g s) = current s"
  by (simp_all add: enter_def upd_record_def upd_request_def)

lemma current_enter [simp]: "current (enter ph p s) = current s"
  by (simp add: enter_def upd_record_def)

lemma typed_environment: "environment s t \<Longrightarrow> keeps_typing s t"
  by (force simp: environment_def keeps_typing_def typing_defs)

interpretation typing: activity_relation cs keeps_typing for cs
proof unfold_locales
  fix s t u :: wire_world
  assume "keeps_typing s t" and "keeps_typing t u"
  then show "keeps_typing s u" by (auto simp: keeps_typing_def)
next
  fix s t :: wire_world
  assume "environment s t"
  then show "keeps_typing s t" by (rule typed_environment)
next
  fix s :: wire_world and p r and f :: "http_request \<Rightarrow> http_request"
  assume "annotates f"
  then show "keeps_typing s (upd_request r f s)" by (simp add: keeps_typing_def typed_annotate)
next
  fix s :: wire_world
  show "keeps_typing s (on_timeout s)"
    using typed_on_timeout [of s] by (auto simp: keeps_typing_def on_timeout_def Let_def split: option.splits prod.splits)
next
  fix s :: wire_world and n :: int
  assume "0 < n"
  then show "keeps_typing s (count_in n s)"
    using typed_count_in [of s n]
    by (auto simp: keeps_typing_def count_in_def on_received_def Let_def split: option.splits)
next
  fix s :: wire_world and n :: int
  assume n: "0 \<le> n"
  let ?s1 = "s\<lparr>cnt_egress := cnt_egress s + n\<rparr>"
  from n show "keeps_typing s (on_sent n ?s1)"
    using typed_on_sent [of ?s1 n] by (auto simp: keeps_typing_def on_sent_def Let_def split: option.splits)
next
  fix s :: wire_world and p c verb url
  show "keeps_typing s (begin_request p c verb url s)"
    using typed_begin [of s p c verb url] by (simp add: keeps_typing_def) (simp add: begin_request_def)
next
  fix s :: wire_world and p r
  assume "tracked s = Some (p, r)"
  then have "current s = Some p" by (auto simp: tracked_def split: option.splits)
  then show "keeps_typing s (upd_record p (\<lambda>rp. rp\<lparr>rp_request := None,
      rp_requests_completed := rp_requests_completed rp + 1\<rparr>) s)"
    by (auto simp: keeps_typing_def record_typed_def dest: typedD intro!: typed_upd_record)
next
  fix s :: wire_world and a
  show "keeps_typing s (log_dial a s)" by (simp add: keeps_typing_def log_dial_def)
qed (simp_all add: keeps_typing_def typed_enter)

lemma typed_scopes:
  assumes "executor_body gs cs body" and "probe_scopes g p body s = ((r, i, e), t)" and "p < next_record s"
  shows "keeps_typing s t"
proof (rule probe_scopes_activity [OF assms(1,2)])
  fix u
  assume a: "activity gs cs (scoped_world g p s) u"
    and t: "t = (unscoped_world s u)\<lparr>guard_on := if g then guard_on s else guard_on u\<rparr>"
  have "keeps_typing (scoped_world g p s) u" by (rule typing.every_run [OF a])
  with t assms(3) show ?thesis
    by (auto simp: keeps_typing_def typing_defs scoped_world_def unscoped_world_def)
qed

lemma typed_finish: "keeps_typing s (snd (finish_run m pre secrets p i e result s))"
  by (auto simp: finish_run_def Let_def keeps_typing_def on_files_def typed_enter split: sum.splits option.splits prod.splits)

lemma typed_block:
  assumes "lace_keeps_to_hooks gs cs lx" and "p < next_record s"
  shows "keeps_typing s (snd (run_block lx m d pre payload p s))"
proof (cases rule: run_block_cases [of lx m d pre payload p s])
  case (raised body x i e t)
  then have "executor_body gs cs body" using assms(1) by (auto simp: lace_keeps_to_hooks_def)
  with typed_scopes [OF _ raised(1) assms(2)] raised(2) show ?thesis by simp
next
  case (returned body result i e t)
  then have "executor_body gs cs body" using assms(1) by (auto simp: lace_keeps_to_hooks_def)
  then have "keeps_typing s t" by (rule typed_scopes [OF _ returned(1) assms(2)])
  with returned(2) typed_finish show ?thesis by (auto intro: typing.trans)
qed (simp add: typing.refl)

lemma typed_new_progress: "typed s \<Longrightarrow> new_progress s = (Inr p, t) \<Longrightarrow> typed t \<and> p < next_record t"
  by (auto simp: new_progress_def typing_defs fresh_progress_def less_Suc_eq)

lemma typed_own_record: "typed s \<Longrightarrow> own_record s = (Inr p, t) \<Longrightarrow> typed t \<and> p < next_record t"
  using typed_new_progress [of s p t] by (cases "assigned_rec s") (auto simp: own_record_def typed_def points_into_def)

lemma typed_run:
  assumes "typed s" and "lace_keeps_to_hooks gs cs lx"
  shows "typed (snd (run_sync lx m d pre payload s))"
proof -
  obtain p s0 where own: "own_record s = (Inr p, s0)" and run: "run_sync lx m d pre payload s =
      (let (r, t) = run_block lx m d pre payload p (s0\<lparr>files := (files s0)(path_text d \<mapsto> Directory)\<rparr>) in (r, rmtree d t))"
    using run_sync_cases [where s = s and lx = lx and m = m and d = d and pre = pre and payload = payload] by blast
  let ?s1 = "s0\<lparr>files := (files s0)(path_text d \<mapsto> Directory)\<rparr>"
  obtain r t where b: "run_block lx m d pre payload p ?s1 = (r, t)" by fastforce
  have "typed ?s1" "p < next_record ?s1" using typed_own_record [OF assms(1) own] by simp_all
  with typed_block [OF assms(2), where p = p and s = ?s1 and m = m and d = d and pre = pre and payload = payload]
  have "typed t" unfolding b snd_conv keeps_typing_def by blast
  moreover have "snd (run_sync lx m d pre payload s) = rmtree d t" unfolding run b by simp
  ultimately show ?thesis by (simp add: rmtree_def)
qed

lemma ms_between_nonneg: "since \<le> until \<Longrightarrow> 0 \<le> ms_between since until"
  by (simp add: ms_between_def)

lemma typed_snapshot: "typed s \<Longrightarrow> p < next_record s \<Longrightarrow> snapshot p s = Some st \<Longrightarrow> stall_typed st"
  using typedD(1) [of s p] typedD(2) [of s]
  by (auto simp: snapshot_def snapshot_at_def Let_def stall_typed_def record_typed_def request_typed_def ms_between_nonneg
      split: if_splits prod.splits option.splits)

section \<open>Properties\<close>

text \<open>C7: A run leaves a well-typed world well typed, whatever the Lace executor does through the hooks and however the
  run ends: no reference dangles, no count is negative, nothing began in the future, and every timeout
  entry carries the verdict of its own phase and connection; so whatever the budget's thread then reads off a
  record has sensible durations and the verdict that belongs to it.\<close>

theorem runs_keep_the_world_typed:
  assumes "typed s" and "lace_keeps_to_hooks gs cs lx"
  shows "typed (snd (run_sync lx m bodies_dir pre payload s))
     \<and> (\<forall>p < next_record (snd (run_sync lx m bodies_dir pre payload s)).
          pred_option stall_typed (snapshot p (snd (run_sync lx m bodies_dir pre payload s)))
          \<and> list_all entry_typed (rp_timeouts (records (snd (run_sync lx m bodies_dir pre payload s)) p)))"
proof -
  let ?t = "snd (run_sync lx m bodies_dir pre payload s)"
  have t: "typed ?t" using assms by (rule typed_run)
  then have "pred_option stall_typed (snapshot p ?t)" if "p < next_record ?t" for p
    using typed_snapshot [OF _ that] by (cases "snapshot p ?t") simp_all
  with t show ?thesis using typedD(1) [OF t] by (simp add: record_typed_def)
qed

theorem runs_keep_the_world_typed_witness:
  "typed sample_world \<and> typed (snd (run_sync sample_lace sample_agent ''/tmp/b'' ''r'' sample_payload sample_world))"
proof -
  have w: "typed sample_world"
    by (simp add: typing_defs sample_world_def fresh_progress_def)
  have l: "lace_keeps_to_hooks [GuardLayer] [GuardLayer, ProgressLayer] sample_lace"
  proof -
    have "activity [GuardLayer] [GuardLayer, ProgressLayer] u (snd (andthen (sample_body [GuardLayer] [GuardLayer, ProgressLayer])
        (\<lambda>_. ret [(''outcome'', JStr ''success'')]) u))" for u
      by (rule activity_andthen)
        (simp_all add: ret_def activity.idle sample_executor_body [unfolded executor_body_def, rule_format])
    then show ?thesis by (simp add: lace_keeps_to_hooks_def sample_lace_def executor_body_def)
  qed
  from w runs_keep_the_world_typed [OF w l, of sample_agent "''/tmp/b''" "''r''" sample_payload] show ?thesis by simp
qed

end
