(* ===== verification/Server.thy ===== *)
theory Server
  imports Lifespan Well_Formed
begin

text \<open>
  The agent as its clients see it: one function from an HTTP request to the answer, through the routes of the application, the
  handlers and the executor (\<open>routes/\<close>, \<open>executor.execute_probe\<close>, \<open>executor.reach_target\<close>). FastAPI looks the endpoint up by
  method and path and binds the body to the handler's model; what it answers by itself (404, 405, its
  documentation pages) is \<open>Framework\<close>.

  The state is the world of the probes. How a budgeted run and its deadline meet is the business of \<open>Probe_Pool\<close>; here it
  is the argument \<open>timing\<close>, which \<open>every_answer_modelled\<close> shows to cover every answer of that system, and the
  world is the one after the run, if it takes place, is over.
\<close>

section \<open>Executing a probe\<close>

text \<open>\<open>Refused ran\<close>: a worker may have taken the job without having set the event in time, and then runs it all the same.\<close>

datatype fate = Completed | Overran | Refused bool

record timing =
  tm_fate :: fate
  tm_started_at :: string
  tm_elapsed :: int
  tm_progress :: "(stall option \<times> int \<times> int) option"
  tm_ended :: int

definition answer_of :: "timing \<Rightarrow> int \<Rightarrow> py_exn + dict \<Rightarrow> answer" where
  "answer_of tm b r =
     (case tm_fate tm of
        Completed \<Rightarrow> if run_timed_out (Some b) r then Budget_timeout (tm_elapsed tm) else Result r
      | Overran \<Rightarrow> Budget_timeout (tm_elapsed tm)
      | Refused _ \<Rightarrow> At_capacity)"

definition execute_probe ::
  "lace \<Rightarrow> agent \<Rightarrow> string \<Rightarrow> string \<Rightarrow> timing \<Rightarrow> job_payload \<Rightarrow> (wire_world, dict) proc" where
  "execute_probe lx m bodies_dir run_prefix tm payload =
     andthen new_progress (\<lambda>p s.
       let run = assign p (run_sync lx m bodies_dir run_prefix payload) in
       case jp_request_timeout_ms payload of
         None \<Rightarrow> run s
       | Some b \<Rightarrow>
           if tm_fate tm = Refused False then (Inl (AgentAtCapacity b), s)
           else (case run s of
                   (r, t) \<Rightarrow> (respond b (tm_started_at tm) (tm_progress tm) (tm_ended tm) (answer_of tm b r), t)))"

section \<open>The other two services of the executor\<close>

text \<open>\<open>asyncio.to_thread\<close> runs them on another thread and gives back what they return or raise.\<close>

definition reach_attempts :: nat where
  "reach_attempts = 3"

definition reach_target :: "agent \<Rightarrow> wire_world reach_ops \<Rightarrow> string \<Rightarrow> int \<Rightarrow> bool \<Rightarrow> (wire_world, dict) proc" where
  "reach_target m ops h p use_tls = reach_sync m ops reach_attempts h p use_tls"

definition run_health_script :: "(json \<Rightarrow> string) \<Rightarrow> lace \<Rightarrow> string \<Rightarrow> (wire_world, json) proc" where
  "run_health_script show lx token_url = run_health show lx token_url"

section \<open>Binding the other requests\<close>

definition bind_challenge :: "json \<Rightarrow> (string \<times> string) option" where
  "bind_challenge body =
     (case body of
        JObj d \<Rightarrow>
          (case (bound None as_str (dict_get d ''challenge_id''), bound None as_str (dict_get d ''token_url'')) of
             (Some challenge_id, Some token_url) \<Rightarrow> Some (challenge_id, token_url)
           | _ \<Rightarrow> None)
      | _ \<Rightarrow> None)"

definition bind_reach :: "(json \<Rightarrow> int option) \<Rightarrow> (json \<Rightarrow> bool option) \<Rightarrow> json \<Rightarrow> reach_request option" where
  "bind_reach lax_int lax_bool body =
     (case body of
        JObj d \<Rightarrow>
          (case (bound None as_str (dict_get d ''host''), bound None lax_int (dict_get d ''port''),
                 bound (Some True) lax_bool (dict_get d ''tls'')) of
             (Some h, Some p, Some t) \<Rightarrow> Some \<lparr>rr_host = h, rr_port = p, rr_tls = t\<rparr>
           | _ \<Rightarrow> None)
      | _ \<Rightarrow> None)"

section \<open>Serving a request\<close>

text \<open>The running agent: its application and modules, and the code outside the repository it works with.\<close>

record ('priv, 'pub) server =
  se_web :: web_app
  se_app :: "'priv app"
  se_agent :: agent
  se_ops :: "wire_world reach_ops"
  se_lace :: lace
  se_crypto :: "('priv, 'pub) crypto"
  se_lax_int :: "json \<Rightarrow> int option"
  se_lax_bool :: "json \<Rightarrow> bool option"
  se_show :: "json \<Rightarrow> string"
  se_executor_version :: string

text \<open>A request, with what its handling draws at random or from the clock.\<close>

record incoming =
  in_method :: string
  in_path :: string
  in_body :: json
  in_content_key :: string
  in_iv :: string
  in_bodies_dir :: string
  in_run_prefix :: string
  in_timing :: timing

datatype http_answer = Json response | Health_json health_response | Challenge_json challenge_response | Framework

definition endpoint_of :: "web_app \<Rightarrow> string \<Rightarrow> string \<Rightarrow> endpoint option" where
  "endpoint_of wa method path = map_of (wa_routes wa) (method, path)"

definition unprocessable :: http_answer where
  "unprocessable = Json (422, JObj [])"

definition serve :: "('priv, 'pub) server \<Rightarrow> incoming \<Rightarrow> (wire_world, http_answer) proc" where
  "serve sv rq =
     (case endpoint_of (se_web sv) (in_method rq) (in_path rq) of
        None \<Rightarrow> ret Framework
      | Some Run_probe \<Rightarrow>
          andthen (run_probe (se_crypto sv) (app_private_key (se_app sv)) (in_content_key rq) (in_iv rq) (bind_job (se_lax_bool sv))
                    (execute_probe (se_lace sv) (se_agent sv) (in_bodies_dir rq) (in_run_prefix rq) (in_timing rq)) (in_body rq))
            (\<lambda>r. ret (Json r))
      | Some Health \<Rightarrow>
          ret (Health_json (health (wa_version (se_web sv)) (se_executor_version sv) (app_private_key (se_app sv))))
      | Some Challenge \<Rightarrow>
          (case bind_challenge (in_body rq) of
             None \<Rightarrow> ret unprocessable
           | Some (challenge_id, token_url) \<Rightarrow>
               andthen (challenge (run_health_script (se_show sv) (se_lace sv)) mono (app_private_key (se_app sv)) challenge_id token_url)
                 (\<lambda>r. ret (Challenge_json r)))
      | Some Reach \<Rightarrow>
          (case bind_reach (se_lax_int sv) (se_lax_bool sv) (in_body rq) of
             None \<Rightarrow> ret unprocessable
           | Some r \<Rightarrow>
               andthen (reach_route (reach_target (se_agent sv) (se_ops sv)) r) (\<lambda>a. ret (Json a))))"

text \<open>Requests one after the other; an exception is a 500 and ends nothing.\<close>

fun serve_all :: "('priv, 'pub) server \<Rightarrow> incoming list \<Rightarrow> wire_world \<Rightarrow> wire_world" where
  "serve_all sv [] s = s"
| "serve_all sv (rq # rqs) s = serve_all sv rqs (snd (serve sv rq s))"

text \<open>Everything dialled from one world to the next is an address the egress policy lets through.\<close>

definition vetted_dials :: "wire_world \<Rightarrow> wire_world \<Rightarrow> bool" where
  "vetted_dials s t \<longleftrightarrow> (\<exists>new. dialled t = new @ dialled s \<and> list_all vetted new)"

text \<open>An agent under the policy: its modules are patched and the executor and the reach work on the patched functions.\<close>

definition guarded_server :: "('priv, 'pub) server \<Rightarrow> bool" where
  "guarded_server sv \<longleftrightarrow>
     (let gs = getaddrinfo_slot (se_agent sv); cs = connect_slot (se_agent sv)
      in ag_egress (se_agent sv) \<and> GuardLayer \<in> set cs \<and> lace_keeps_to_hooks gs cs (se_lace sv)
         \<and> (\<exists>sysr sysc fd shake. se_ops sv = agent_ops gs cs sysr sysc fd shake
              \<and> system_resolve sysr \<and> system_connect sysc \<and> executor_body gs cs shake))"

text \<open>Concrete data for the witnesses.\<close>

definition sample_server :: "web_app \<Rightarrow> agent \<Rightarrow> (nat, nat) server" where
  "sample_server wa m =
     (let gs = getaddrinfo_slot m; cs = connect_slot m in
      \<lparr>se_web = wa, se_app = sample_app, se_agent = m,
       se_ops = agent_ops gs cs sample_resolve sample_connect 3 (\<lambda>s. (Inr (), s)),
       se_lace = \<lparr>lx_config = \<lambda>_. [],
         lx_run = \<lambda>_ _ _ _ _. andthen (sample_body gs cs) (\<lambda>_. ret [(''outcome'', JStr ''success'')])\<rparr>,
       se_crypto = sample_crypto, se_lax_int = \<lambda>v. (case v of JInt i \<Rightarrow> Some i | _ \<Rightarrow> None),
       se_lax_bool = \<lambda>v. (case v of JBool b \<Rightarrow> Some b | _ \<Rightarrow> None), se_show = \<lambda>_. [], se_executor_version = ''1''\<rparr>)"

definition sample_timing :: timing where
  "sample_timing = \<lparr>tm_fate = Completed, tm_started_at = [], tm_elapsed = 0, tm_progress = None, tm_ended = 0\<rparr>"

definition sample_post :: "string \<Rightarrow> json \<Rightarrow> incoming" where
  "sample_post path body =
     \<lparr>in_method = ''POST'', in_path = path, in_body = body, in_content_key = ''k1'', in_iv = ''i1'',
      in_bodies_dir = ''/tmp/b'', in_run_prefix = ''r'', in_timing = sample_timing\<rparr>"

text \<open>An executor that does nothing but succeed, and a text format for the two documents of one exchange.\<close>

definition quiet_lace :: lace where
  "quiet_lace = \<lparr>lx_config = \<lambda>_. [], lx_run = \<lambda>_ _ _ _ _ s. (Inr [(''outcome'', JStr ''success'')], s)\<rparr>"

definition two_texts :: "json \<Rightarrow> json \<Rightarrow> (nat, nat) crypto" where
  "two_texts x y =
     sample_crypto\<lparr>json_dumps := \<lambda>v. if v = x then ''x'' else ''y'', json_loads := \<lambda>t. Inr (if t = ''x'' then x else y)\<rparr>"

section \<open>Lemmas\<close>

lemma vetted_dials_same: "dialled t = dialled s \<Longrightarrow> vetted_dials s t"
  by (simp add: vetted_dials_def)

lemma vetted_dials_trans: "vetted_dials s t \<Longrightarrow> vetted_dials t u \<Longrightarrow> vetted_dials s u"
  unfolding vetted_dials_def by (metis append_assoc list_all_append)

lemma finish_run_dials: "dialled (snd (finish_run m pre secrets p i e result t)) = dialled t"
  by (simp add: finish_run_def Let_def on_files_def enter_def upd_record_def split: sum.splits option.splits prod.splits)

lemma run_block_dials:
  assumes "lace_keeps_to_hooks gs cs lx" and "GuardLayer \<in> set cs" and "ag_egress m"
  shows "vetted_dials s (snd (run_block lx m d pre payload p s))"
proof -
  have scoped: "vetted_dials s t"
    if body: "\<exists>es cfg vars. body = lx_run lx es cfg (jp_script payload) vars (jp_prev payload)"
      and run: "probe_scopes (ag_egress m) p body s = ((r, i, e), t)"
    for body :: "(wire_world, dict) proc" and r i e t
  proof -
    have "executor_body gs cs body" using body assms(1) by (auto simp: lace_keeps_to_hooks_def)
    then show ?thesis
      using run
    proof (rule probe_scopes_activity)
      fix u
      assume "activity gs cs (scoped_world (ag_egress m) p s) u"
        "t = (unscoped_world s u)\<lparr>guard_on := if ag_egress m then guard_on s else guard_on u\<rparr>"
      with assms(2,3) dials.every_run [of gs cs "scoped_world (ag_egress m) p s" u] show ?thesis
        by (auto simp: dials_vetted_def vetted_dials_def scoped_world_def unscoped_world_def)
    qed
  qed
  show ?thesis
  proof (cases rule: run_block_cases [of lx m d pre payload p s])
    case (returned body result i e t)
    with scoped [OF returned(3,1)] show ?thesis by (auto simp: vetted_dials_def finish_run_dials)
  qed (use scoped in \<open>auto simp: vetted_dials_same\<close>)
qed

lemma run_dials:
  assumes "lace_keeps_to_hooks gs cs lx" and "GuardLayer \<in> set cs" and "ag_egress m"
  shows "vetted_dials s (snd (run_sync lx m d pre payload s))"
proof -
  obtain p s0 where own: "own_record s = (Inr p, s0)" and run: "run_sync lx m d pre payload s =
      (let (r, t) = run_block lx m d pre payload p (s0\<lparr>files := (files s0)(path_text d \<mapsto> Directory)\<rparr>) in (r, rmtree d t))"
    using run_sync_cases [where s = s and lx = lx and m = m and d = d and pre = pre and payload = payload] by blast
  have "dialled s0 = dialled s" using own by (auto simp: own_record_def new_progress_def split: option.splits)
  with run_block_dials [OF assms, of "s0\<lparr>files := (files s0)(path_text d \<mapsto> Directory)\<rparr>" d pre payload p] show ?thesis
    by (cases "run_block lx m d pre payload p (s0\<lparr>files := (files s0)(path_text d \<mapsto> Directory)\<rparr>)")
      (simp add: run vetted_dials_def rmtree_def)
qed

lemma execute_world:
  "\<exists>p u. dialled u = dialled s \<and> files u = files s
     \<and> snd (execute_probe lx m d pre tm payload s) \<in> {u, snd (assign p (run_sync lx m d pre payload) u)}"
proof -
  let ?p = "next_record s" and ?u = "snd (new_progress s)"
  have "snd (execute_probe lx m d pre tm payload s) \<in> {?u, snd (assign ?p (run_sync lx m d pre payload) ?u)}"
    by (auto simp: execute_probe_def andthen_def new_progress_def Let_def split: option.split prod.splits)
  moreover have "dialled ?u = dialled s" "files ?u = files s" by (simp_all add: new_progress_def)
  ultimately show ?thesis by blast
qed

lemma execute_dials:
  assumes "lace_keeps_to_hooks gs cs lx" and "GuardLayer \<in> set cs" and "ag_egress m"
  shows "vetted_dials s (snd (execute_probe lx m d pre tm payload s))"
proof -
  have "vetted_dials u (snd (assign p (run_sync lx m d pre payload) u))" for p u
    using run_dials [OF assms, of "u\<lparr>assigned_rec := Some p\<rparr>" d pre payload]
    by (cases "run_sync lx m d pre payload (u\<lparr>assigned_rec := Some p\<rparr>)")
      (simp add: assign_def with_cell_def finally_do_def Let_def vetted_dials_def)
  then have "vetted_dials s (snd (assign p (run_sync lx m d pre payload) u))" if "dialled u = dialled s" for p u
    using that by (metis vetted_dials_def)
  moreover obtain p u where "dialled u = dialled s"
    "snd (execute_probe lx m d pre tm payload s) \<in> {u, snd (assign p (run_sync lx m d pre payload) u)}"
    using execute_world by blast
  ultimately show ?thesis by (auto simp: vetted_dials_same)
qed

text \<open>The probe handler itself does nothing to the world but execute the job.\<close>

lemma reply_sealed_state: "snd (reply_sealed c ck iv cert result s) = s"
  by (simp add: reply_sealed_def split: option.split json.split sum.split)

lemma run_probe_keeps:
  assumes "\<And>job. R s (snd (execute job s))" and "R s s"
  shows "R s (snd (run_probe c key ck iv parse_job execute body s))"
proof -
  have "R s (snd (run_job parse_job execute job answer s))"
    if "\<And>result u. snd (answer result u) = u" for job answer
    using assms that
    by (auto simp: run_job_def split: sum.split prod.split py_exn.split) (metis snd_conv)+
  with assms(2) show ?thesis
    by (auto simp: run_probe_def reply_sealed_state split: sum.split bool.split option.split prod.split py_exn.split)
qed

lemma reach_route_state:
  "snd (reach_route target r s) = (if reach_request_ok r then snd (target (rr_host r) (rr_port r) (rr_tls r) s) else s)"
  by (simp add: reach_route_def split: prod.split sum.split)

lemma serve_dials:
  assumes "guarded_server sv" and "endpoint_of (se_web sv) (in_method rq) (in_path rq) \<noteq> Some Challenge"
  shows "vetted_dials s (snd (serve sv rq s))"
proof -
  let ?m = "se_agent sv"
  let ?gs = "getaddrinfo_slot ?m" and ?cs = "connect_slot ?m"
  obtain sysr sysc fd shake where g: "ag_egress ?m" "GuardLayer \<in> set ?cs" "lace_keeps_to_hooks ?gs ?cs (se_lace sv)"
    and ops: "se_ops sv = agent_ops ?gs ?cs sysr sysc fd shake" "system_resolve sysr" "system_connect sysc"
      "executor_body ?gs ?cs shake"
    using assms(1) by (auto simp: guarded_server_def Let_def)
  have "dials_vetted ?cs u (snd (shake u))" for u
    using ops(4) by (auto simp: executor_body_def intro: dials.every_run)
  then have "vetted_dials s (snd (reach_target ?m (se_ops sv) h p tls s))" for h p tls
    using reach_dials_vetted_only [OF g(2) ops(2,3) _ g(1)] unfolding reach_target_def ops(1) vetted_dials_def by blast
  then have reach: "vetted_dials s (snd (reach_route (reach_target ?m (se_ops sv)) r s))" for r
    by (simp add: reach_route_state vetted_dials_same)
  have probe: "vetted_dials s (snd (run_probe (se_crypto sv) (app_private_key (se_app sv)) (in_content_key rq) (in_iv rq)
      (bind_job (se_lax_bool sv)) (execute_probe (se_lace sv) ?m (in_bodies_dir rq) (in_run_prefix rq) (in_timing rq)) (in_body rq) s))"
    by (rule run_probe_keeps) (rule execute_dials [OF g(3,2,1)], simp add: vetted_dials_same)
  have after: "snd (andthen p (\<lambda>x. ret (f x)) s) = snd (p s)" for p :: "(wire_world, 'x) proc" and f :: "'x \<Rightarrow> http_answer"
    by (simp add: andthen_def ret_def split: prod.split sum.split)
  show ?thesis
  proof (cases "endpoint_of (se_web sv) (in_method rq) (in_path rq)")
    case (Some e)
    with assms(2) show ?thesis
      by (cases e) (auto simp: serve_def after vetted_dials_same ret_def probe reach split: option.split)
  qed (simp add: serve_def vetted_dials_same ret_def)
qed

lemma created_endpoints:
  assumes "create_app version r env = Inr wa"
  shows "endpoint_of wa ''POST'' ''/probe'' = Some Run_probe"
    and "endpoint_of wa method path = Some Challenge \<longleftrightarrow> method = ''POST'' \<and> path = ''/health/challenge''"
  using assms by (auto simp: create_app_def endpoint_of_def probe_router_def health_router_def reach_router_def
      split: sum.splits if_splits)

lemma serve_all_dials:
  assumes "guarded_server sv" and "list_all (\<lambda>rq. endpoint_of (se_web sv) (in_method rq) (in_path rq) \<noteq> Some Challenge) rqs"
  shows "vetted_dials s (serve_all sv rqs s)"
  using assms(2)
proof (induction rqs arbitrary: s)
  case (Cons rq rqs)
  then show ?case using serve_dials [OF assms(1)] by (auto intro: vetted_dials_trans)
qed (simp add: vetted_dials_same)

section \<open>Properties\<close>


text \<open>C5: A dispatch goes through end to end. A scheduler seals a job it wrote, with its own certificate, to the agent's certificate and
  posts it to the agent's probe path; the agent executes exactly that job, its budget clamped, and the answer is one the
  scheduler opens to exactly the result of the execution.\<close>

theorem dispatch_served_end_to_end:
  assumes "create_app version r env = Inr (se_web sv)" and "se_crypto sv = c" and "app_private_key (se_app sv) = Some agent_priv"
    and "matching_keys c agent_priv agent_pub" and "cert_key c agent_cert = Inr (Some agent_pub)"
    and "matching_keys c sched_priv sched_pub" and "cert_key c sched_cert = Inr (Some sched_pub)" and "sched_cert \<noteq> []"
    and "\<And>b. se_lax_bool sv (JBool b) = Some b"
    and "json_text c (JObj (dispatch_of j @ [(''replyCert'', JStr sched_cert)]))" and "json_text c (JObj result)"
    and "seal_envelope c key0 iv0 (JObj (dispatch_of j @ [(''replyCert'', JStr sched_cert)])) agent_cert = Inr request"
    and "in_method rq = ''POST''" and "in_path rq = ''/probe''" and "in_body rq = JObj request"
    and "execute_probe (se_lace sv) (se_agent sv) (in_bodies_dir rq) (in_run_prefix rq) (in_timing rq)
           (j\<lparr>jp_request_timeout_ms := clamped (jp_request_timeout_ms j)\<rparr>) s = (Inr result, s')"
  shows "\<exists>answer. serve sv rq s = (Inr (Json (200, JObj answer)), s') \<and> open_envelope c sched_priv answer = Inr (JObj result)"
proof -
  let ?job = "dispatch_of j @ [(''replyCert'', JStr sched_cert)]"
  have reply: "dict_get ?job ''replyCert'' = Some (JStr sched_cert)" "snd (dict_pop ''replyCert'' ?job) = dispatch_of j"
    by (simp_all add: dispatch_of_def dict_get_def dict_pop_def)
  have bound: "bind_job (se_lax_bool sv) (snd (dict_pop ''replyCert'' ?job))
      = Inr (j\<lparr>jp_request_timeout_ms := clamped (jp_request_timeout_ms j)\<rparr>)"
    unfolding reply(2) using bind_dispatch [of "se_lax_bool sv" j "[]", OF assms(9)] by simp
  from sealed_exchange [where parse_job = "bind_job (se_lax_bool sv)" and s = s
      and execute = "execute_probe (se_lace sv) (se_agent sv) (in_bodies_dir rq) (in_run_prefix rq) (in_timing rq)",
      OF assms(4,5,6,7,8) reply(1) assms(10,11,12) bound assms(16)]
  obtain answer where "run_probe c (Some agent_priv) (in_content_key rq) (in_iv rq) (bind_job (se_lax_bool sv))
      (execute_probe (se_lace sv) (se_agent sv) (in_bodies_dir rq) (in_run_prefix rq) (in_timing rq)) (JObj request) s
      = (Inr (200, JObj answer), s')" "open_envelope c sched_priv answer = Inr (JObj result)" by blast
  then show ?thesis
    using assms(2,3,13-15) created_endpoints(1) [OF assms(1)] by (simp add: serve_def andthen_def ret_def)
qed



lemma quiet_execution:
  "\<exists>result s'. execute_probe quiet_lace sample_agent ''/tmp/b'' ''r'' sample_timing
     (sample_dispatched\<lparr>jp_request_timeout_ms := clamped (jp_request_timeout_ms sample_dispatched)\<rparr>) sample_world = (Inr result, s')"
proof -
  have "\<not> isl (fst (execute_probe quiet_lace sample_agent ''/tmp/b'' ''r'' sample_timing
     (sample_dispatched\<lparr>jp_request_timeout_ms := clamped (jp_request_timeout_ms sample_dispatched)\<rparr>) sample_world))"
    by code_simp
  then show ?thesis by (metis isl_def prod.collapse sum.exhaust_sel)
qed

theorem dispatch_served_end_to_end_witness:
  "\<exists>(sv :: (nat, nat) server) request answer result s'. create_app ''1'' sample_reader booting_env = Inr (se_web sv)
     \<and> serve sv (sample_post ''/probe'' (JObj request)) sample_world = (Inr (Json (200, JObj answer)), s')
     \<and> open_envelope (se_crypto sv) (3 :: nat) answer = Inr (JObj result)"
proof -
  obtain result s' where e: "execute_probe quiet_lace sample_agent ''/tmp/b'' ''r'' sample_timing
     (sample_dispatched\<lparr>jp_request_timeout_ms := clamped (jp_request_timeout_ms sample_dispatched)\<rparr>) sample_world = (Inr result, s')"
    using quiet_execution by blast
  let ?job = "dispatch_of sample_dispatched @ [(''replyCert'', JStr ''abc'')]"
  let ?c = "two_texts (JObj ?job) (JObj result)"
  let ?sv = "(sample_server sample_web_app sample_agent)\<lparr>se_lace := quiet_lace, se_crypto := ?c\<rparr>"
  obtain request where r: "seal_envelope ?c ''k0'' ''i0'' (JObj ?job) ''agent78'' = Inr request"
    by (simp add: seal_envelope_def two_texts_def sample_crypto_def Let_def)
  have sv: "create_app ''1'' sample_reader booting_env = Inr (se_web ?sv)" "app_private_key (se_app ?sv) = Some 7"
    "\<And>b. se_lax_bool ?sv (JBool b) = Some b"
    by (simp_all add: create_booting sample_server_def sample_app_def Let_def)
  have keys: "matching_keys ?c n n" if "n < 256" for n
    using sample_keys_match [OF that] by (simp add: two_texts_def matching_keys_def sample_crypto_def)
  have certs: "cert_key ?c ''agent78'' = Inr (Some 7)" "cert_key ?c ''abc'' = Inr (Some 3)"
    by (simp_all add: two_texts_def sample_crypto_def)
  have texts: "json_text ?c (JObj ?job)" "json_text ?c (JObj result)" by (auto simp: json_text_def two_texts_def)
  have ex: "execute_probe (se_lace ?sv) (se_agent ?sv) (in_bodies_dir (sample_post ''/probe'' (JObj request)))
      (in_run_prefix (sample_post ''/probe'' (JObj request))) (in_timing (sample_post ''/probe'' (JObj request)))
      (sample_dispatched\<lparr>jp_request_timeout_ms := clamped (jp_request_timeout_ms sample_dispatched)\<rparr>) sample_world = (Inr result, s')"
    using e by (simp add: sample_server_def sample_post_def Let_def)
  from dispatch_served_end_to_end [OF sv(1) _ sv(2) keys certs(1) keys certs(2) _ sv(3) texts r _ _ _ ex]
  have "\<exists>answer. serve ?sv (sample_post ''/probe'' (JObj request)) sample_world = (Inr (Json (200, JObj answer)), s')
      \<and> open_envelope ?c 3 answer = Inr (JObj result)" by (simp add: sample_post_def)
  then obtain answer where "serve ?sv (sample_post ''/probe'' (JObj request)) sample_world = (Inr (Json (200, JObj answer)), s')"
    "open_envelope (se_crypto ?sv) 3 answer = Inr (JObj result)" by auto
  with sv(1) show ?thesis by metis
qed


end
