(* ===== verification/Pool_Queue.thy ===== *)
theory Pool_Queue
  imports Probe_Pool
begin

text \<open>
  All jobs of the agent together: \<open>executor.init_probe_pool\<close>, and \<open>execute_probe\<close> called any number of times. The pool
  is the standard library's \<open>ThreadPoolExecutor\<close>: a first-in first-out queue served by a fixed number of
  threads, of which an idle one takes a queued job at once. The coroutines share one event loop, and
  \<open>started.wait(0.1)\<close> is a blocking call: while a coroutine waits there, no other coroutine moves and no
  dispatch is accepted. Each job is a state of \<open>Probe_Pool\<close> on its own clock, which starts at its submission; its steps are
  those of that theory, except that time passes for all jobs together and a worker is taken by the pool.
  \<open>pj_full\<close> and \<open>pl_expiries\<close> are for the specification only: how long a job has queued with every worker
  busy, and how many coroutines have entered the \<open>except\<close> clause.
\<close>

section \<open>State\<close>

record pooled =
  pj_budget :: "int option"
  pj_at :: int
  pj_state :: probe_state
  pj_full :: int

record pool =
  pl_workers :: nat
  pl_now :: int
  pl_jobs :: "pooled list"
  pl_expiries :: nat

definition empty_pool :: "nat \<Rightarrow> pool" where
  "empty_pool n = \<lparr>pl_workers = n, pl_now = 0, pl_jobs = [], pl_expiries = 0\<rparr>"

definition queued :: "pooled \<Rightarrow> bool" where
  "queued j = (pb_job (pj_state j) = Queued)"

definition holds_worker :: "pooled \<Rightarrow> bool" where
  "holds_worker j = (pb_job (pj_state j) = Taken \<or> pb_job (pj_state j) = Running)"

definition busy :: "pool \<Rightarrow> nat" where
  "busy p = length (filter holds_worker (pl_jobs p))"

definition saturated :: "pool \<Rightarrow> bool" where
  "saturated p = (pl_workers p \<le> busy p)"

text \<open>The coroutine of the job is inside the \<open>except\<close> clause.\<close>

definition in_except :: "probe_state \<Rightarrow> bool" where
  "in_except s = (case pb_loop s of Expired _ \<Rightarrow> True | _ \<Rightarrow> False)"

definition blocking :: "pooled \<Rightarrow> bool" where
  "blocking j = in_except (pj_state j)"

definition loop_free :: "pool \<Rightarrow> bool" where
  "loop_free p = list_all (\<lambda>j. \<not> blocking j) (pl_jobs p)"

section \<open>Steps\<close>

definition submit_job :: "int option \<Rightarrow> pool \<Rightarrow> pool" where
  "submit_job budget p =
     p\<lparr>pl_jobs := pl_jobs p @ [\<lparr>pj_budget = budget, pj_at = pl_now p, pj_state = submitted, pj_full = 0\<rparr>]\<rparr>"

definition age_job :: "int \<Rightarrow> pool \<Rightarrow> pooled \<Rightarrow> pooled" where
  "age_job t p j =
     j\<lparr>pj_state := (pj_state j)\<lparr>pb_now := t - pj_at j\<rparr>,
       pj_full := pj_full j + (if queued j \<and> saturated p then t - pl_now p else 0)\<rparr>"

definition pass_time :: "int \<Rightarrow> pool \<Rightarrow> pool" where
  "pass_time t p = p\<lparr>pl_now := t, pl_jobs := map (age_job t p) (pl_jobs p)\<rparr>"

definition put_job :: "nat \<Rightarrow> probe_state \<Rightarrow> pool \<Rightarrow> pool" where
  "put_job i s p = p\<lparr>pl_jobs := (pl_jobs p)[i := (pl_jobs p ! i)\<lparr>pj_state := s\<rparr>]\<rparr>"

text \<open>
  Time passes only when nothing is due: no worker is idle beside a queued job; a coroutine in the \<open>except\<close> clause waits at
  most its tenth of a second; and when none is there, no deadline is overrun.
\<close>

definition may_pass :: "int \<Rightarrow> pool \<Rightarrow> bool" where
  "may_pass t p \<longleftrightarrow>
     pl_now p < t \<and> (saturated p \<or> list_all (\<lambda>j. \<not> queued j) (pl_jobs p))
     \<and> list_all (\<lambda>j. (loop_free p \<or> blocking j) \<longrightarrow> may_wait_until (pj_budget j) (pj_state j) (t - pj_at j)) (pl_jobs p)"

inductive pool_step :: "pool \<Rightarrow> pool \<Rightarrow> bool" where
  submit: "loop_free p \<Longrightarrow> pool_step p (submit_job budget p)"
| pass: "may_pass t p \<Longrightarrow> pool_step p (pass_time t p)"
| serve: "i < length (pl_jobs p) \<Longrightarrow> \<not> saturated p \<Longrightarrow> queued (pl_jobs p ! i) \<Longrightarrow>
    list_all (\<lambda>j. \<not> queued j) (take i (pl_jobs p)) \<Longrightarrow>
    pool_step p (put_job i ((pj_state (pl_jobs p ! i))\<lparr>pb_job := Taken\<rparr>) p)"
| work: "i < length (pl_jobs p) \<Longrightarrow> step (pj_budget (pl_jobs p ! i)) (pj_state (pl_jobs p ! i)) s \<Longrightarrow>
    holds_worker (pl_jobs p ! i) \<Longrightarrow> pb_loop s = pb_loop (pj_state (pl_jobs p ! i)) \<Longrightarrow>
    pb_now s = pb_now (pj_state (pl_jobs p ! i)) \<Longrightarrow>
    pool_step p (put_job i s p)"
| coroutine: "i < length (pl_jobs p) \<Longrightarrow> loop_free p \<or> blocking (pl_jobs p ! i) \<Longrightarrow>
    step (pj_budget (pl_jobs p ! i)) (pj_state (pl_jobs p ! i)) s \<Longrightarrow>
    pb_loop s \<noteq> pb_loop (pj_state (pl_jobs p ! i)) \<Longrightarrow>
    pool_step p ((put_job i s p)\<lparr>pl_expiries := pl_expiries p + (if in_except s then 1 else 0)\<rparr>)"

definition pool_reachable :: "nat \<Rightarrow> pool \<Rightarrow> bool" where
  "pool_reachable n = pool_step\<^sup>*\<^sup>* (empty_pool n)"

section \<open>Invariants\<close>

text \<open>A job that a worker has taken, now or earlier.\<close>

definition served :: "pooled \<Rightarrow> bool" where
  "served j = (pb_job (pj_state j) \<noteq> Queued \<and> pb_job (pj_state j) \<noteq> Dropped)"

definition deadline_us :: "int \<Rightarrow> int" where
  "deadline_us b = max 0 (b * 1000)"

definition job_sound :: "pool \<Rightarrow> pooled \<Rightarrow> bool" where
  "job_sound p j \<longleftrightarrow>
     consistent (pj_budget j) (pj_state j) \<and> pj_at j \<le> pl_now p \<and> pb_now (pj_state j) = pl_now p - pj_at j
     \<and> (queued j \<longrightarrow> pj_full j = pb_now (pj_state j))
     \<and> (pb_job (pj_state j) = Dropped \<longrightarrow> (\<exists>b. pj_budget j = Some b \<and> b * 1000 \<le> pj_full j))"

definition in_order :: "pool \<Rightarrow> bool" where
  "in_order p \<longleftrightarrow> sorted_wrt (\<lambda>j l. served l \<longrightarrow> \<not> queued j) (pl_jobs p)"

text \<open>
  The lateness a job may have accumulated when \<open>n\<close> coroutines have been in the \<open>except\<close> clause: a job still waiting
  on a free loop, one inside the clause, and a job waiting while another coroutine is inside it.
\<close>

definition allowance :: "int \<Rightarrow> nat \<Rightarrow> int" where
  "allowance b n = deadline_us b + grace_us * int n"

definition punctual :: "pool \<Rightarrow> int \<Rightarrow> probe_state \<Rightarrow> bool" where
  "punctual p b s \<longleftrightarrow>
     (case pb_loop s of
        Waiting \<Rightarrow>
          (loop_free p \<longrightarrow> pb_now s \<le> allowance b (pl_expiries p))
          \<and> (\<forall>k \<in> set (pl_jobs p). \<forall>t0. pb_loop (pj_state k) = Expired t0 \<longrightarrow>
               pb_now s - (pb_now (pj_state k) - t0) \<le> allowance b (pl_expiries p) - grace_us)
      | Expired t0 \<Rightarrow> t0 \<le> allowance b (pl_expiries p) - grace_us \<and> t0 \<le> pb_now s \<and> pb_now s \<le> t0 + grace_us
      | Answered _ \<Rightarrow> True)"

definition on_schedule :: "pool \<Rightarrow> bool" where
  "on_schedule p \<longleftrightarrow> (\<forall>j \<in> set (pl_jobs p). \<forall>b. pj_budget j = Some b \<longrightarrow> punctual p b (pj_state j))"

definition pool_sound :: "nat \<Rightarrow> pool \<Rightarrow> bool" where
  "pool_sound n p \<longleftrightarrow>
     pl_workers p = n \<and> busy p \<le> n \<and> in_order p \<and> list_all (job_sound p) (pl_jobs p) \<and> on_schedule p"

text \<open>
  A concrete pool of one worker: a run without a budget holds it, two jobs of a second each queue behind. Their two
  deadlines fall on the same instant.
\<close>

definition sample_running :: "int \<Rightarrow> pooled" where
  "sample_running t =
     \<lparr>pj_budget = None, pj_at = 0, pj_state = \<lparr>pb_now = t, pb_job = Running, pb_started = True, pb_loop = Waiting\<rparr>, pj_full = 0\<rparr>"

definition sample_waiting :: "int \<Rightarrow> int \<Rightarrow> job \<Rightarrow> waiting \<Rightarrow> pooled" where
  "sample_waiting t full job loop =
     \<lparr>pj_budget = Some 1000, pj_at = 0, pj_state = \<lparr>pb_now = t, pb_job = job, pb_started = False, pb_loop = loop\<rparr>, pj_full = full\<rparr>"

definition sample_pool :: "int \<Rightarrow> pooled list \<Rightarrow> nat \<Rightarrow> pool" where
  "sample_pool t others e = \<lparr>pl_workers = 1, pl_now = t, pl_jobs = sample_running t # others, pl_expiries = e\<rparr>"

definition sample_late :: pool where
  "sample_late = sample_pool 1200000
     [sample_waiting 1200000 1000000 Dropped (Answered At_capacity), sample_waiting 1200000 1100000 Dropped (Expired 1100000)] 2"

section \<open>Lemmas\<close>

lemma put_job_simps [simp]:
  "pl_workers (put_job i s p) = pl_workers p" "pl_now (put_job i s p) = pl_now p" "pl_expiries (put_job i s p) = pl_expiries p"
  "pl_jobs (put_job i s p) = (pl_jobs p)[i := (pl_jobs p ! i)\<lparr>pj_state := s\<rparr>]"
  by (simp_all add: put_job_def)

lemma work_effect:
  assumes "step b s s'" and "pb_job s = Taken \<or> pb_job s = Running" and "pb_loop s' = pb_loop s" and "pb_now s' = pb_now s"
  shows "pb_job s' = Running \<or> (\<exists>r. pb_job s' = Done r)"
  using assms by (cases rule: step.cases) auto

lemma coroutine_effect:
  assumes "step b s s'" and "pb_loop s' \<noteq> pb_loop s"
  obtains (answered) r where "pb_loop s = Waiting" "pb_loop s' = Answered (Result r)" "pb_job s' = pb_job s" "pb_now s' = pb_now s"
  | (expired) "pb_loop s = Waiting" "pb_loop s' = Expired (pb_now s)" "b \<noteq> None" "pb_now s' = pb_now s"
      "pb_job s' = pb_job s \<or> pb_job s = Queued \<and> pb_job s' = Dropped \<and> (\<exists>m. b = Some m \<and> m * 1000 \<le> pb_now s)"
  | (left) t0 a where "pb_loop s = Expired t0" "pb_loop s' = Answered a" "pb_job s' = pb_job s" "pb_now s' = pb_now s"
  using assms by (cases rule: step.cases) (auto simp: run_timed_out_def)

lemma job_sound_put:
  assumes "pl_now q = pl_now p" and "pl_jobs q = pl_jobs (put_job i s p)"
    and "list_all (job_sound p) (pl_jobs p)" and "job_sound p ((pl_jobs p ! i)\<lparr>pj_state := s\<rparr>)"
  shows "list_all (job_sound q) (pl_jobs q)"
proof -
  have "job_sound q = job_sound p" using assms(1) by (intro ext) (simp add: job_sound_def)
  then show ?thesis
    using assms(2-4) set_update_subset_insert [of "pl_jobs p" i "(pl_jobs p ! i)\<lparr>pj_state := s\<rparr>"] by (auto simp: list_all_iff)
qed

lemma sound_step:
  assumes "pool_step p q" and "list_all (job_sound p) (pl_jobs p)"
  shows "list_all (job_sound q) (pl_jobs q)"
  using assms(1)
proof cases
  case (submit budget)
  with assms(2) show ?thesis
    by (auto simp: submit_job_def list_all_iff job_sound_def consistent_submitted queued_def) (simp_all add: submitted_def)
next
  case (pass t)
  have "job_sound q (age_job t p j)" if "job_sound p j" "j \<in> set (pl_jobs p)" for j
  proof -
    have c: "consistent b (s\<lparr>pb_now := u\<rparr>) = consistent b s" for b s u
      by (auto simp: consistent_def split: waiting.splits answer.splits)
    have "queued j \<longrightarrow> saturated p" using pass(2) that(2) by (auto simp: may_pass_def list_all_iff)
    with that(1) pass show ?thesis
      by (auto simp: job_sound_def age_job_def pass_time_def may_pass_def c queued_def)
  qed
  with assms(2) pass(1) show ?thesis by (auto simp: pass_time_def list_all_iff)
next
  case (serve i)
  let ?j = "pl_jobs p ! i"
  have j: "job_sound p ?j" using assms(2) serve(2) by (simp add: list_all_length)
  have "step (pj_budget ?j) (pj_state ?j) ((pj_state ?j)\<lparr>pb_job := Taken\<rparr>)"
    using serve(4) by (intro take_job) (simp add: queued_def)
  with j have "job_sound p (?j\<lparr>pj_state := (pj_state ?j)\<lparr>pb_job := Taken\<rparr>\<rparr>)"
    by (auto simp: job_sound_def queued_def dest: consistent_step)
  with assms(2) show ?thesis unfolding serve(1) by - (rule job_sound_put [OF _ refl], simp_all)
next
  case (work i s)
  let ?j = "pl_jobs p ! i"
  have j: "job_sound p ?j" using assms(2) work(2) by (simp add: list_all_length)
  have "pb_job s = Running \<or> (\<exists>r. pb_job s = Done r)"
    using work_effect [OF work(3)] work(4-6) by (simp add: holds_worker_def)
  with j work have "job_sound p (?j\<lparr>pj_state := s\<rparr>)"
    by (auto simp: job_sound_def queued_def dest: consistent_step)
  with assms(2) show ?thesis unfolding work(1) by - (rule job_sound_put [OF _ refl], simp_all)
next
  case (coroutine i s)
  let ?j = "pl_jobs p ! i"
  have j: "job_sound p ?j" using assms(2) coroutine(2) by (simp add: list_all_length)
  have c: "consistent (pj_budget ?j) s" using coroutine(4) j by (auto simp: job_sound_def dest: consistent_step)
  have "job_sound p (?j\<lparr>pj_state := s\<rparr>)"
    using coroutine(4,5)
  proof (cases rule: coroutine_effect)
    case expired
    with j c show ?thesis by (auto simp: job_sound_def queued_def)
  qed (use j c in \<open>auto simp: job_sound_def queued_def\<close>)
  with assms(2) show ?thesis unfolding coroutine(1) by - (rule job_sound_put [of _ p i s], simp_all)
qed

lemma workers_step: "pool_step p q \<Longrightarrow> pl_workers q = pl_workers p"
  by (cases rule: pool_step.cases) (auto simp: submit_job_def pass_time_def)

lemma busy_put:
  assumes "i < length (pl_jobs p)"
  shows "busy (put_job i s p) + (if holds_worker (pl_jobs p ! i) then 1 else 0)
    = busy p + (if holds_worker ((pl_jobs p ! i)\<lparr>pj_state := s\<rparr>) then 1 else 0)"
proof -
  let ?xs = "pl_jobs p" and ?x = "(pl_jobs p ! i)\<lparr>pj_state := s\<rparr>"
  note old = arg_cong [OF id_take_nth_drop [OF assms], of "\<lambda>l. length (filter holds_worker l)"]
  note new = arg_cong [OF upd_conv_take_nth_drop [OF assms, of ?x], of "\<lambda>l. length (filter holds_worker l)"]
  from old have "busy p = length (filter holds_worker (take i ?xs)) + (if holds_worker (?xs ! i) then 1 else 0)
      + length (filter holds_worker (drop (Suc i) ?xs))"
    unfolding busy_def by simp
  moreover from new have "busy (put_job i s p) = length (filter holds_worker (take i ?xs)) + (if holds_worker ?x then 1 else 0)
      + length (filter holds_worker (drop (Suc i) ?xs))"
    unfolding busy_def put_job_simps by simp
  ultimately show ?thesis by simp
qed

lemma busy_step:
  assumes "pool_step p q" and "busy p \<le> pl_workers p"
  shows "busy q \<le> pl_workers q"
  using assms(1)
proof cases
  case (submit budget)
  with assms(2) show ?thesis by (simp add: submit_job_def busy_def holds_worker_def submitted_def)
next
  case (pass t)
  have "holds_worker (age_job t p j) = holds_worker j" for j by (simp add: holds_worker_def age_job_def)
  with assms(2) pass(1) show ?thesis by (simp add: pass_time_def busy_def filter_map comp_def)
next
  case (serve i)
  with assms(2) busy_put [OF serve(2), of "(pj_state (pl_jobs p ! i))\<lparr>pb_job := Taken\<rparr>"]
  show ?thesis by (auto simp: saturated_def holds_worker_def queued_def split: if_splits)
next
  case (work i s)
  with assms(2) busy_put [OF work(2), of s] show ?thesis by (auto split: if_splits)
next
  case (coroutine i s)
  have "holds_worker ((pl_jobs p ! i)\<lparr>pj_state := s\<rparr>) \<Longrightarrow> holds_worker (pl_jobs p ! i)"
    using coroutine(4,5) by (cases rule: coroutine_effect) (auto simp: holds_worker_def)
  with assms(2) busy_put [OF coroutine(2), of s] coroutine(1) show ?thesis
    by (auto simp: busy_def split: if_splits)
qed

text \<open>Order of service: replacing a job keeps it if the job did not become served, or nothing before it is queued.\<close>

lemma order_put:
  assumes "in_order p" and "i < length (pl_jobs p)"
    and "queued ((pl_jobs p ! i)\<lparr>pj_state := s\<rparr>) \<Longrightarrow> queued (pl_jobs p ! i)"
    and "served ((pl_jobs p ! i)\<lparr>pj_state := s\<rparr>) \<Longrightarrow> served (pl_jobs p ! i) \<or> list_all (\<lambda>j. \<not> queued j) (take i (pl_jobs p))"
  shows "in_order (put_job i s p)"
  unfolding in_order_def sorted_wrt_iff_nth_less put_job_simps
proof (intro allI impI)
  fix a b
  assume ab: "a < b" "b < length ((pl_jobs p)[i := (pl_jobs p ! i)\<lparr>pj_state := s\<rparr>])"
    and sv: "served ((pl_jobs p)[i := (pl_jobs p ! i)\<lparr>pj_state := s\<rparr>] ! b)"
  have old: "\<not> queued (pl_jobs p ! a)" if "served (pl_jobs p ! b)"
    using assms(1) ab that unfolding in_order_def sorted_wrt_iff_nth_less by simp
  show "\<not> queued ((pl_jobs p)[i := (pl_jobs p ! i)\<lparr>pj_state := s\<rparr>] ! a)"
  proof (cases "b = i")
    case True
    then have "served (pl_jobs p ! i) \<or> list_all (\<lambda>j. \<not> queued j) (take i (pl_jobs p))"
      using assms(2,4) sv by simp
    then show ?thesis using True old ab by (auto simp: list_all_length)
  next
    case False
    then show ?thesis using old sv ab assms(2,3) by (cases "a = i") auto
  qed
qed

lemma order_step:
  assumes "pool_step p q" and "in_order p"
  shows "in_order q"
  using assms(1)
proof cases
  case (submit budget)
  with assms(2) show ?thesis by (simp add: submit_job_def in_order_def sorted_wrt_append served_def submitted_def)
next
  case (pass t)
  have "queued (age_job t p j) = queued j" "served (age_job t p j) = served j" for j
    by (simp_all add: queued_def served_def age_job_def)
  with assms(2) pass(1) show ?thesis by (simp add: pass_time_def in_order_def sorted_wrt_map)
next
  case (serve i)
  then show ?thesis using assms(2) by (auto intro!: order_put simp: queued_def)
next
  case (work i s)
  have "pb_job s = Running \<or> (\<exists>r. pb_job s = Done r)"
    using work_effect [OF work(3)] work(4-6) by (simp add: holds_worker_def)
  with work show ?thesis using assms(2) by (auto intro!: order_put simp: queued_def served_def holds_worker_def)
next
  case (coroutine i s)
  have "in_order (put_job i s p)"
    using assms(2) coroutine(2)
  proof (rule order_put)
    show "queued ((pl_jobs p ! i)\<lparr>pj_state := s\<rparr>) \<Longrightarrow> queued (pl_jobs p ! i)"
      using coroutine(4,5) by (cases rule: coroutine_effect) (auto simp: queued_def)
    show "served ((pl_jobs p ! i)\<lparr>pj_state := s\<rparr>) \<Longrightarrow> served (pl_jobs p ! i) \<or> list_all (\<lambda>j. \<not> queued j) (take i (pl_jobs p))"
      using coroutine(4,5) by (cases rule: coroutine_effect) (auto simp: served_def)
  qed
  with coroutine(1) show ?thesis by (simp add: in_order_def)
qed

lemma loop_free_iff: "loop_free p \<longleftrightarrow> (\<forall>k \<in> set (pl_jobs p). \<forall>t0. pb_loop (pj_state k) \<noteq> Expired t0)"
  by (auto simp: loop_free_def list_all_iff blocking_def in_except_def split: waiting.splits)

lemma set_put: "j \<in> set (pl_jobs (put_job i s p)) \<Longrightarrow> j \<in> set (pl_jobs p) \<or> j = (pl_jobs p ! i)\<lparr>pj_state := s\<rparr>"
  using set_update_subset_insert [of "pl_jobs p" i "(pl_jobs p ! i)\<lparr>pj_state := s\<rparr>"] by auto

text \<open>A step that leaves every clock and every coroutine alone.\<close>

lemma schedule_put:
  assumes "on_schedule p" and "i < length (pl_jobs p)" and "pb_loop s = pb_loop (pj_state (pl_jobs p ! i))"
    and "pb_now s = pb_now (pj_state (pl_jobs p ! i))"
  shows "on_schedule (put_job i s p)"
proof -
  let ?q = "put_job i s p"
  have same: "\<exists>l \<in> set (pl_jobs p). pj_budget l = pj_budget j \<and> pb_loop (pj_state l) = pb_loop (pj_state j)
      \<and> pb_now (pj_state l) = pb_now (pj_state j)" if "j \<in> set (pl_jobs ?q)" for j
    using set_put [OF that] assms(2-4) nth_mem [OF assms(2)] by (elim disjE) (auto intro: bexI [of _ "pl_jobs p ! i"])
  have freed: "loop_free ?q \<Longrightarrow> loop_free p"
  proof (unfold loop_free_iff, intro ballI allI)
    fix k t0
    assume q: "\<forall>k \<in> set (pl_jobs ?q). \<forall>t0. pb_loop (pj_state k) \<noteq> Expired t0" and "k \<in> set (pl_jobs p)"
    then obtain a where a: "a < length (pl_jobs p)" "k = pl_jobs p ! a" by (auto simp: in_set_conv_nth)
    then have "pl_jobs ?q ! a \<in> set (pl_jobs ?q)" by (intro nth_mem) simp
    with q have "pb_loop (pj_state (pl_jobs ?q ! a)) \<noteq> Expired t0" by blast
    with a assms(3) show "pb_loop (pj_state k) \<noteq> Expired t0" by (cases "a = i") auto
  qed
  show ?thesis
    unfolding on_schedule_def
  proof (intro ballI allI impI)
    fix j b
    assume "j \<in> set (pl_jobs ?q)" and b: "pj_budget j = Some b"
    with same obtain l where l: "l \<in> set (pl_jobs p)" "pj_budget l = Some b" "pb_loop (pj_state l) = pb_loop (pj_state j)"
      "pb_now (pj_state l) = pb_now (pj_state j)" by metis
    have "punctual p b (pj_state l)" using assms(1) l(1,2) by (simp add: on_schedule_def)
    moreover have "pb_now (pj_state j) - (pb_now (pj_state k) - t0) \<le> allowance b (pl_expiries p) - grace_us"
      if "pb_loop (pj_state j) = Waiting" "k \<in> set (pl_jobs ?q)" "pb_loop (pj_state k) = Expired t0" for k t0
      using same [OF that(2)] that \<open>punctual p b (pj_state l)\<close> l(3,4) by (auto simp: punctual_def)
    ultimately show "punctual ?q b (pj_state j)"
      using l(3,4) freed by (auto simp: punctual_def split: waiting.splits simp del: put_job_simps(4))
  qed
qed

lemma allowance_Suc: "allowance b (Suc n) = allowance b n + grace_us" "0 \<le> grace_us" "b * 1000 \<le> allowance b n" "0 \<le> allowance b n"
  by (simp_all add: allowance_def deadline_us_def grace_us_def algebra_simps)

lemma schedule_pass:
  assumes "on_schedule p" and "list_all (job_sound p) (pl_jobs p)" and "may_pass t p"
  shows "on_schedule (pass_time t p)"
proof -
  let ?q = "pass_time t p"
  have loop: "pb_loop (pj_state (age_job t p j)) = pb_loop (pj_state j)" "pj_budget (age_job t p j) = pj_budget j"
    "pb_now (pj_state (age_job t p j)) = t - pj_at j" for j
    by (simp_all add: age_job_def)
  have free: "loop_free ?q = loop_free p"
    by (simp add: loop_free_iff pass_time_def loop)
  have now: "pb_now (pj_state j) = pl_now p - pj_at j" if "j \<in> set (pl_jobs p)" for j
    using assms(2) that by (auto simp: list_all_iff job_sound_def)
  have wait: "may_wait_until (pj_budget j) (pj_state j) (t - pj_at j)" if "j \<in> set (pl_jobs p)" "loop_free p \<or> blocking j" for j
    using assms(3) that by (auto simp: may_pass_def list_all_iff)
  have later: "pl_now p < t" using assms(3) by (simp add: may_pass_def)
  show ?thesis
    unfolding on_schedule_def
  proof (intro ballI allI impI)
    fix j' b
    assume "j' \<in> set (pl_jobs ?q)" and b: "pj_budget j' = Some b"
    then obtain j where j: "j \<in> set (pl_jobs p)" "j' = age_job t p j" by (auto simp: pass_time_def)
    with b have pj: "punctual p b (pj_state j)" "pj_budget j = Some b" using assms(1) by (auto simp: on_schedule_def loop)
    show "punctual ?q b (pj_state j')"
    proof (cases "pb_loop (pj_state j)")
      case Waiting
      have "t - pj_at j \<le> allowance b (pl_expiries p)" if "loop_free p"
        using wait [OF j(1)] that Waiting pj(2) allowance_Suc(3) [of b "pl_expiries p"] by (simp add: may_wait_until_def)
      with Waiting pj(1) j now [OF j(1)] free show ?thesis
        by (fastforce simp: punctual_def loop pass_time_def now)
    next
      case (Expired t0)
      then have "t - pj_at j \<le> t0 + grace_us"
        using wait [OF j(1)] by (simp add: blocking_def in_except_def may_wait_until_def)
      with Expired pj(1) j(2) now [OF j(1)] later show ?thesis by (auto simp: punctual_def loop pass_time_def)
    qed (simp add: punctual_def loop j(2))
  qed
qed

text \<open>One coroutine moves: the others stay on schedule when it enters the \<open>except\<close> clause, when it leaves it, and
  when it answers.\<close>

lemma punctual_expired:
  assumes "loop_free p" and "l \<in> set (pl_jobs p)" and "punctual p b (pj_state l)" and "pb_loop s = Expired (pb_now s)"
  shows "punctual ((put_job i s p)\<lparr>pl_expiries := Suc (pl_expiries p)\<rparr>) b (pj_state l)"
proof (cases "pb_loop (pj_state l)")
  case Waiting
  then have "pb_now (pj_state l) \<le> allowance b (pl_expiries p)" using assms(1,3) by (simp add: punctual_def)
  with Waiting assms(1,4) allowance_Suc(1) [of b "pl_expiries p"] allowance_Suc(2) show ?thesis
    by (auto simp: punctual_def loop_free_iff dest!: set_put simp del: put_job_simps(4))
next
  case (Expired t0)
  with assms(1,2) show ?thesis by (auto simp: loop_free_iff)
qed (simp add: punctual_def)

lemma punctual_left:
  assumes "punctual p b (pj_state l)" and "j \<in> set (pl_jobs p)" and "pb_loop (pj_state j) = Expired t0"
    and "pb_now (pj_state j) \<le> t0 + grace_us" and "pb_loop s = Answered a"
  shows "punctual ((put_job i s p)\<lparr>pl_expiries := pl_expiries p\<rparr>) b (pj_state l)"
proof (cases "pb_loop (pj_state l)")
  case Waiting
  then have w: "pb_now (pj_state l) - (pb_now (pj_state k) - t1) \<le> allowance b (pl_expiries p) - grace_us"
    if "k \<in> set (pl_jobs p)" "pb_loop (pj_state k) = Expired t1" for k t1
    using assms(1) that by (simp add: punctual_def)
  with assms(2-4) have "pb_now (pj_state l) \<le> allowance b (pl_expiries p)" by fastforce
  with Waiting w assms(5) show ?thesis by (auto simp: punctual_def dest!: set_put simp del: put_job_simps(4))
next
  case (Expired t1)
  with assms(1) show ?thesis by (simp add: punctual_def)
qed (simp add: punctual_def)

lemma punctual_answered:
  assumes "loop_free p" and "punctual p b (pj_state l)" and "pb_loop s = Answered a"
  shows "punctual ((put_job i s p)\<lparr>pl_expiries := pl_expiries p\<rparr>) b (pj_state l)"
  using assms by (auto simp: punctual_def loop_free_iff dest!: set_put split: waiting.splits simp del: put_job_simps(4))

lemma schedule_coroutine:
  assumes "on_schedule p" and "list_all (job_sound p) (pl_jobs p)" and "i < length (pl_jobs p)"
    and "loop_free p \<or> blocking (pl_jobs p ! i)"
    and "step (pj_budget (pl_jobs p ! i)) (pj_state (pl_jobs p ! i)) s" and "pb_loop s \<noteq> pb_loop (pj_state (pl_jobs p ! i))"
  shows "on_schedule ((put_job i s p)\<lparr>pl_expiries := pl_expiries p + (if in_except s then 1 else 0)\<rparr>)"
proof -
  let ?j = "pl_jobs p ! i" and ?e = "pl_expiries p"
  let ?q = "(put_job i s p)\<lparr>pl_expiries := ?e + (if in_except s then 1 else 0)\<rparr>"
  have mem: "?j \<in> set (pl_jobs p)" using assms(3) by simp
  have old: "punctual p b (pj_state l)" if "l \<in> set (pl_jobs p)" "pj_budget l = Some b" for l b
    using assms(1) that by (simp add: on_schedule_def)
  have free: "loop_free p" if "pb_loop (pj_state ?j) = Waiting"
    using assms(4) that by (simp add: blocking_def in_except_def)
  have all: "punctual ?q b (pj_state l) \<and> (pj_budget ?j = Some b \<longrightarrow> punctual ?q b s)"
    if l: "l \<in> set (pl_jobs p)" "pj_budget l = Some b" for l b
    using assms(5,6)
  proof (cases rule: coroutine_effect)
    case (answered r)
    with free punctual_answered [OF _ old [OF l]] show ?thesis by (simp add: in_except_def punctual_def [of _ b s])
  next
    case expired
    have "punctual ?q b' s" if "pj_budget ?j = Some b'" for b'
      using free old [OF mem that] expired(1,2,4) allowance_Suc(1) [of b' ?e] allowance_Suc(2)
      by (simp add: punctual_def in_except_def)
    with expired free punctual_expired [OF _ l(1) old [OF l], of s i] show ?thesis by (simp add: in_except_def)
  next
    case (left t0 a)
    have "pj_budget ?j \<noteq> None" using assms(2) mem left(1) by (auto simp: list_all_iff job_sound_def consistent_def)
    then have "pb_now (pj_state ?j) \<le> t0 + grace_us" using old [OF mem] left(1) by (auto simp: punctual_def)
    from punctual_left [OF old [OF l] mem left(1) this left(2)] left(2) show ?thesis
      by (simp add: in_except_def punctual_def [of _ b s])
  qed
  show ?thesis
    unfolding on_schedule_def
  proof (intro ballI allI impI)
    fix l b
    assume "l \<in> set (pl_jobs ?q)" "pj_budget l = Some b"
    with set_put [where j = l and i = i and s = s and p = p] all [of l] all [OF mem] show "punctual ?q b (pj_state l)"
      by auto
  qed
qed

lemma schedule_step:
  assumes "pool_step p q" and "list_all (job_sound p) (pl_jobs p)" and "on_schedule p"
  shows "on_schedule q"
  using assms(1)
proof cases
  case (submit budget)
  have n: "punctual (submit_job budget p) b submitted" for b
    using submit(2) allowance_Suc(4) [of b "pl_expiries p"]
    by (auto simp: punctual_def submitted_def submit_job_def loop_free_iff)
  have "loop_free (submit_job budget p)" using submit(2) by (auto simp: loop_free_iff submit_job_def submitted_def)
  then have "punctual (submit_job budget p) b s" if "punctual p b s" for b s
    using that submit(2) by (auto simp: punctual_def loop_free_iff submit_job_def split: waiting.splits)
  with n assms(3) submit(1) show ?thesis
    unfolding on_schedule_def by (auto simp: submit_job_def)
next
  case (pass t)
  with assms schedule_pass show ?thesis by blast
next
  case (serve i)
  with assms(3) show ?thesis by (auto intro: schedule_put)
next
  case (work i s)
  with assms(3) show ?thesis by (auto intro: schedule_put)
next
  case (coroutine i s)
  with assms schedule_coroutine show ?thesis by blast
qed

lemma pool_sound_reachable: "pool_reachable n p \<Longrightarrow> pool_sound n p"
  unfolding pool_reachable_def
proof (induction rule: rtranclp_induct)
  case base
  show ?case by (simp add: pool_sound_def empty_pool_def busy_def in_order_def on_schedule_def)
next
  case (step p q)
  with workers_step busy_step order_step sound_step schedule_step show ?case
    unfolding pool_sound_def by (metis (no_types, lifting))
qed

section \<open>Properties\<close>


text \<open>C22: A job is refused unserved only when the pool was full for its whole budget: it had queued at least that long with
  every worker busy with other jobs.\<close>

theorem refused_only_when_full:
  assumes "pool_reachable n p" and "j \<in> set (pl_jobs p)" and "pb_job (pj_state j) = Dropped"
  shows "\<exists>b. pj_budget j = Some b \<and> b * 1000 \<le> pj_full j"
  using pool_sound_reachable [OF assms(1)] assms(2,3)
  by (auto simp: pool_sound_def list_all_iff job_sound_def)


lemma reachable_next: "pool_reachable n p \<Longrightarrow> pool_step p q \<Longrightarrow> pool_reachable n q"
  unfolding pool_reachable_def by (rule rtranclp.rtrancl_into_rtrancl)

lemma reachable_coroutine:
  assumes "pool_reachable n p" and "i < length (pl_jobs p)" and "loop_free p \<or> blocking (pl_jobs p ! i)"
    and "step (pj_budget (pl_jobs p ! i)) (pj_state (pl_jobs p ! i)) s" and "pb_loop s \<noteq> pb_loop (pj_state (pl_jobs p ! i))"
    and "q = (put_job i s p)\<lparr>pl_expiries := pl_expiries p + (if in_except s then 1 else 0)\<rparr>"
  shows "pool_reachable n q"
  unfolding assms(6) by (rule reachable_next [OF assms(1) coroutine [OF assms(2-5)]])

lemmas sample_pool_simps = sample_pool_def sample_waiting_def sample_running_def put_job_def in_except_def blocking_def loop_free_iff

lemma sample_running_reachable: "pool_reachable 1 (sample_pool 0 [] 0)"
proof -
  let ?p1 = "submit_job None (empty_pool 1)"
  let ?p2 = "put_job 0 ((pj_state (pl_jobs ?p1 ! 0))\<lparr>pb_job := Taken\<rparr>) ?p1"
  let ?run = "\<lparr>pb_now = 0, pb_job = Running, pb_started = True, pb_loop = Waiting\<rparr>"
  have s0: "pool_reachable 1 (empty_pool 1)" by (simp add: pool_reachable_def)
  have "loop_free (empty_pool 1)" by code_simp
  from reachable_next [OF s0 submit [OF this, of None]] have r1: "pool_reachable 1 ?p1" .
  have "0 < length (pl_jobs ?p1)" "\<not> saturated ?p1" "queued (pl_jobs ?p1 ! 0)" "list_all (\<lambda>j. \<not> queued j) (take 0 (pl_jobs ?p1))"
    by code_simp+
  from reachable_next [OF r1 serve [OF this]] have r2: "pool_reachable 1 ?p2" .
  have "step None (pj_state (pl_jobs ?p2 ! 0)) ((pj_state (pl_jobs ?p2 ! 0))\<lparr>pb_job := Running, pb_started := True\<rparr>)"
    by (rule begin_run) code_simp
  moreover have "(pj_state (pl_jobs ?p2 ! 0))\<lparr>pb_job := Running, pb_started := True\<rparr> = ?run" by code_simp
  ultimately have "step (pj_budget (pl_jobs ?p2 ! 0)) (pj_state (pl_jobs ?p2 ! 0)) ?run" by (simp add: submit_job_def empty_pool_def)
  moreover have "0 < length (pl_jobs ?p2)" "holds_worker (pl_jobs ?p2 ! 0)" "pb_loop ?run = pb_loop (pj_state (pl_jobs ?p2 ! 0))"
    "pb_now ?run = pb_now (pj_state (pl_jobs ?p2 ! 0))" by code_simp+
  ultimately have "pool_step ?p2 (put_job 0 ?run ?p2)" by (intro work)
  moreover have "put_job 0 ?run ?p2 = sample_pool 0 [] 0" by code_simp
  ultimately show ?thesis using reachable_next [OF r2] by metis
qed

lemma late_expiry:
  assumes "1000000 \<le> t"
  shows "step (Some 1000) \<lparr>pb_now = t, pb_job = Queued, pb_started = False, pb_loop = Waiting\<rparr>
      \<lparr>pb_now = t, pb_job = Dropped, pb_started = False, pb_loop = Expired t\<rparr>"
  using expire [of "\<lparr>pb_now = t, pb_job = Queued, pb_started = False, pb_loop = Waiting\<rparr>" "Some 1000" 1000] assms by simp

lemma sample_late_reachable: "pool_reachable 1 sample_late"
proof -
  let ?p3 = "sample_pool 0 [] 0"
  let ?p5 = "sample_pool 0 [sample_waiting 0 0 Queued Waiting, sample_waiting 0 0 Queued Waiting] 0"
  let ?w = "sample_waiting 1000000 1000000 Queued Waiting"
  let ?p6 = "sample_pool 1000000 [?w, ?w] 0"
  let ?p7 = "sample_pool 1000000 [sample_waiting 1000000 1000000 Dropped (Expired 1000000), ?w] 1"
  let ?p8 = "sample_pool 1100000 [sample_waiting 1100000 1000000 Dropped (Expired 1000000), sample_waiting 1100000 1100000 Queued Waiting] 1"
  let ?p9 = "sample_pool 1100000 [sample_waiting 1100000 1000000 Dropped (Answered At_capacity), sample_waiting 1100000 1100000 Queued Waiting] 1"
  let ?p10 = "sample_pool 1100000 [sample_waiting 1100000 1000000 Dropped (Answered At_capacity), sample_waiting 1100000 1100000 Dropped (Expired 1100000)] 2"
  have "loop_free ?p3" "loop_free (submit_job (Some 1000) ?p3)" "submit_job (Some 1000) (submit_job (Some 1000) ?p3) = ?p5"
    by code_simp+
  then have r5: "pool_reachable 1 ?p5" using reachable_next [OF reachable_next [OF sample_running_reachable submit] submit] by metis
  have "may_pass 1000000 ?p5" "pass_time 1000000 ?p5 = ?p6" by code_simp+
  then have "pool_reachable 1 ?p6" using reachable_next [OF r5 pass] by metis
  then have r7: "pool_reachable 1 ?p7"
    by (rule reachable_coroutine [where i = 1 and s = "\<lparr>pb_now = 1000000, pb_job = Dropped, pb_started = False, pb_loop = Expired 1000000\<rparr>"])
      (use late_expiry [of 1000000] in \<open>simp_all add: sample_pool_simps\<close>)
  have "may_pass 1100000 ?p7" "pass_time 1100000 ?p7 = ?p8" by code_simp+
  then have r8: "pool_reachable 1 ?p8" using reachable_next [OF r7 pass] by metis
  let ?x9 = "\<lparr>pb_now = 1100000, pb_job = Dropped, pb_started = False, pb_loop = Answered At_capacity\<rparr>"
  have "step (Some 1000) \<lparr>pb_now = 1100000, pb_job = Dropped, pb_started = False, pb_loop = Expired 1000000\<rparr> ?x9"
    using refuse [of "\<lparr>pb_now = 1100000, pb_job = Dropped, pb_started = False, pb_loop = Expired 1000000\<rparr>" 1000000 "Some 1000"]
    by (simp add: grace_us_def)
  with r8 have "pool_reachable 1 ?p9"
    by - (erule reachable_coroutine [where i = 1 and s = ?x9], simp_all add: sample_pool_simps)
  then have r10: "pool_reachable 1 ?p10"
    by (rule reachable_coroutine [where i = 2 and s = "\<lparr>pb_now = 1100000, pb_job = Dropped, pb_started = False, pb_loop = Expired 1100000\<rparr>"])
      (use late_expiry [of 1100000] in \<open>simp_all add: sample_pool_simps\<close>)
  have "may_pass 1200000 ?p10" "pass_time 1200000 ?p10 = sample_late" by code_simp+
  then show ?thesis using reachable_next [OF r10 pass] by metis
qed


theorem refused_only_when_full_witness:
  "\<exists>b. pj_budget (pl_jobs sample_late ! 1) = Some b \<and> b * 1000 \<le> pj_full (pl_jobs sample_late ! 1)"
proof -
  have "1 < length (pl_jobs sample_late)" "pb_job (pj_state (pl_jobs sample_late ! 1)) = Dropped" by code_simp+
  with refused_only_when_full [OF sample_late_reachable nth_mem] show ?thesis by blast
qed


text \<open>The blocking wait delays the other coroutines: two jobs whose budgets of a second run out together while the pool
  is full are refused one after the other, the second still unanswered two tenths of a second late.\<close>

theorem blocked_loop_delays_others:
  "\<exists>p j. pool_reachable 1 p \<and> j \<in> set (pl_jobs p) \<and> pj_budget j = Some 1000
     \<and> (\<forall>a. pb_loop (pj_state j) \<noteq> Answered a) \<and> 1000 * 1000 + 2 * grace_us \<le> pb_now (pj_state j)"
proof -
  have j: "2 < length (pl_jobs sample_late)" "pj_budget (pl_jobs sample_late ! 2) = Some 1000"
    "pb_loop (pj_state (pl_jobs sample_late ! 2)) = Expired 1100000"
    "1000 * 1000 + 2 * grace_us \<le> pb_now (pj_state (pl_jobs sample_late ! 2))" by code_simp+
  show ?thesis
    using sample_late_reachable nth_mem [OF j(1)] j(2-4)
    by (intro exI [of _ sample_late] exI [of _ "pl_jobs sample_late ! 2"]) simp
qed

end
