(* ===== verification/Spec2Isabelle.thy ===== *)
theory Spec2Isabelle
  imports Server Pool_Queue Iso_Time Storage Egress_Guard Envelope
begin

text \<open>
  The tracedown probe agent (\<open>src/src/\<close>): a small HTTP server that a scheduler dispatches probe jobs to. A job carries a
  Lace script; the agent runs it on a thread pool with the Lace executor, measures and watches the traffic of the
  run, refuses to dial internal addresses, redacts secrets out of the captured bodies, stores the bodies and
  answers with the result, in the clear or sealed to the gateway. The agent enrols once with its gateway (a bootstrap token
  against a certificate), serves mutual TLS with what it got, and renews the certificate before it expires.

  \<^bold>\<open>How the parts interact.\<close> \<open>main.py\<close> enrols, chooses how to listen and starts the lifespan, which installs the patches on
  \<open>socket\<close> and \<open>http.client\<close>, the pool, the storage and the egress policy, and starts the renewal loop. A dispatch
  reaches \<open>routes/probe.py\<close>, which opens it (\<open>mtls/envelope.py\<close>), hands it to \<open>services/executor.py\<close> and seals the answer.
  \<open>execute_probe\<close> puts the run on the pool under its budget. The run itself puts three scopes around
  the Lace executor: the byte counter (\<open>wire_metrics\<close>), the egress guard (\<open>egress_guard\<close>) and the progress record
  (\<open>run_progress\<close>, which asks \<open>tcp_state\<close> for the kernel's view when a request times out). Whatever the executor does reaches these
  modules only through the functions they patched.

  \<^bold>\<open>Theories.\<close> Each names the file it models at its top; definitions keep the names of the code.

  \<^item> \<open>Prelude\<close>: exceptions, routines (\<open>('s, 'a) proc\<close>: a state, and a value or an exception), JSON values, \<open>with_cell\<close> for the
    context managers. \<open>PyStr\<close>: the string functions of Python the agent uses. \<open>Ip_Address\<close>: \<open>ipaddress\<close>. \<open>Iso_Time\<close>: the two time
    formats. \<open>Sha256\<close>: the digest behind the pins, executable.
  \<^item> \<open>Egress_Guard\<close> (\<open>egress_guard.py\<close>), \<open>Tcp_State\<close> (\<open>tcp_state.py\<close>), \<open>Run_Progress\<close> (\<open>run_progress.py\<close>), \<open>Wire_Metrics\<close> (\<open>wire_metrics.py\<close>):
    the modules under a run, each extending the record of the one below, so that one world holds the thread's flags,
    the shared records, the counters and the files.
  \<^item> \<open>Probe_Activity\<close>, \<open>Run_Invariants\<close>, \<open>Probe_Run\<close>: every executor run as an inductive relation over the patched functions, the
    invariants of all such runs, and the three scopes.
  \<^item> \<open>Job\<close> (\<open>models/job.py\<close>), \<open>Storage\<close> (\<open>storage/\<close>), \<open>Redaction\<close>, \<open>Attribution\<close>, \<open>Executor_Run\<close>, \<open>Probe_Pool\<close> (\<open>services/executor.py\<close>): the
    job, the two storage backends, masking, the judging of timeouts, one run from configuration to uploaded
    bodies, and the budget as a transition system of the pool thread and the event loop.
  \<^item> \<open>Envelope\<close> (\<open>mtls/envelope.py\<close>), \<open>Config\<close> (\<open>config.py\<close>), \<open>Tls_Context\<close> (\<open>mtls/ssl_context.py\<close>), \<open>Gateway_Trust\<close>
    (\<open>mtls/bootstrap_trust.py\<close>), \<open>Ca_Pins\<close> (\<open>mtls/ca_pins.py\<close>), \<open>Enrolment\<close> (\<open>mtls/bootstrap.py\<close>), \<open>Renewal\<close> (\<open>mtls/renewal.py\<close>):
    sealing, settings, TLS contexts and the agent's identity. The world here is the disk and a log of every handshake and
    request, each with the \<open>verify\<close> it went out under.
  \<^item> \<open>Routes\<close> (\<open>routes/\<close>), \<open>Startup\<close> (\<open>main.py\<close>): the handlers, and how the agent comes up.
  \<^item> \<open>Well_Formed\<close>: the typing of the world a run lives in, kept by every run. \<open>Identity_Store\<close>: the agent's key, certificate,
    CA, pins and slug as an abstract identity, the two plans by which it may change, and the refinement of enrolment and
    renewal to them. \<open>Pool_Queue\<close>: all dispatches together on the bounded pool and the one event loop. \<open>Lifespan\<close>: the
    application while it serves and how it stops. \<open>Server\<close>: one function from an HTTP request to its answer, over all of the above.

  \<^bold>\<open>Interfaces.\<close> \<open>scoped_cell\<close> is the contract of a context manager over one cell; the four managers of the code interpret it.
  \<open>activity_relation\<close> is what a relation must satisfy at each primitive update of the hooks to hold across every
  executor run; the families in \<open>Run_Invariants\<close> interpret it. \<open>body_store\<close> (over \<open>uri_naming\<close>) is the
  contract of the abstract \<open>BodyStorage\<close>, \<open>copying_store\<close> what redaction needs of a backend. \<open>identity_keeper\<close> is the contract of every
  routine that touches the identity; enrolment, the renewal loop and the agent's whole life interpret it.
  \<open>trusted_peer\<close> is the contract of whatever settles who answers for the gateway before anything is sent: it sends
  nothing itself and yields only peers the agent may talk to; the enrolment's resolution, the renewal's
  and the TLS front interpret it, and the bounds on what an enrolment or a renewal sends are proved in it.
  Verdicts are a \<open>linorder\<close>, so a run's verdict is a minimum.

  \<^bold>\<open>What is shown.\<close> Egress: the policy is exactly the documented ranges and labels, and every address any run dials under
  the guard was vetted; a production agent, configured by its
  environment alone, dials nothing else whatever sequence of requests it serves (health challenges apart, which go to the
  gateway by design). Secrets: no fragment of a secret survives redaction or reaches
  the store. Bookkeeping: the result's totals agree with the run's record, each request that times out leaves one
  entry, each entry is matched to its call, the verdict is the least of the calls'. Budget: answers are
  truthful (a job dropped from the pool never runs) and in time; over the whole pool jobs are served in order, refused only
  when it was full, and late only by the coroutines that block the loop. Enrolment and renewal: the token goes only to an
  authenticated gateway, the trust anchor is never lost over any number of renewals, a gateway without a pinned
  certificate changes nothing, no outcome deletes a file of the identity, and stopping never splits a renewal. A sealed dispatch
  posted to the agent is executed as it was written and its answer opens to the result; it is never answered in the clear.
  Round trips for dispatches, stamps, storage paths, pins and addresses; termination of the walk over an exception's causes. Where the code falls short
  of its comments, theorems say exactly how (interrupted enrolment, split key and certificate, the spelling of
  \<open>production\<close>, a run's own timeout error, the infinite budget, the sealing key a renewal leaves behind, the wait that blocks the loop, the refused job that still runs).

  \<^bold>\<open>Bounds.\<close> Nothing runs on fuel. Loops over data are structural; \<open>replace_all\<close>, \<open>fragments\<close> and \<open>cert_walk\<close> (exception graphs with cycles)
  have termination proofs; the endless renewal loop is unfolded for any finite number of cycles. Instants are whole micro- or
  milliseconds, divided exactly where the code uses floating point; Python's integers are \<open>int\<close>; addresses and SHA-256 are words of their
  width.

  \<^bold>\<open>Not modelled.\<close> Code outside the repository is an argument: the Lace executor (any behaviour that goes through the
  patched functions), the operating system's sockets, \<open>cryptography\<close> and OpenSSL's parsers, \<open>httpx\<close>, \<open>boto3\<close>, how Pydantic reads a number or a truth
  value (the fields of a dispatch and of the environment, their names, defaults and types are modelled). What is relied on of them is a named hypothesis (\<open>matching_keys\<close>, \<open>json_text\<close>, \<open>executor_body\<close>, \<open>system_connect\<close>),
  each met by an instance in a witness. FastAPI, uvicorn and logging are left out. Text is Latin-1 (bytes are
  bytes); messages of exceptions in the TLS modules, and the body of a 422, are abridged. The file system has no permissions,
  symbolic links or full disks.
\<close>

end
